(* ===== verification/Prelude.thy ===== *)
theory Prelude
  imports Complex_Main "HOL-Library.Word" "HOL-Library.Char_ord" "HOL-Library.List_Lexorder"
    "HOL-Library.Sublist"
begin

section \<open>Shared types, control flow and lemmas\<close>

text \<open>
  What every component of the binding uses: the ways a C++ function body can end
  (\<open>flow\<close>), the sequencing of the \<open>if\<close>-blocks of a long configuration function
  (\<open>run_steps\<close>) with the contract such a sequence keeps (locale \<open>step_pipeline\<close>),
  C strings, \<open>std::to_string\<close>, \<open>std::map\<close> as a sorted association list, and the
  generic lemmas on them. The collection \<open>steps_def\<close> gathers the definitions of the
  blocks of the configuration functions, \<open>handler_def\<close> those of the callbacks of
  asynchronous operations.
\<close>

named_theorems steps_def \<open>the blocks of the configuration functions\<close>
named_theorems handler_def \<open>the completion callbacks of asynchronous operations\<close>

type_synonym int32 = "32 word"
type_synonym uint32 = "32 word"
type_synonym int64 = "64 word"
type_synonym bytes = string

subsection \<open>How a function body ends\<close>

text \<open>
  \<open>JsError\<close> and \<open>JsTypeError\<close> are exceptions thrown into JavaScript
  (\<open>Napi::Error\<close>, \<open>Napi::TypeError\<close>), \<open>CppThrow\<close> is a C++ \<open>throw\<close> of a
  string literal, \<open>UndefinedBehaviour\<close> an access the C++ standard gives no meaning.
\<close>

datatype exn = JsError string | JsTypeError string | CppThrow string | UndefinedBehaviour string

text \<open>
  A block of a function body falls through to the next block (\<open>Continue\<close>), executes
  \<open>return\<close> (\<open>Return\<close>), or leaves by an exception (\<open>Throw\<close>), each with the
  state reached.
\<close>

datatype 's flow = Continue 's | Return 's | Throw exn 's

primrec flow_state :: "'s flow \<Rightarrow> 's" where
  "flow_state (Continue s) = s"
| "flow_state (Return s) = s"
| "flow_state (Throw e s) = s"

primrec run_steps :: "('s \<Rightarrow> 's flow) list \<Rightarrow> 's \<Rightarrow> 's flow" where
  "run_steps [] s = Continue s"
| "run_steps (f # fs) s =
     (case f s of Continue s' \<Rightarrow> run_steps fs s' | Return s' \<Rightarrow> Return s' | Throw e s' \<Rightarrow> Throw e s')"

lemma run_steps_append:
  "run_steps (fs @ gs) s =
     (case run_steps fs s of Continue s' \<Rightarrow> run_steps gs s' | Return s' \<Rightarrow> Return s' | Throw e s' \<Rightarrow> Throw e s')"
  by (induction fs arbitrary: s) (simp_all split: flow.split)

lemma run_steps_append_Continue:
  "run_steps (fs @ gs) s = Continue u \<longleftrightarrow> (\<exists>t. run_steps fs s = Continue t \<and> run_steps gs t = Continue u)"
  by (simp add: run_steps_append split: flow.split)

lemma run_steps_Cons_Continue:
  "run_steps (f # fs) s = Continue u \<longleftrightarrow> (\<exists>t. f s = Continue t \<and> run_steps fs t = Continue u)"
  by (simp split: flow.split)

lemma run_steps_all_Continue:
  assumes "\<And>f s. f \<in> set fs \<Longrightarrow> \<exists>s'. f s = Continue s'"
  shows "\<exists>s'. run_steps fs s = Continue s'"
  using assms
proof (induction fs arbitrary: s)
  case (Cons f fs)
  from Cons.prems obtain s' where "f s = Continue s'" by fastforce
  moreover have "\<exists>t. run_steps fs s' = Continue t"
    by (rule Cons.IH) (simp add: Cons.prems)
  ultimately show ?case by simp
qed simp

text \<open>
  The contract of a sequence of blocks: each keeps an invariant of the state and only
  extends it in the sense of a preorder (for the configurations: the log of setter calls
  made so far stays a prefix). The whole body then does the same, however it ends.
\<close>

locale step_pipeline =
  fixes steps :: "('s \<Rightarrow> 's flow) list"
    and inv :: "'s \<Rightarrow> bool"
    and ext :: "'s \<Rightarrow> 's \<Rightarrow> bool"
  assumes ext_refl: "ext s s"
    and ext_trans: "ext s t \<Longrightarrow> ext t u \<Longrightarrow> ext s u"
    and step_inv: "f \<in> set steps \<Longrightarrow> inv s \<Longrightarrow> inv (flow_state (f s))"
    and step_ext: "f \<in> set steps \<Longrightarrow> inv s \<Longrightarrow> ext s (flow_state (f s))"
begin

lemma run_part:
  assumes "set fs \<subseteq> set steps" and "inv s"
  shows "inv (flow_state (run_steps fs s)) \<and> ext s (flow_state (run_steps fs s))"
  using assms
proof (induction fs arbitrary: s)
  case Nil
  then show ?case by (simp add: ext_refl)
next
  case (Cons f fs)
  from Cons.prems have f: "f \<in> set steps" by simp
  have i: "inv (flow_state (f s))" and e: "ext s (flow_state (f s))"
    using step_inv [OF f Cons.prems(2)] step_ext [OF f Cons.prems(2)] .
  show ?case
  proof (cases "f s")
    case (Continue t)
    with i e have "inv t" and st: "ext s t" by simp_all
    with Cons.IH [of t] Cons.prems(1)
    have "inv (flow_state (run_steps fs t)) \<and> ext t (flow_state (run_steps fs t))" by simp
    with Continue st show ?thesis by (auto intro: ext_trans)
  qed (use i e in auto)
qed

lemma run_inv: "inv s \<Longrightarrow> inv (flow_state (run_steps steps s))"
  using run_part [of steps s] by simp

lemma run_ext: "inv s \<Longrightarrow> ext s (flow_state (run_steps steps s))"
  using run_part [of steps s] by simp

end

text \<open>
  The configuration functions: every block appends calls to the log it keeps in the state,
  all of them valid. Such a sequence is an instance of the contract above.
\<close>

definition appends :: "('s \<Rightarrow> 'c list) \<Rightarrow> ('c \<Rightarrow> bool) \<Rightarrow> ('s \<Rightarrow> 's flow) \<Rightarrow> bool" where
  "appends lg ok f \<longleftrightarrow> (\<forall>s. \<exists>xs. list_all ok xs \<and> lg (flow_state (f s)) = lg s @ xs)"

lemma appendsI:
  assumes "\<And>s. lg (flow_state (f s)) = lg s @ xs s" and "\<And>s. list_all ok (xs s)"
  shows "appends lg ok f"
  using assms unfolding appends_def by blast

text \<open>A block that appends at most one call.\<close>

lemma appends_oneI:
  assumes "\<And>s. lg (flow_state (f s)) = lg s \<or> (\<exists>x. ok x \<and> lg (flow_state (f s)) = lg s @ [x])"
  shows "appends lg ok f"
  unfolding appends_def
proof
  fix s
  from assms [of s] show "\<exists>xs. list_all ok xs \<and> lg (flow_state (f s)) = lg s @ xs"
  proof (elim disjE exE conjE)
    assume "lg (flow_state (f s)) = lg s"
    then show ?thesis by (intro exI [of _ "[]"]) simp
  next
    fix x assume "ok x" "lg (flow_state (f s)) = lg s @ [x]"
    then show ?thesis by (intro exI [of _ "[x]"]) simp
  qed
qed

locale logged_pipeline =
  fixes steps :: "('s \<Rightarrow> 's flow) list"
    and lg :: "'s \<Rightarrow> 'c list"
    and ok :: "'c \<Rightarrow> bool"
  assumes steps_append: "f \<in> set steps \<Longrightarrow> appends lg ok f"

sublocale logged_pipeline \<subseteq> step_pipeline steps "\<lambda>s. list_all ok (lg s)" "\<lambda>s t. prefix (lg s) (lg t)"
proof
  fix f s
  assume "f \<in> set steps"
  then obtain xs where "list_all ok xs" "lg (flow_state (f s)) = lg s @ xs"
    using steps_append unfolding appends_def by blast
  then show "prefix (lg s) (lg (flow_state (f s)))"
    and "list_all ok (lg s) \<Longrightarrow> list_all ok (lg (flow_state (f s)))"
    by simp_all
qed auto

subsection \<open>C strings and std::to_string\<close>

text \<open>
  What a C function that receives \<open>s.c_str()\<close> reads: the bytes up to the first NUL.
\<close>

definition c_str :: "string \<Rightarrow> string" where
  "c_str s = takeWhile (\<lambda>c. c \<noteq> CHR 0x00) s"

lemma c_str_no_NUL [simp]: "CHR 0x00 \<notin> set s \<Longrightarrow> c_str s = s"
  unfolding c_str_def by (rule takeWhile_eq_all_conv [THEN iffD2]) auto

lemma c_str_idem [simp]: "c_str (c_str s) = c_str s"
  by (rule c_str_no_NUL) (auto simp: c_str_def dest: set_takeWhileD)

lemma c_str_append: "CHR 0x00 \<notin> set s \<Longrightarrow> c_str (s @ t) = s @ c_str t"
  unfolding c_str_def by (rule takeWhile_append2) auto

lemma NUL_notin_c_str [simp]: "CHR 0x00 \<notin> set (c_str s)"
  by (auto simp: c_str_def dest: set_takeWhileD)

definition digit :: "nat \<Rightarrow> char" where
  "digit n = char_of (48 + n)"

fun show_nat :: "nat \<Rightarrow> string" where
  "show_nat n = (if n < 10 then [digit n] else show_nat (n div 10) @ [digit (n mod 10)])"

declare show_nat.simps [simp del]

definition to_string :: "int \<Rightarrow> string" where
  "to_string i = (if i < 0 then CHR ''-'' # show_nat (nat (- i)) else show_nat (nat i))"

lemma digit_simps [simp]:
  "digit 0 = CHR ''0''" "digit (Suc 0) = CHR ''1''" "digit 1 = CHR ''1''" "digit 2 = CHR ''2''"
  "digit 3 = CHR ''3''" "digit 4 = CHR ''4''" "digit 5 = CHR ''5''" "digit 6 = CHR ''6''"
  "digit 7 = CHR ''7''" "digit 8 = CHR ''8''" "digit 9 = CHR ''9''"
  by (code_simp | simp add: digit_def)+

lemma digit_inj: "m < 10 \<Longrightarrow> n < 10 \<Longrightarrow> digit m = digit n \<Longrightarrow> m = n"
  unfolding digit_def
  by (drule arg_cong [where f = "of_char :: char \<Rightarrow> nat"]) simp

lemma show_nat_nonempty [simp]: "show_nat n \<noteq> []" "[] \<noteq> show_nat n"
  by (subst show_nat.simps, simp)+

lemma show_nat_inj: "show_nat m = show_nat n \<Longrightarrow> m = n"
proof (induction m arbitrary: n rule: show_nat.induct)
  case (1 m)
  show ?case
  proof (cases "m < 10")
    case m: True
    with "1.prems" have n: "n < 10"
      by (simp add: show_nat.simps [of m] show_nat.simps [of n] split: if_splits)
    with m "1.prems" show ?thesis
      by (simp add: show_nat.simps [of m] show_nat.simps [of n] digit_inj)
  next
    case m: False
    with "1.prems" have n: "\<not> n < 10"
      by (simp add: show_nat.simps [of m] show_nat.simps [of n] split: if_splits)
    with m "1.prems" have "show_nat (m div 10) = show_nat (n div 10)"
      and "digit (m mod 10) = digit (n mod 10)"
      by (simp_all add: show_nat.simps [of m] show_nat.simps [of n])
    with "1.IH" m have "m div 10 = n div 10" and "m mod 10 = n mod 10"
      by (simp_all add: digit_inj)
    then show ?thesis by (metis div_mult_mod_eq)
  qed
qed

subsection \<open>std::map\<close>

text \<open>
  A \<open>std::map\<close> is the list of its entries in the order of iteration, ascending in the
  key; \<open>smap_put\<close> is \<open>m[k] = v\<close>.
\<close>

type_synonym ('k, 'v) smap = "('k \<times> 'v) list"

fun smap_put :: "'k::linorder \<Rightarrow> 'v \<Rightarrow> ('k, 'v) smap \<Rightarrow> ('k, 'v) smap" where
  "smap_put k v [] = [(k, v)]"
| "smap_put k v (e # m) =
     (if fst e < k then e # smap_put k v m
      else if k = fst e then (k, v) # m
      else (k, v) # e # m)"

definition smap_wf :: "('k::linorder, 'v) smap \<Rightarrow> bool" where
  "smap_wf m \<longleftrightarrow> sorted_wrt (<) (map fst m)"

definition smap_of :: "('k::linorder \<times> 'v) list \<Rightarrow> ('k, 'v) smap" where
  "smap_of es = fold (\<lambda>(k, v). smap_put k v) es []"

lemma fst_set_smap_put: "fst ` set (smap_put k v m) = insert k (fst ` set m)"
  by (induction k v m rule: smap_put.induct) auto

lemma smap_wf_put [simp]: "smap_wf m \<Longrightarrow> smap_wf (smap_put k v m)"
  unfolding smap_wf_def
proof (induction k v m rule: smap_put.induct)
  case (2 k v e m)
  then show ?case by (auto simp: fst_set_smap_put)
qed simp

lemma smap_wf_distinct: "smap_wf m \<Longrightarrow> distinct (map fst m)"
  unfolding smap_wf_def by (simp add: strict_sorted_iff)

lemma map_of_smap_put [simp]: "smap_wf m \<Longrightarrow> map_of (smap_put k v m) = (map_of m)(k \<mapsto> v)"
proof (induction k v m rule: smap_put.induct)
  case (2 k v e m)
  then have "smap_wf m" by (simp add: smap_wf_def)
  with "2.IH" show ?case by (cases e) (auto simp: fun_eq_iff)
qed simp

lemma smap_put_snoc:
  "smap_wf (m @ [(k, v)]) \<Longrightarrow> smap_put k v m = m @ [(k, v)]"
  by (induction m) (auto simp: smap_wf_def sorted_wrt_append)

lemma fold_smap_put_wf: "smap_wf m \<Longrightarrow> smap_wf (fold (\<lambda>(k, v). smap_put k v) es m)"
  by (induction es arbitrary: m) auto

lemma smap_wf_of [simp]: "smap_wf (smap_of es)"
  unfolding smap_of_def by (rule fold_smap_put_wf) (simp add: smap_wf_def)

text \<open>Rebuilding a map entry by entry from its own iteration order gives it back.\<close>

lemma smap_of_wf [simp]:
  assumes "smap_wf m"
  shows "smap_of m = m"
proof -
  have "fold (\<lambda>(k, v). smap_put k v) ys xs = xs @ ys" if "smap_wf (xs @ ys)"
    for xs ys :: "('a, 'b) smap"
    using that
  proof (induction ys arbitrary: xs)
    case (Cons y ys)
    obtain k v where y: "y = (k, v)" by (cases y)
    with Cons.prems have "smap_wf (xs @ [(k, v)])"
      by (auto simp: smap_wf_def sorted_wrt_append)
    then have "smap_put k v xs = xs @ [y]" using y by (simp add: smap_put_snoc)
    with Cons y show ?case by simp
  qed simp
  from this [of "[]" m] assms show ?thesis by (simp add: smap_of_def)
qed

text \<open>
  A scan for the first entry with a given value: where the values are distinct, the order
  of iteration does not matter.
\<close>

lemma find_distinct_snd:
  assumes "distinct (map snd es)"
  shows "map_option fst (find (\<lambda>e. snd e = t) es) = Some n \<longleftrightarrow> (n, t) \<in> set es"
  using assms
proof (induction es)
  case (Cons e es)
  then show ?case by (cases e) (auto simp: image_iff)
qed simp

end
