(* ===== verification/Js_Value.thy ===== *)
theory Js_Value
  imports Prelude
begin

section \<open>JavaScript values as the binding sees them\<close>

text \<open>
  The arguments of every entry point of the addon are JavaScript values, inspected through
  the N-API: \<open>Has\<close>, \<open>Get\<close>, the \<open>Is...\<close> tests and the conversions. The values are
  modelled as the language has them; the parts of the N-API whose result the language and the
  N-API documentation leave open (coercing an object or a number to a string, a string or an object to a number, converting a
  number outside the 64-bit range, the messages of a failed unwrap and of a value that is no string) are fields of the record
  \<open>napi\<close>, a parameter of every definition that uses them.
\<close>

text \<open>
  A JavaScript number: every finite double is a rational. The two zeros are one number here:
  no conversion or comparison the code makes tells them apart.
\<close>

datatype js_number = NaN | PosInf | NegInf | Finite rat

text \<open>
  Handles of native objects: what an \<open>ObjectWrap\<close> instance holds. Pointers are numbers,
  \<open>None\<close> is a null pointer. Consumers and readers also hold their listener, if any.
\<close>

type_synonym ptr = nat

datatype native =
    N_MessageId "ptr option"
  | N_Message "ptr option"
  | N_Authentication "ptr option"
  | N_CryptoKeyReader
  | N_Producer ptr
  | N_Consumer ptr "nat option"
  | N_Reader ptr "nat option"

datatype js_value =
    JUndefined
  | JNull
  | JBoolean bool
  | JNumber js_number
  | JString string
  | JObject "(string \<times> js_value) list"
  | JArray "js_value list"
  | JBuffer bytes
  | JFunction nat
  | JNative native "(string \<times> js_value) list"

record napi =
  coerceString :: "js_value \<Rightarrow> string"
  coerceNumber :: "js_value \<Rightarrow> js_number"
  int64OutOfRange :: "rat \<Rightarrow> int64"
  unwrapError :: string
  stringExpected :: string

subsection \<open>Type tests\<close>

definition IsUndefined :: "js_value \<Rightarrow> bool" where
  "IsUndefined v = (case v of JUndefined \<Rightarrow> True | _ \<Rightarrow> False)"

definition IsNull :: "js_value \<Rightarrow> bool" where
  "IsNull v = (case v of JNull \<Rightarrow> True | _ \<Rightarrow> False)"

definition IsBoolean :: "js_value \<Rightarrow> bool" where
  "IsBoolean v = (case v of JBoolean _ \<Rightarrow> True | _ \<Rightarrow> False)"

definition IsNumber :: "js_value \<Rightarrow> bool" where
  "IsNumber v = (case v of JNumber _ \<Rightarrow> True | _ \<Rightarrow> False)"

definition IsString :: "js_value \<Rightarrow> bool" where
  "IsString v = (case v of JString _ \<Rightarrow> True | _ \<Rightarrow> False)"

definition IsArray :: "js_value \<Rightarrow> bool" where
  "IsArray v = (case v of JArray _ \<Rightarrow> True | _ \<Rightarrow> False)"

definition IsBuffer :: "js_value \<Rightarrow> bool" where
  "IsBuffer v = (case v of JBuffer _ \<Rightarrow> True | _ \<Rightarrow> False)"

definition IsFunction :: "js_value \<Rightarrow> bool" where
  "IsFunction v = (case v of JFunction _ \<Rightarrow> True | _ \<Rightarrow> False)"

text \<open>Arrays, buffers, functions and wrapped objects are objects too; \<open>null\<close> is not.\<close>

definition IsObject :: "js_value \<Rightarrow> bool" where
  "IsObject v = (case v of JObject _ \<Rightarrow> True | JArray _ \<Rightarrow> True | JBuffer _ \<Rightarrow> True
     | JFunction _ \<Rightarrow> True | JNative _ _ \<Rightarrow> True | _ \<Rightarrow> False)"

subsection \<open>Properties\<close>

text \<open>
  The string-keyed properties of a value, in enumeration order. The elements of arrays and
  buffers are properties with decimal keys.
\<close>

definition indexed :: "js_value list \<Rightarrow> (string \<times> js_value) list" where
  "indexed xs = zip (map show_nat [0..<length xs]) xs"

definition props :: "js_value \<Rightarrow> (string \<times> js_value) list" where
  "props v = (case v of JObject ps \<Rightarrow> ps | JNative _ ps \<Rightarrow> ps | JArray xs \<Rightarrow> indexed xs
     | JBuffer bs \<Rightarrow> indexed (map (\<lambda>c. JNumber (Finite (of_nat (of_char c)))) bs) | _ \<Rightarrow> [])"

definition Has :: "js_value \<Rightarrow> string \<Rightarrow> bool" where
  "Has v k \<longleftrightarrow> map_of (props v) k \<noteq> None"

definition Get :: "js_value \<Rightarrow> string \<Rightarrow> js_value" where
  "Get v k = (case map_of (props v) k of None \<Rightarrow> JUndefined | Some x \<Rightarrow> x)"

definition GetPropertyNames :: "js_value \<Rightarrow> string list" where
  "GetPropertyNames v = map fst (props v)"

definition elements :: "js_value \<Rightarrow> js_value list" where
  "elements v = (case v of JArray xs \<Rightarrow> xs | _ \<Rightarrow> [])"

lemma props_simps [simp]:
  "props (JObject ps) = ps" "props (JNative w ps) = ps" "props (JArray xs) = indexed xs"
  "props JUndefined = []" "props JNull = []" "props (JBoolean b) = []" "props (JNumber n) = []"
  "props (JString s) = []" "props (JFunction f) = []"
  by (simp_all add: props_def)

lemma elements_JArray [simp]: "elements (JArray xs) = xs"
  by (simp add: elements_def)

subsection \<open>Conversions\<close>

definition ToString :: "napi \<Rightarrow> js_value \<Rightarrow> string" where
  "ToString N v = (case v of JString s \<Rightarrow> s | JUndefined \<Rightarrow> ''undefined'' | JNull \<Rightarrow> ''null''
     | JBoolean b \<Rightarrow> (if b then ''true'' else ''false'') | _ \<Rightarrow> coerceString N v)"

definition ToNumber :: "napi \<Rightarrow> js_value \<Rightarrow> js_number" where
  "ToNumber N v = (case v of JNumber n \<Rightarrow> n | JUndefined \<Rightarrow> NaN | JNull \<Rightarrow> Finite 0
     | JBoolean b \<Rightarrow> Finite (if b then 1 else 0) | _ \<Rightarrow> coerceNumber N v)"

definition ToBoolean :: "js_value \<Rightarrow> bool" where
  "ToBoolean v = (case v of JBoolean b \<Rightarrow> b | JUndefined \<Rightarrow> False | JNull \<Rightarrow> False
     | JString s \<Rightarrow> s \<noteq> [] | JNumber n \<Rightarrow> (case n of NaN \<Rightarrow> False | Finite q \<Rightarrow> q \<noteq> 0 | _ \<Rightarrow> True)
     | _ \<Rightarrow> True)"

definition trunc :: "rat \<Rightarrow> int" where
  "trunc q = (if 0 \<le> q then floor q else ceiling q)"

text \<open>
  \<open>Int32Value\<close> and \<open>Uint32Value\<close> are the conversions ToInt32 and ToUint32 of the
  language: the low 32 bits of the truncated number, zero for a number that is not finite.
  \<open>Int64Value\<close> is the truncated number where it fits 64 bits.
\<close>

definition Int32Value :: "js_number \<Rightarrow> int32" where
  "Int32Value n = (case n of Finite q \<Rightarrow> word_of_int (trunc q) | _ \<Rightarrow> 0)"

definition Uint32Value :: "js_number \<Rightarrow> uint32" where
  "Uint32Value n = (case n of Finite q \<Rightarrow> word_of_int (trunc q) | _ \<Rightarrow> 0)"

definition fits64 :: "rat \<Rightarrow> bool" where
  "fits64 q \<longleftrightarrow> - (2 ^ 63) \<le> trunc q \<and> trunc q < 2 ^ 63"

definition Int64Value :: "napi \<Rightarrow> js_number \<Rightarrow> int64" where
  "Int64Value N n = (case n of
       Finite q \<Rightarrow> (if fits64 q then word_of_int (trunc q) else int64OutOfRange N q)
     | _ \<Rightarrow> 0)"

lemma trunc_of_int [simp]: "trunc (of_int i) = i"
  by (simp add: trunc_def)

lemma trunc_numeral [simp]: "trunc (numeral k) = numeral k" "trunc (- numeral k) = - numeral k"
  using trunc_of_int [of "numeral k"] trunc_of_int [of "- numeral k"] by simp_all

lemma trunc_0_1 [simp]: "trunc 0 = 0" "trunc 1 = 1" "trunc (- 1) = - 1"
  using trunc_of_int [of 0] trunc_of_int [of 1] trunc_of_int [of "- 1"] by simp_all

lemma sint_word_of_int_64:
  assumes "- (2 ^ 63) \<le> i" and "i < 2 ^ 63"
  shows "sint (word_of_int i :: int64) = i"
  using assms by (simp add: sint_sbintrunc' signed_take_bit_int_eq_self)

lemma sint_word_of_int_32:
  assumes "- (2 ^ 31) \<le> i" and "i < 2 ^ 31"
  shows "sint (word_of_int i :: int32) = i"
  using assms by (simp add: sint_sbintrunc' signed_take_bit_int_eq_self)

lemma sint_Int64Value: "fits64 q \<Longrightarrow> sint (Int64Value N (Finite q)) = trunc q"
  by (simp add: Int64Value_def fits64_def sint_word_of_int_64)

subsection \<open>Numbers made from C integers\<close>

text \<open>
  \<open>Napi::Number::New(env, i)\<close> converts an integer to a double: beyond 53 bits it is rounded
  to the nearest double, ties to even.
\<close>

fun bit_length :: "nat \<Rightarrow> nat" where
  "bit_length n = (if n = 0 then 0 else Suc (bit_length (n div 2)))"

declare bit_length.simps [simp del]

definition round_bits :: "nat \<Rightarrow> nat \<Rightarrow> nat" where
  "round_bits e n =
     (let q = n div 2 ^ e; r = n mod 2 ^ e in
      (if 2 * r > 2 ^ e \<or> (2 * r = 2 ^ e \<and> odd q) then Suc q else q) * 2 ^ e)"

definition double_of_nat :: "nat \<Rightarrow> nat" where
  "double_of_nat n = round_bits (bit_length n - 53) n"

definition Number_New :: "int \<Rightarrow> js_value" where
  "Number_New i = JNumber (Finite (of_int
     (if i < 0 then - int (double_of_nat (nat (- i))) else int (double_of_nat (nat i)))))"

lemma bit_length_le: "n < 2 ^ k \<Longrightarrow> bit_length n \<le> k"
proof (induction k arbitrary: n)
  case 0
  then show ?case by (simp add: bit_length.simps)
next
  case (Suc k)
  then have "n div 2 < 2 ^ k" by (simp add: less_mult_imp_div_less mult.commute)
  with Suc.IH show ?case by (simp add: bit_length.simps [of n])
qed

lemma double_of_nat_exact:
  assumes "n \<le> 2 ^ 53"
  shows "double_of_nat n = n"
proof (cases "n = 2 ^ 53")
  case True
  have "bit_length (2 ^ 53) - 53 \<le> 1"
    using bit_length_le [of "2 ^ 53" 54] by simp
  then have "bit_length (2 ^ 53) - 53 = 0 \<or> bit_length (2 ^ 53) - 53 = 1" by linarith
  with True show ?thesis by (auto simp: double_of_nat_def round_bits_def)
next
  case False
  with assms have "bit_length n - 53 = 0" using bit_length_le [of n 53] by simp
  then show ?thesis by (simp add: double_of_nat_def round_bits_def)
qed

lemma Number_New_exact: "\<bar>i\<bar> \<le> 2 ^ 53 \<Longrightarrow> Number_New i = JNumber (Finite (of_int i))"
  by (auto simp: Number_New_def double_of_nat_exact nat_le_iff)

subsection \<open>Reading an optional field\<close>

text \<open>
  The idiom of every configuration reader: \<open>cfg.Has(K) && cfg.Get(K).IsString()\<close> guards
  a block that reads \<open>cfg.Get(K)\<close>; a missing field and one of another type are both
  ignored.
\<close>

definition get_string :: "js_value \<Rightarrow> string \<Rightarrow> string option" where
  "get_string c k = (if Has c k \<and> IsString (Get c k)
     then (case Get c k of JString s \<Rightarrow> Some s | _ \<Rightarrow> None) else None)"

definition get_number :: "js_value \<Rightarrow> string \<Rightarrow> js_number option" where
  "get_number c k = (if Has c k \<and> IsNumber (Get c k)
     then (case Get c k of JNumber n \<Rightarrow> Some n | _ \<Rightarrow> None) else None)"

definition get_boolean :: "js_value \<Rightarrow> string \<Rightarrow> bool option" where
  "get_boolean c k = (if Has c k \<and> IsBoolean (Get c k)
     then (case Get c k of JBoolean b \<Rightarrow> Some b | _ \<Rightarrow> None) else None)"

definition get_buffer :: "js_value \<Rightarrow> string \<Rightarrow> bytes option" where
  "get_buffer c k = (if Has c k \<and> IsBuffer (Get c k)
     then (case Get c k of JBuffer b \<Rightarrow> Some b | _ \<Rightarrow> None) else None)"

definition get_function :: "js_value \<Rightarrow> string \<Rightarrow> nat option" where
  "get_function c k = (if Has c k \<and> IsFunction (Get c k)
     then (case Get c k of JFunction f \<Rightarrow> Some f | _ \<Rightarrow> None) else None)"

definition get_array :: "js_value \<Rightarrow> string \<Rightarrow> js_value list option" where
  "get_array c k = (if Has c k \<and> IsArray (Get c k) then Some (elements (Get c k)) else None)"

definition get_object :: "js_value \<Rightarrow> string \<Rightarrow> js_value option" where
  "get_object c k = (if Has c k \<and> IsObject (Get c k) then Some (Get c k) else None)"

lemmas getter_defs = get_string_def get_number_def get_boolean_def get_buffer_def
  get_function_def get_array_def get_object_def

lemmas is_defs = IsUndefined_def IsNull_def IsBoolean_def IsNumber_def IsString_def IsArray_def IsBuffer_def
  IsFunction_def IsObject_def

text \<open>Each getter is a single lookup followed by a test of the value's type.\<close>

lemma get_string_lookup:
  "get_string c k = (case map_of (props c) k of Some (JString s) \<Rightarrow> Some s | _ \<Rightarrow> None)"
  by (auto simp: get_string_def Has_def Get_def IsString_def split: option.splits js_value.splits)

lemma get_number_lookup:
  "get_number c k = (case map_of (props c) k of Some (JNumber s) \<Rightarrow> Some s | _ \<Rightarrow> None)"
  by (auto simp: get_number_def Has_def Get_def IsNumber_def split: option.splits js_value.splits)

lemma get_boolean_lookup:
  "get_boolean c k = (case map_of (props c) k of Some (JBoolean s) \<Rightarrow> Some s | _ \<Rightarrow> None)"
  by (auto simp: get_boolean_def Has_def Get_def IsBoolean_def split: option.splits js_value.splits)

text \<open>
  Two configuration objects agree on a list of keys. Everything the readers look up goes
  through \<open>Has\<close> and \<open>Get\<close>, so what they compute is a function of the agreed keys.
\<close>

definition agree_on :: "string list \<Rightarrow> js_value \<Rightarrow> js_value \<Rightarrow> bool" where
  "agree_on ks c c' \<longleftrightarrow> (\<forall>k \<in> set ks. map_of (props c) k = map_of (props c') k)"

lemma agree_on_access:
  assumes "agree_on ks c c'" and "k \<in> set ks"
  shows "Has c k = Has c' k" "Get c k = Get c' k"
  using assms by (simp_all add: agree_on_def Has_def Get_def)

lemma agree_on_getters:
  assumes "agree_on ks c c'" and "k \<in> set ks"
  shows "get_string c k = get_string c' k" "get_number c k = get_number c' k"
    "get_boolean c k = get_boolean c' k" "get_buffer c k = get_buffer c' k"
    "get_function c k = get_function c' k" "get_array c k = get_array c' k"
    "get_object c k = get_object c' k"
  by (simp_all add: getter_defs agree_on_access [OF assms])

text \<open>
  The loops over \<open>GetPropertyNames()\<close>: key and value converted to strings, in
  enumeration order.
\<close>

definition string_properties :: "napi \<Rightarrow> js_value \<Rightarrow> (string \<times> string) list" where
  "string_properties N v = map (\<lambda>k. (k, ToString N (Get v k))) (GetPropertyNames v)"

lemma string_properties_strings:
  assumes "distinct (map fst es)"
  shows "string_properties N (JObject (map (\<lambda>(k, s). (k, JString s)) es)) = es"
proof -
  let ?ps = "map (\<lambda>(k, s). (k, JString s)) es"
  have d: "distinct (map fst ?ps)" using assms by (simp add: comp_def split_beta)
  have "ToString N (Get (JObject ?ps) k) = s" if "(k, s) \<in> set es" for k s
  proof -
    from that have "(k, JString s) \<in> set ?ps" by force
    with d have "map_of ?ps k = Some (JString s)" by (simp add: map_of_eq_Some_iff)
    then show ?thesis by (simp add: Get_def ToString_def)
  qed
  then show ?thesis
    by (auto simp: string_properties_def GetPropertyNames_def comp_def split_beta intro!: map_idI)
qed

subsection \<open>Unwrapping native objects\<close>

text \<open>
  \<open>ObjectWrap<T>::Unwrap(obj)\<close>: on an object that wraps nothing the N-API reports an error,
  which node-addon-api raises as a JavaScript exception; on an object that wraps an instance of
  another class the pointer is reinterpreted.
\<close>

definition unwrap_as :: "(native \<Rightarrow> 'a option) \<Rightarrow> napi \<Rightarrow> js_value \<Rightarrow> exn + 'a" where
  "unwrap_as sel N v = (case v of
       JNative n _ \<Rightarrow> (case sel n of
           None \<Rightarrow> Inl (UndefinedBehaviour ''native object of another class'')
         | Some a \<Rightarrow> Inr a)
     | _ \<Rightarrow> Inl (JsError (unwrapError N)))"

definition MessageId_Unwrap :: "napi \<Rightarrow> js_value \<Rightarrow> exn + ptr option" where
  "MessageId_Unwrap = unwrap_as (\<lambda>n. case n of N_MessageId p \<Rightarrow> Some p | _ \<Rightarrow> None)"

definition Message_Unwrap :: "napi \<Rightarrow> js_value \<Rightarrow> exn + ptr option" where
  "Message_Unwrap = unwrap_as (\<lambda>n. case n of N_Message p \<Rightarrow> Some p | _ \<Rightarrow> None)"

definition Authentication_Unwrap :: "napi \<Rightarrow> js_value \<Rightarrow> exn + ptr option" where
  "Authentication_Unwrap = unwrap_as (\<lambda>n. case n of N_Authentication p \<Rightarrow> Some p | _ \<Rightarrow> None)"

definition CryptoKeyReader_Unwrap :: "napi \<Rightarrow> js_value \<Rightarrow> exn + js_value" where
  "CryptoKeyReader_Unwrap N v =
     map_sum id (\<lambda>_. v) (unwrap_as (\<lambda>n. case n of N_CryptoKeyReader \<Rightarrow> Some () | _ \<Rightarrow> None) N v)"

text \<open>A reference environment, used where a statement is evaluated on concrete input.\<close>

definition napi_ref :: napi where
  "napi_ref = \<lparr>coerceString = (\<lambda>v. ''[object Object]''), coerceNumber = (\<lambda>v. NaN),
     int64OutOfRange = (\<lambda>q. if 0 \<le> q then 0x7FFFFFFFFFFFFFFF else 0x8000000000000000),
     unwrapError = ''Invalid argument'', stringExpected = ''A string was expected''\<rparr>"

end
