(* ===== verification/Pulsar_C.thy ===== *)
theory Pulsar_C
  imports Js_Value
begin

section \<open>Enumerations and structures of the C client\<close>

text \<open>
  The constants of the C client the configuration code names, with the tables of the sources
  that give them their JavaScript spelling. What the C client does with them is outside the
  binding: the configurations are logs of the setter calls made on it.
\<close>

datatype pulsar_consumer_type =
  ConsumerExclusive | ConsumerShared | ConsumerKeyShared | ConsumerFailover

datatype regex_sub_mode = PersistentOnly | NonPersistentOnly | AllTopics

datatype initial_position = position_latest | position_earliest

datatype consumer_crypto_failure_action = ConsumerFail | ConsumerDiscard | ConsumerConsume

datatype key_shared_mode = AUTO_SPLIT | STICKY

datatype compression_type =
  CompressionNone | CompressionZLib | CompressionLZ4 | CompressionZSTD | CompressionSNAPPY

definition SUBSCRIPTION_TYPE :: "(string \<times> pulsar_consumer_type) list" where
  "SUBSCRIPTION_TYPE = [(''Exclusive'', ConsumerExclusive), (''Shared'', ConsumerShared),
     (''KeyShared'', ConsumerKeyShared), (''Failover'', ConsumerFailover)]"

definition REGEX_SUBSCRIPTION_MODE :: "(string \<times> regex_sub_mode) list" where
  "REGEX_SUBSCRIPTION_MODE = [(''PersistentOnly'', PersistentOnly),
     (''NonPersistentOnly'', NonPersistentOnly), (''AllTopics'', AllTopics)]"

definition INIT_POSITION :: "(string \<times> initial_position) list" where
  "INIT_POSITION = [(''Latest'', position_latest), (''Earliest'', position_earliest)]"

definition CONSUMER_CRYPTO_FAILURE_ACTION :: "(string \<times> consumer_crypto_failure_action) list" where
  "CONSUMER_CRYPTO_FAILURE_ACTION =
     [(''FAIL'', ConsumerFail), (''DISCARD'', ConsumerDiscard), (''CONSUME'', ConsumerConsume)]"

definition CONSUMER_KEY_SHARED_POLICY_MODE :: "(string \<times> key_shared_mode) list" where
  "CONSUMER_KEY_SHARED_POLICY_MODE = [(''AutoSplit'', AUTO_SPLIT), (''Sticky'', STICKY)]"

text \<open>
  \<open>if (TABLE.count(x)) set(TABLE.at(x))\<close>: the calls an optional enumeration option makes.
\<close>

definition enum_calls :: "(string \<times> 'e) list \<Rightarrow> ('e \<Rightarrow> 'call) \<Rightarrow> string option \<Rightarrow> 'call list" where
  "enum_calls table setter x = (case x of
       None \<Rightarrow> []
     | Some s \<Rightarrow> (case map_of table s of None \<Rightarrow> [] | Some e \<Rightarrow> [setter e]))"

lemma set_enum_calls: "y \<in> set (enum_calls table f x) \<Longrightarrow> \<exists>e. y = f e"
  by (auto simp: enum_calls_def split: option.splits)

end
