(* ===== verification/Deferred.thy ===== *)
theory Deferred
  imports Js_Value
begin

section \<open>ThreadSafeDeferred\<close>

text \<open>
  \<open>src/ThreadSafeDeferred.h\<close> and \<open>src/ThreadSafeDeferred.cc\<close>: the promise every
  asynchronous operation hands to JavaScript. A thread of the C++ client decides its fate
  (\<open>Resolve\<close>, \<open>Reject\<close>) and releases the thread-safe function; when the count of
  threads using that function reaches zero Node runs its finalizer on the JavaScript thread,
  which settles the promise and drops the object's reference to itself.
  The lemmas show that the promise settles once, with what the first call decided, and
  relate the object to a write-once cell.
\<close>

datatype efate = UNRESOLVED | RESOLVED | REJECTED

text \<open>The JavaScript promise; a rejection carries an \<open>Error\<close> with a message.\<close>

datatype promise = Pending | Fulfilled js_value | Rejected string

text \<open>
  \<open>tsf\<close> is the number of threads that hold the thread-safe function. The closure
  \<open>createValueCb\<close> is a value of a type \<open>'cb\<close>; what running it on the JavaScript
  thread gives is the parameter \<open>run\<close> of the finalizer.
\<close>

record 'cb deferred =
  fate :: efate
  createValueCb :: "'cb option"
  errorMsg :: string
  tsf :: nat
  self :: bool
  promise :: promise

definition ThreadSafeDeferred :: "'cb deferred" where
  "ThreadSafeDeferred = \<lparr>fate = UNRESOLVED, createValueCb = None, errorMsg = '''', tsf = 1,
     self = False, promise = Pending\<rparr>"

definition New :: "'cb deferred" where
  "New = ThreadSafeDeferred\<lparr>self := True\<rparr>"

definition Release :: "'cb deferred \<Rightarrow> 'cb deferred" where
  "Release d = d\<lparr>tsf := tsf d - 1\<rparr>"

definition Resolve0 :: "'cb deferred \<Rightarrow> exn + 'cb deferred" where
  "Resolve0 d =
     (if fate d \<noteq> UNRESOLVED
      then Inl (CppThrow ''Cannot resolve a promise which is not unresolved anymore.'')
      else Inr (Release (d\<lparr>fate := RESOLVED\<rparr>)))"

definition Resolve :: "'cb \<Rightarrow> 'cb deferred \<Rightarrow> exn + 'cb deferred" where
  "Resolve cb d =
     (if fate d \<noteq> UNRESOLVED
      then Inl (CppThrow ''Cannot resolve a promise which is not unresolved anymore.'')
      else Inr (Release (d\<lparr>createValueCb := Some cb, fate := RESOLVED\<rparr>)))"

definition Reject :: "string \<Rightarrow> 'cb deferred \<Rightarrow> exn + 'cb deferred" where
  "Reject msg d =
     (if fate d \<noteq> UNRESOLVED
      then Inl (CppThrow ''Cannot reject a promise which is not unresolved anymore.'')
      else Inr (Release (d\<lparr>errorMsg := msg, fate := REJECTED\<rparr>)))"

definition Reject0 :: "'cb deferred \<Rightarrow> exn + 'cb deferred" where
  "Reject0 = Reject ''''"

definition IsDone :: "'cb deferred \<Rightarrow> bool" where
  "IsDone d \<longleftrightarrow> fate d = RESOLVED \<or> fate d = REJECTED"

definition finalizer :: "('cb \<Rightarrow> js_value) \<Rightarrow> 'cb deferred \<Rightarrow> 'cb deferred" where
  "finalizer run d =
     (let settled =
        (if fate d = RESOLVED
         then (case createValueCb d of
             None \<Rightarrow> Fulfilled JUndefined
           | Some cb \<Rightarrow> Fulfilled (run cb))
         else Rejected (errorMsg d))
      in d\<lparr>promise := settled, self := False\<rparr>)"

lemmas deferred_defs = Resolve0_def Resolve_def Reject_def Release_def finalizer_def IsDone_def
  New_def ThreadSafeDeferred_def

subsection \<open>The object as a state machine\<close>

text \<open>
  The events: the three ways to decide the fate, tried at any time (a call that throws leaves
  the object as it was), and the finalizer, which Node runs once, after the last thread has
  released the function.
\<close>

datatype 'cb event = EResolve0 | EResolve 'cb | EReject string | EFinalize

definition attempt :: "'cb deferred \<Rightarrow> exn + 'cb deferred \<Rightarrow> 'cb deferred" where
  "attempt d r = (case r of Inl e \<Rightarrow> d | Inr d' \<Rightarrow> d')"

inductive deferred_step :: "('cb \<Rightarrow> js_value) \<Rightarrow> 'cb deferred \<Rightarrow> 'cb event \<Rightarrow> 'cb deferred \<Rightarrow> bool"
  for run where
  resolve0: "deferred_step run d EResolve0 (attempt d (Resolve0 d))"
| resolve: "deferred_step run d (EResolve cb) (attempt d (Resolve cb d))"
| reject: "deferred_step run d (EReject msg) (attempt d (Reject msg d))"
| finalize: "tsf d = 0 \<Longrightarrow> self d \<Longrightarrow> deferred_step run d EFinalize (finalizer run d)"

inductive_cases finalizeE: "deferred_step run d EFinalize d'"
inductive_simps deferred_step_resolve0 [simp]: "deferred_step run d EResolve0 d'"
inductive_simps deferred_step_resolve [simp]: "deferred_step run d (EResolve cb) d'"
inductive_simps deferred_step_reject [simp]: "deferred_step run d (EReject msg) d'"
inductive_simps deferred_step_finalize [simp]: "deferred_step run d EFinalize d'"

inductive deferred_trace :: "('cb \<Rightarrow> js_value) \<Rightarrow> 'cb event list \<Rightarrow> 'cb deferred \<Rightarrow> bool"
  for run where
  start: "deferred_trace run [] New"
| step: "deferred_trace run es d \<Longrightarrow> deferred_step run d e d' \<Longrightarrow> deferred_trace run (es @ [e]) d'"

definition deferred_inv :: "'cb deferred \<Rightarrow> bool" where
  "deferred_inv d \<longleftrightarrow>
     tsf d = (if fate d = UNRESOLVED then 1 else 0) \<and>
     (self d \<longleftrightarrow> promise d = Pending) \<and>
     (fate d = UNRESOLVED \<longrightarrow> self d \<and> createValueCb d = None)"

lemma deferred_inv_New [simp]: "deferred_inv New"
  by (simp add: deferred_inv_def deferred_defs)

lemma deferred_step_inv: "deferred_step run d e d' \<Longrightarrow> deferred_inv d \<Longrightarrow> deferred_inv d'"
  by (induction rule: deferred_step.induct)
    (auto simp: deferred_inv_def deferred_defs attempt_def Let_def split: option.split)

lemma deferred_trace_inv: "deferred_trace run es d \<Longrightarrow> deferred_inv d"
  by (induction rule: deferred_trace.induct) (auto intro: deferred_step_inv)

subsection \<open>Refinement: a write-once cell\<close>

text \<open>
  The specification: a cell that keeps the first value put into it. \<open>decided\<close> is the cell
  a deferred stands for, \<open>decide\<close> what an event puts.
\<close>

definition put_once :: "'a option \<Rightarrow> 'a option \<Rightarrow> 'a option" where
  "put_once c v = (case c of None \<Rightarrow> v | Some w \<Rightarrow> Some w)"

definition decided :: "('cb \<Rightarrow> js_value) \<Rightarrow> 'cb deferred \<Rightarrow> promise option" where
  "decided run d = (case fate d of
       UNRESOLVED \<Rightarrow> None
     | RESOLVED \<Rightarrow> Some (Fulfilled (case createValueCb d of None \<Rightarrow> JUndefined | Some cb \<Rightarrow> run cb))
     | REJECTED \<Rightarrow> Some (Rejected (errorMsg d)))"

primrec decide :: "('cb \<Rightarrow> js_value) \<Rightarrow> 'cb event \<Rightarrow> promise option" where
  "decide run EResolve0 = Some (Fulfilled JUndefined)"
| "decide run (EResolve cb) = Some (Fulfilled (run cb))"
| "decide run (EReject msg) = Some (Rejected msg)"
| "decide run EFinalize = None"

definition first_decision :: "('cb \<Rightarrow> js_value) \<Rightarrow> 'cb event list \<Rightarrow> promise option" where
  "first_decision run es = foldl put_once None (map (decide run) es)"

lemma first_decision_snoc:
  "first_decision run (es @ [e]) = put_once (first_decision run es) (decide run e)"
  by (simp add: first_decision_def)

lemma decided_step:
  assumes "deferred_step run d e d'" and "deferred_inv d"
  shows "decided run d' = put_once (decided run d) (decide run e)"
  using assms
  by (induction rule: deferred_step.induct)
    (auto simp: deferred_inv_def decided_def put_once_def deferred_defs attempt_def Let_def
      split: efate.splits option.splits)

lemma promise_step:
  assumes "deferred_step run d e d'" and "deferred_inv d"
  shows "promise d' = (if e = EFinalize then the (decided run d) else promise d)"
  using assms
  by (induction rule: deferred_step.induct)
    (auto simp: deferred_inv_def decided_def deferred_defs attempt_def Let_def
      split: efate.splits option.splits)

lemma deferred_trace_decided: "deferred_trace run es d \<Longrightarrow> decided run d = first_decision run es"
proof (induction rule: deferred_trace.induct)
  case start
  then show ?case by (simp add: decided_def first_decision_def deferred_defs)
next
  case (step es d e d')
  then show ?case
    by (simp add: first_decision_snoc decided_step [OF step.hyps(2)] deferred_trace_inv)
qed

lemma deferred_settled_decided:
  assumes "deferred_trace run es d"
  shows "promise d \<noteq> Pending \<longrightarrow> decided run d = Some (promise d)"
  using assms
proof (induction rule: deferred_trace.induct)
  case start
  then show ?case by (simp add: deferred_defs)
next
  case (step es d e d')
  have inv: "deferred_inv d" using step.hyps(1) by (rule deferred_trace_inv)
  show ?case
  proof (cases "e = EFinalize")
    case True
    with step.hyps(2) have "tsf d = 0" by simp
    with inv have "decided run d \<noteq> None"
      by (auto simp: deferred_inv_def decided_def split: efate.splits)
    with True show ?thesis
      by (auto simp: promise_step [OF step.hyps(2) inv] decided_step [OF step.hyps(2) inv] put_once_def)
  next
    case False
    with step.IH show ?thesis
      by (auto simp: promise_step [OF step.hyps(2) inv] decided_step [OF step.hyps(2) inv] put_once_def)
  qed
qed

lemma promise_settles_stable:
  assumes "deferred_step run d e d'" and "deferred_inv d" and "promise d \<noteq> Pending"
  shows "promise d' = promise d"
proof -
  have "e \<noteq> EFinalize" using assms by (auto simp: deferred_inv_def)
  then show ?thesis by (simp add: promise_step [OF assms(1,2)])
qed

text \<open>What a completed call leaves behind, as the callers use it.\<close>

lemma Resolve_completes:
  assumes "fate d = UNRESOLVED" and "deferred_inv d"
  shows "\<exists>d'. Resolve cb d = Inr d' \<and> IsDone d' \<and> deferred_inv d'"
  using assms by (simp add: deferred_inv_def deferred_defs)

lemma Reject_completes:
  assumes "fate d = UNRESOLVED" and "deferred_inv d"
  shows "\<exists>d'. Reject msg d = Inr d' \<and> IsDone d' \<and> deferred_inv d'"
  using assms by (simp add: deferred_inv_def deferred_defs)

lemma IsDone_finalizer [simp]: "IsDone (finalizer run d) = IsDone d"
  by (simp add: IsDone_def finalizer_def Let_def)

lemma Reject_fresh [simp]:
  "Reject msg New = Inr (New\<lparr>errorMsg := msg, fate := REJECTED, tsf := 0\<rparr>)"
  by (simp add: deferred_defs)

lemma IsDone_New [simp]: "\<not> IsDone New"
  by (simp add: deferred_defs)

lemma fate_New [simp]: "fate New = UNRESOLVED"
  by (simp add: deferred_defs)

subsection \<open>Properties\<close>

text \<open>
  C2. Whatever calls reach a deferred in whatever order (including calls that throw), the
  promise it hands to JavaScript is pending or settled with exactly what the first
  \<open>Resolve\<close> or \<open>Reject\<close> decided, and it is settled only once such a call was made.
\<close>

theorem promise_settles_with_first_decision:
  assumes "deferred_trace run es d"
  shows "promise d = Pending \<or> first_decision run es = Some (promise d)"
  using deferred_settled_decided [OF assms] deferred_trace_decided [OF assms] by auto

theorem promise_settles_with_first_decision_witness:
  "\<exists>d. deferred_trace (\<lambda>b. JBoolean b) [EReject ''a'', EResolve True, EFinalize] d \<and>
       promise d = Rejected ''a'' \<and>
       first_decision (\<lambda>b. JBoolean b) [EReject ''a'', EResolve True, EFinalize] = Some (Rejected ''a'')"
proof -
  let ?run = "\<lambda>b. JBoolean b"
  let ?d1 = "attempt New (Reject ''a'' New)"
  let ?d2 = "attempt ?d1 (Resolve True ?d1)"
  have "deferred_trace ?run ([] @ [EReject ''a'']) ?d1"
    by (rule deferred_trace.step [OF deferred_trace.start deferred_step.reject])
  then have "deferred_trace ?run (([] @ [EReject ''a'']) @ [EResolve True]) ?d2"
    by (rule deferred_trace.step) (rule deferred_step.resolve)
  then have t: "deferred_trace ?run ((([] @ [EReject ''a'']) @ [EResolve True]) @ [EFinalize]) (finalizer ?run ?d2)"
    by (rule deferred_trace.step) (rule deferred_step.finalize; simp add: deferred_defs attempt_def)
  have "promise (finalizer ?run ?d2) = Rejected ''a''"
    by (simp add: deferred_defs attempt_def)
  with t promise_settles_with_first_decision [OF t] show ?thesis by auto
qed

text \<open>
  Once a fate is decided the finalizer is enabled exactly until it has run, running it
  settles the promise with the decision and drops the self reference, and no later event
  changes the promise again.
\<close>

theorem decided_promise_settles:
  assumes "deferred_trace run es d" and "IsDone d"
  shows "(promise d = Pending \<longleftrightarrow> (\<exists>d'. deferred_step run d EFinalize d')) \<and>
    (\<forall>d'. deferred_step run d EFinalize d' \<longrightarrow>
       first_decision run es = Some (promise d') \<and> \<not> self d') \<and>
    (promise d \<noteq> Pending \<longrightarrow> (\<forall>e d'. deferred_step run d e d' \<longrightarrow> promise d' = promise d))"
proof (intro conjI)
  have inv: "deferred_inv d" using assms(1) by (rule deferred_trace_inv)
  have dec: "decided run d = first_decision run es" using assms(1) by (rule deferred_trace_decided)
  show "promise d = Pending \<longleftrightarrow> (\<exists>d'. deferred_step run d EFinalize d')"
    using inv assms(2) by (auto simp: deferred_inv_def IsDone_def)
  show "\<forall>d'. deferred_step run d EFinalize d' \<longrightarrow> first_decision run es = Some (promise d') \<and> \<not> self d'"
    using assms(2) dec by (auto simp: finalizer_def decided_def IsDone_def Let_def split: option.splits)
  show "promise d \<noteq> Pending \<longrightarrow> (\<forall>e d'. deferred_step run d e d' \<longrightarrow> promise d' = promise d)"
    using inv by (auto intro: promise_settles_stable)
qed

theorem decided_promise_settles_witness:
  "\<exists>d. deferred_trace (\<lambda>b. JBoolean b) [EResolve True] d \<and> IsDone d \<and>
       (\<exists>d'. deferred_step (\<lambda>b. JBoolean b) d EFinalize d' \<and> promise d' = Fulfilled (JBoolean True))"
proof -
  let ?run = "\<lambda>b. JBoolean b"
  let ?d = "attempt New (Resolve True New)"
  have t: "deferred_trace ?run ([] @ [EResolve True]) ?d"
    by (rule deferred_trace.step [OF deferred_trace.start deferred_step.resolve])
  have fin: "IsDone ?d" and pend: "promise ?d = Pending" by (simp_all add: deferred_defs attempt_def)
  from decided_promise_settles [OF t fin] pend obtain d'
    where d': "deferred_step ?run ?d EFinalize d'"
      and "first_decision ?run ([] @ [EResolve True]) = Some (promise d')" by blast
  then have "promise d' = Fulfilled (JBoolean True)"
    by (simp add: first_decision_def put_once_def)
  with t fin d' show ?thesis by auto
qed

text \<open>
  Deciding twice is an error: on an object whose fate is decided every further
  \<open>Resolve\<close> or \<open>Reject\<close> throws, and on a fresh one each succeeds, which is exactly
  what \<open>IsDone\<close> tells.
\<close>

theorem decide_throws_iff_done:
  "((\<exists>e. Resolve cb d = Inl e) \<longleftrightarrow> IsDone d) \<and> ((\<exists>e. Resolve0 d = Inl e) \<longleftrightarrow> IsDone d) \<and>
   ((\<exists>e. Reject msg d = Inl e) \<longleftrightarrow> IsDone d) \<and>
   (\<forall>d'. Resolve cb d = Inr d' \<or> Resolve0 d = Inr d' \<or> Reject msg d = Inr d' \<longrightarrow> IsDone d')"
  by (cases "fate d") (auto simp: deferred_defs)

theorem decide_throws_iff_done_witness:
  "IsDone (attempt New (Resolve True New)) \<and>
   (\<exists>e. Reject ''x'' (attempt New (Resolve True New)) = Inl e) \<and>
   (\<exists>d'. Resolve True New = Inr d' \<and> IsDone d')"
proof -
  let ?d = "attempt New (Resolve True New)"
  obtain d' where r: "Resolve True New = Inr d'" by (simp add: deferred_defs)
  have "IsDone d'" using decide_throws_iff_done [of True New "''x''"] r by blast
  moreover from r have "?d = d'" by (simp add: attempt_def)
  moreover from calculation have "\<exists>e. Reject ''x'' d' = Inl e"
    using decide_throws_iff_done [of True d' "''x''"] by blast
  ultimately show ?thesis using r by auto
qed

end
