(* ===== verification/Schema.thy ===== *)
theory Schema
  imports Deferred
begin

section \<open>SchemaInfo\<close>

text \<open>
  \<open>src/SchemaInfo.h\<close>, \<open>src/SchemaInfo.cc\<close>: the schema of a producer or consumer
  configuration read from a JavaScript object, and the JavaScript object made from a schema the
  broker returned. The table of type names is the \<open>std::map\<close> of the source; the numbers are
  those cast to \<open>pulsar::SchemaType\<close> there. The lemmas show that names and numbers
  correspond one to one and that reading back the object made from a schema gives the schema.
\<close>

definition SCHEMA_TYPE :: "(string, int) smap" where
  "SCHEMA_TYPE = smap_of
     [(''None'', 0), (''String'', 1), (''Json'', 2), (''Protobuf'', 3), (''Avro'', 4),
      (''Boolean'', 5), (''Int8'', 6), (''Int16'', 7), (''Int32'', 8), (''Int64'', 9),
      (''Float32'', 10), (''Float64'', 11), (''KeyValue'', 15), (''ProtobufNative'', 20),
      (''Bytes'', -1), (''AutoConsume'', -3), (''AutoPublish'', -4)]"

record schema_info =
  schemaType :: int
  schema_name :: string
  schema_data :: bytes
  schema_properties :: "(string, string) smap"

text \<open>
  The constructor. An unknown type name leaves a \<open>TypeError\<close> pending and returns with the
  members as initialised; the second component is that pending exception.
\<close>

definition default_schema :: schema_info where
  "default_schema = \<lparr>schemaType = -1, schema_name = ''BYTES'', schema_data = [], schema_properties = []\<rparr>"

definition read_schema_type :: "js_value \<Rightarrow> schema_info \<Rightarrow> schema_info flow" where
  "read_schema_type v s = (case get_string v ''schemaType'' of
       None \<Rightarrow> Continue s
     | Some typeStr \<Rightarrow>
         (case map_of SCHEMA_TYPE typeStr of
            None \<Rightarrow> Throw (JsTypeError (''Unknown schemaType: '' @ typeStr)) s
          | Some t \<Rightarrow> Continue (s\<lparr>schema_name := typeStr, schemaType := t\<rparr>)))"

definition read_schema_name :: "js_value \<Rightarrow> schema_info \<Rightarrow> schema_info flow" where
  "read_schema_name v s = Continue (case get_string v ''name'' of
       None \<Rightarrow> s | Some n \<Rightarrow> s\<lparr>schema_name := n\<rparr>)"

definition read_schema_data :: "js_value \<Rightarrow> schema_info \<Rightarrow> schema_info flow" where
  "read_schema_data v s = Continue (case get_string v ''schema'' of
       Some x \<Rightarrow> s\<lparr>schema_data := x\<rparr>
     | None \<Rightarrow> (case get_buffer v ''schema'' of None \<Rightarrow> s | Some b \<Rightarrow> s\<lparr>schema_data := b\<rparr>))"

definition read_schema_properties :: "napi \<Rightarrow> js_value \<Rightarrow> schema_info \<Rightarrow> schema_info flow" where
  "read_schema_properties N v s = Continue (case get_object v ''properties'' of
       None \<Rightarrow> s
     | Some o' \<Rightarrow> s\<lparr>schema_properties :=
         fold (\<lambda>(k, x). smap_put k x) (string_properties N o') (schema_properties s)\<rparr>)"

definition SchemaInfo :: "napi \<Rightarrow> js_value \<Rightarrow> schema_info \<times> exn option" where
  "SchemaInfo N v =
     (case run_steps [read_schema_type v, read_schema_name v, read_schema_data v, read_schema_properties N v]
        default_schema of
        Throw e s \<Rightarrow> (s, Some e)
      | Return s \<Rightarrow> (s, None)
      | Continue s \<Rightarrow> (s, None))"

definition GetSchemaTypeName :: "int \<Rightarrow> string option" where
  "GetSchemaTypeName t = map_option fst (find (\<lambda>entry. snd entry = t) SCHEMA_TYPE)"

definition NewObject :: "string \<Rightarrow> schema_info \<Rightarrow> js_value" where
  "NewObject schemaTypeName s = JObject
     [(''schemaType'', JString schemaTypeName),
      (''name'', JString (schema_name s)),
      (''schema'', JBuffer (schema_data s)),
      (''properties'', JObject (map (\<lambda>(k, v). (k, JString v)) (schema_properties s)))]"

definition schema_keys :: "string list" where
  "schema_keys = [''schemaType'', ''name'', ''schema'', ''properties'']"

lemmas schema_defs = SchemaInfo_def read_schema_type_def read_schema_name_def read_schema_data_def
  read_schema_properties_def

subsection \<open>Lemmas\<close>

lemma SCHEMA_TYPE_distinct: "distinct (map snd SCHEMA_TYPE)"
  by code_simp

lemma SCHEMA_TYPE_wf: "smap_wf SCHEMA_TYPE"
  by (simp add: SCHEMA_TYPE_def)

lemma map_of_SCHEMA_TYPE: "map_of SCHEMA_TYPE n = Some t \<longleftrightarrow> (n, t) \<in> set SCHEMA_TYPE"
  using smap_wf_distinct [OF SCHEMA_TYPE_wf] by (simp add: map_of_eq_Some_iff)

lemma GetSchemaTypeName_iff: "GetSchemaTypeName t = Some n \<longleftrightarrow> map_of SCHEMA_TYPE n = Some t"
  by (simp only: GetSchemaTypeName_def find_distinct_snd [OF SCHEMA_TYPE_distinct] map_of_SCHEMA_TYPE)

lemma SchemaInfo_wf: "SchemaInfo N v = (s, e) \<Longrightarrow> smap_wf (schema_properties s)"
  by (auto simp: schema_defs default_schema_def smap_wf_def [of "[]"] fold_smap_put_wf
      split: option.splits)

lemma SchemaInfo_exception:
  "snd (SchemaInfo N v) = (case get_string v ''schemaType'' of
       None \<Rightarrow> None
     | Some t \<Rightarrow> (case map_of SCHEMA_TYPE t of
           None \<Rightarrow> Some (JsTypeError (''Unknown schemaType: '' @ t)) | Some _ \<Rightarrow> None))"
  by (simp add: schema_defs split: option.split)

subsection \<open>Properties\<close>

text \<open>
  The name reported for a schema type is the one that selects it: the scan of the table
  in \<open>GetSchemaTypeName\<close> inverts the lookup of the constructor, in both directions, so
  the order in which the map is iterated does not matter.
\<close>

theorem schema_type_name_inverse:
  "GetSchemaTypeName t = Some n \<longleftrightarrow> map_of SCHEMA_TYPE n = Some t"
  by (rule GetSchemaTypeName_iff)

text \<open>
  C24. Round trip: the object that \<open>getSchemaInfo\<close> resolves with, given back as the schema
  of a producer or consumer, is read as the same schema (type, name, bytes and properties),
  without an exception.
\<close>

theorem schema_object_roundtrip:
  assumes "GetSchemaTypeName (schemaType s) = Some n" and "smap_wf (schema_properties s)"
  shows "SchemaInfo N (NewObject n s) = (s, None)"
proof -
  let ?o = "NewObject n s"
  have t: "map_of SCHEMA_TYPE n = Some (schemaType s)"
    using assms(1) by (simp add: GetSchemaTypeName_iff)
  have g: "get_string ?o ''schemaType'' = Some n" "get_string ?o ''name'' = Some (schema_name s)"
    "get_string ?o ''schema'' = None" "get_buffer ?o ''schema'' = Some (schema_data s)"
    "get_object ?o ''properties'' = Some (JObject (map (\<lambda>(k, v). (k, JString v)) (schema_properties s)))"
    by (simp_all add: NewObject_def getter_defs is_defs Has_def Get_def)
  have p: "string_properties N (JObject (map (\<lambda>(k, v). (k, JString v)) (schema_properties s))) = schema_properties s"
    by (rule string_properties_strings) (rule smap_wf_distinct [OF assms(2)])
  have "fold (\<lambda>(k, x). smap_put k x) (schema_properties s) [] = schema_properties s"
    using smap_of_wf [OF assms(2)] by (simp add: smap_of_def)
  then show ?thesis
    by (simp add: schema_defs g t p default_schema_def)
qed

theorem schema_object_roundtrip_witness:
  "SchemaInfo napi_ref (NewObject ''KeyValue''
     \<lparr>schemaType = 15, schema_name = ''kv'', schema_data = [CHR 0x00, CHR 0xFF],
      schema_properties = [(''__proto__'', ''x''), (''a'', ''b'')]\<rparr>) =
   (\<lparr>schemaType = 15, schema_name = ''kv'', schema_data = [CHR 0x00, CHR 0xFF],
      schema_properties = [(''__proto__'', ''x''), (''a'', ''b'')]\<rparr>, None)"
proof (rule schema_object_roundtrip)
  show "GetSchemaTypeName (schemaType \<lparr>schemaType = 15, schema_name = ''kv'', schema_data = [CHR 0x00, CHR 0xFF],
      schema_properties = [(''__proto__'', ''x''), (''a'', ''b'')]\<rparr>) = Some ''KeyValue''"
    by code_simp
  show "smap_wf (schema_properties \<lparr>schemaType = 15, schema_name = ''kv'', schema_data = [CHR 0x00, CHR 0xFF],
      schema_properties = [(''__proto__'', ''x''), (''a'', ''b'')]\<rparr>)"
    by code_simp
qed

end
