(* ===== verification/Config_Common.thy ===== *)
theory Config_Common
  imports Pulsar_C Schema
begin

section \<open>What the configuration readers share\<close>

text \<open>
  The producer, consumer and reader configurations treat optional numbers, booleans and
  strings, the schema and the crypto key reader alike. Here are the setter calls such an option makes,
  and the verdict the specification of a configuration function gives on the options that can
  be invalid.
\<close>

subsection \<open>Calls made for an option\<close>

text \<open>An optional 32-bit number that is passed on when it is not negative.\<close>

definition nonneg_calls :: "(int32 \<Rightarrow> 'call) \<Rightarrow> js_number option \<Rightarrow> 'call list" where
  "nonneg_calls setter x = (case x of
       None \<Rightarrow> []
     | Some n \<Rightarrow> (let v = Int32Value n in if 0 \<le> sint v then [setter v] else []))"

text \<open>The same for a number that has to be positive, at the three widths the code uses.\<close>

definition positive32_calls :: "(int32 \<Rightarrow> 'call) \<Rightarrow> js_number option \<Rightarrow> 'call list" where
  "positive32_calls setter x = (case x of
       None \<Rightarrow> []
     | Some n \<Rightarrow> (let v = Int32Value n in if 0 < sint v then [setter v] else []))"

definition positiveU32_calls :: "(uint32 \<Rightarrow> 'call) \<Rightarrow> js_number option \<Rightarrow> 'call list" where
  "positiveU32_calls setter x = (case x of
       None \<Rightarrow> []
     | Some n \<Rightarrow> (let v = Uint32Value n in if 0 < v then [setter v] else []))"

definition positive64_calls :: "napi \<Rightarrow> (int64 \<Rightarrow> 'call) \<Rightarrow> js_number option \<Rightarrow> 'call list" where
  "positive64_calls N setter x = (case x of
       None \<Rightarrow> []
     | Some n \<Rightarrow> (let v = Int64Value N n in if 0 < sint v then [setter v] else []))"

definition boolean_calls :: "(bool \<Rightarrow> 'call) \<Rightarrow> bool option \<Rightarrow> 'call list" where
  "boolean_calls setter x = (case x of None \<Rightarrow> [] | Some b \<Rightarrow> [setter b])"

text \<open>A string that is passed on, as a C string, unless it is empty.\<close>

definition nonempty_calls :: "(string \<Rightarrow> 'call) \<Rightarrow> string option \<Rightarrow> 'call list" where
  "nonempty_calls setter x = (case x of
       None \<Rightarrow> []
     | Some s \<Rightarrow> (if s \<noteq> [] then [setter (c_str s)] else []))"

definition property_calls :: "napi \<Rightarrow> (string \<Rightarrow> string \<Rightarrow> 'call) \<Rightarrow> js_value option \<Rightarrow> 'call list" where
  "property_calls N setter x = (case x of
       None \<Rightarrow> []
     | Some o' \<Rightarrow> map (\<lambda>(k, v). setter (c_str k) (c_str v)) (string_properties N o'))"

text \<open>The strings among the elements of an array, in order; other elements are skipped.\<close>

fun string_elements :: "js_value list \<Rightarrow> string list" where
  "string_elements [] = []"
| "string_elements (v # vs) = (case v of JString t \<Rightarrow> t # string_elements vs | _ \<Rightarrow> string_elements vs)"

lemma list_all_True: "list_all (\<lambda>x. True) xs"
  by (simp add: list_all_iff)

lemma enum_calls_ok:
  "(\<And>e. ok (f e)) \<Longrightarrow> list_all ok (enum_calls table f x)"
  by (auto simp: list_all_iff dest: set_enum_calls)

lemma nonneg_calls_ok:
  "(\<And>n. 0 \<le> sint n \<Longrightarrow> ok (f n)) \<Longrightarrow> list_all ok (nonneg_calls f x)"
  by (auto simp: nonneg_calls_def Let_def split: option.split)

lemma positive_calls_ok:
  "(\<And>n. 0 < sint n \<Longrightarrow> ok (f n)) \<Longrightarrow> list_all ok (positive32_calls f x)"
  "(\<And>n. 0 < n \<Longrightarrow> ok (g n)) \<Longrightarrow> list_all ok (positiveU32_calls g x)"
  "(\<And>n. 0 < sint n \<Longrightarrow> ok (h n)) \<Longrightarrow> list_all ok (positive64_calls N h x)"
  by (auto simp: positive32_calls_def positiveU32_calls_def positive64_calls_def Let_def split: option.split)

lemma boolean_calls_ok: "(\<And>b. ok (f b)) \<Longrightarrow> list_all ok (boolean_calls f x)"
  by (simp add: boolean_calls_def split: option.split)

lemma nonempty_calls_ok:
  "(\<And>s. CHR 0x00 \<notin> set s \<Longrightarrow> ok (f s)) \<Longrightarrow> list_all ok (nonempty_calls f x)"
  by (simp add: nonempty_calls_def split: option.split)

lemma property_calls_ok:
  "(\<And>k v. CHR 0x00 \<notin> set k \<Longrightarrow> CHR 0x00 \<notin> set v \<Longrightarrow> ok (f k v)) \<Longrightarrow> list_all ok (property_calls N f x)"
  by (auto simp: property_calls_def list_all_iff split: option.split)

lemmas option_calls_ok = enum_calls_ok nonneg_calls_ok positive_calls_ok boolean_calls_ok nonempty_calls_ok
  property_calls_ok

subsection \<open>Verdicts\<close>

datatype verdict = Accepted | RejectedWith string | Thrown exn

fun first_failure :: "verdict list \<Rightarrow> verdict" where
  "first_failure [] = Accepted"
| "first_failure (v # vs) = (if v = Accepted then first_failure vs else v)"

definition text_of :: "js_value \<Rightarrow> string \<Rightarrow> string" where
  "text_of cfg k = (case get_string cfg k of None \<Rightarrow> '''' | Some t \<Rightarrow> t)"

definition schema_verdict :: "js_value \<Rightarrow> verdict" where
  "schema_verdict cfg = (case get_object cfg ''schema'' of
       None \<Rightarrow> Accepted
     | Some v \<Rightarrow> (case get_string v ''schemaType'' of
           None \<Rightarrow> Accepted
         | Some t \<Rightarrow> (if map_of SCHEMA_TYPE t = None
             then Thrown (JsTypeError (''Unknown schemaType: '' @ t)) else Accepted)))"

definition key_reader_verdict :: "napi \<Rightarrow> js_value \<Rightarrow> verdict" where
  "key_reader_verdict N cfg = (case get_object cfg ''cryptoKeyReader'' of
       None \<Rightarrow> Accepted
     | Some v \<Rightarrow> (case CryptoKeyReader_Unwrap N v of Inl e \<Rightarrow> Thrown e | Inr _ \<Rightarrow> Accepted))"

text \<open>
  What a verdict means for the end of a block or of a sequence of blocks: \<open>fresh\<close> says of a
  state that nothing has been decided yet, \<open>rejected\<close> that the caller was told a message.
\<close>

definition meets :: "('s \<Rightarrow> bool) \<Rightarrow> (string \<Rightarrow> 's \<Rightarrow> bool) \<Rightarrow> 's flow \<Rightarrow> verdict \<Rightarrow> bool" where
  "meets fresh rejected r v = (case v of
       Accepted \<Rightarrow> \<exists>s. fresh s \<and> r = Continue s
     | RejectedWith msg \<Rightarrow> \<exists>s. rejected msg s \<and> r = Return s
     | Thrown e \<Rightarrow> \<exists>s. fresh s \<and> r = Throw e s)"

text \<open>
  The contract of a configuration function: from a fresh state each block ends as its verdict
  says. The function then ends as the first verdict that is not \<open>Accepted\<close>.
\<close>

locale judged_pipeline =
  fixes steps :: "('s \<Rightarrow> 's flow) list"
    and verdicts :: "verdict list"
    and fresh :: "'s \<Rightarrow> bool"
    and rejected :: "string \<Rightarrow> 's \<Rightarrow> bool"
  assumes judged: "list_all2 (\<lambda>f v. \<forall>s. fresh s \<longrightarrow> meets fresh rejected (f s) v) steps verdicts"
begin

lemma run_meets:
  assumes "fresh s"
  shows "meets fresh rejected (run_steps steps s) (first_failure verdicts)"
  using judged assms
proof (induction steps verdicts arbitrary: s rule: list_all2_induct)
  case Nil
  then show ?case by (simp add: meets_def)
next
  case (Cons f fs v vs)
  from Cons.hyps(1) Cons.prems have f: "meets fresh rejected (f s) v" by blast
  show ?case
  proof (cases v)
    case Accepted
    with f obtain s' where "fresh s'" "f s = Continue s'" by (auto simp: meets_def)
    with Accepted Cons.IH show ?thesis by simp
  qed (use f in \<open>auto simp: meets_def\<close>)
qed

end

end
