(* ===== verification/C_Heap.thy ===== *)
theory C_Heap
  imports Prelude
begin

section \<open>Arrays of C strings on the C heap\<close>

text \<open>
  \<open>src/Message.h\<close>: the three helpers that hand an array of strings to the C client
  (\<open>NewStringArray\<close>, \<open>SetString\<close>, \<open>FreeStringArray\<close>). The heap is explicit: a map
  from addresses to allocated blocks and the next address to hand out. Writing outside a block,
  storing outside an array and freeing what is not allocated have no defined behaviour.
  The lemmas show that the protocol the code follows never does so, hands over exactly the strings
  it was given, and returns the heap to what it was.
\<close>

datatype block = Chars "char list" | Pointers "nat option list"

record c_heap =
  blocks :: "nat \<rightharpoonup> block"
  fresh :: nat

definition heap_wf :: "c_heap \<Rightarrow> bool" where
  "heap_wf h \<longleftrightarrow> (\<forall>a \<in> dom (blocks h). a < fresh h)"

definition alloc :: "block \<Rightarrow> c_heap \<Rightarrow> nat \<times> c_heap" where
  "alloc b h = (fresh h, \<lparr>blocks = (blocks h)(fresh h \<mapsto> b), fresh = Suc (fresh h)\<rparr>)"

definition free :: "nat option \<Rightarrow> c_heap \<Rightarrow> exn + c_heap" where
  "free p h = (case p of
       None \<Rightarrow> Inr h
     | Some a \<Rightarrow> (if a \<in> dom (blocks h) then Inr (h\<lparr>blocks := (blocks h)(a := None)\<rparr>)
         else Inl (UndefinedBehaviour ''free of a block that is not allocated'')))"

text \<open>\<open>strcpy\<close> writes the bytes of the C string and a NUL.\<close>

definition strcpy :: "nat \<Rightarrow> string \<Rightarrow> c_heap \<Rightarrow> exn + c_heap" where
  "strcpy a src h = (case blocks h a of
       Some (Chars buf) \<Rightarrow>
         (if length (c_str src) + 1 \<le> length buf
          then Inr (h\<lparr>blocks := (blocks h)(a \<mapsto> Chars (c_str src @ CHR 0x00 # drop (length (c_str src) + 1) buf))\<rparr>)
          else Inl (UndefinedBehaviour ''write past the end of a buffer''))
     | _ \<Rightarrow> Inl (UndefinedBehaviour ''write to memory that is not a buffer''))"

definition store :: "nat \<Rightarrow> nat \<Rightarrow> nat \<Rightarrow> c_heap \<Rightarrow> exn + c_heap" where
  "store a n v h = (case blocks h a of
       Some (Pointers ps) \<Rightarrow>
         (if n < length ps then Inr (h\<lparr>blocks := (blocks h)(a \<mapsto> Pointers (ps[n := Some v]))\<rparr>)
          else Inl (UndefinedBehaviour ''store past the end of an array''))
     | _ \<Rightarrow> Inl (UndefinedBehaviour ''store to memory that is not an array''))"

subsection \<open>The helpers\<close>

definition NewStringArray :: "nat \<Rightarrow> c_heap \<Rightarrow> nat \<times> c_heap" where
  "NewStringArray n h = alloc (Pointers (replicate n None)) h"

definition SetString :: "nat \<Rightarrow> string \<Rightarrow> nat \<Rightarrow> c_heap \<Rightarrow> exn + c_heap" where
  "SetString array str n h =
     (let (copied, h1) = alloc (Chars (replicate (length (c_str str) + 1) (CHR 0x00))) h in
      case strcpy copied str h1 of
        Inl e \<Rightarrow> Inl e
      | Inr h2 \<Rightarrow> store array n copied h2)"

fun free_elements :: "nat \<Rightarrow> nat \<Rightarrow> nat \<Rightarrow> c_heap \<Rightarrow> exn + c_heap" where
  "free_elements array i 0 h = Inr h"
| "free_elements array i (Suc k) h = (case blocks h array of
       Some (Pointers ps) \<Rightarrow>
         (if i < length ps
          then (case free (ps ! i) h of Inl e \<Rightarrow> Inl e | Inr h' \<Rightarrow> free_elements array (Suc i) k h')
          else Inl (UndefinedBehaviour ''read past the end of an array''))
     | _ \<Rightarrow> Inl (UndefinedBehaviour ''read of memory that is not an array''))"

definition FreeStringArray :: "nat \<Rightarrow> nat \<Rightarrow> c_heap \<Rightarrow> exn + c_heap" where
  "FreeStringArray array n h = (case free_elements array 0 n h of
       Inl e \<Rightarrow> Inl e
     | Inr h' \<Rightarrow> free (Some array) h')"

text \<open>The loop that fills the array from index \<open>i\<close> on.\<close>

fun fill :: "nat \<Rightarrow> nat \<Rightarrow> string list \<Rightarrow> c_heap \<Rightarrow> exn + c_heap" where
  "fill array i [] h = Inr h"
| "fill array i (s # ss) h = (case SetString array s i h of
       Inl e \<Rightarrow> Inl e
     | Inr h' \<Rightarrow> fill array (Suc i) ss h')"

text \<open>What a C function reads that is given the array and its length.\<close>

definition read_chars :: "c_heap \<Rightarrow> nat option \<Rightarrow> string option" where
  "read_chars h p = (case p of
       None \<Rightarrow> None
     | Some a \<Rightarrow> (case blocks h a of
           Some (Chars buf) \<Rightarrow> (if CHR 0x00 \<in> set buf then Some (c_str buf) else None)
         | _ \<Rightarrow> None))"

definition read_strings :: "c_heap \<Rightarrow> nat \<Rightarrow> nat \<Rightarrow> string option list" where
  "read_strings h array n = (case blocks h array of
       Some (Pointers ps) \<Rightarrow> map (\<lambda>i. if i < length ps then read_chars h (ps ! i) else None) [0..<n]
     | _ \<Rightarrow> replicate n None)"

text \<open>
  The whole protocol of \<open>BuildMessage\<close> for the replication clusters: what the C client reads
  and the heap afterwards.
\<close>

definition with_string_array :: "string list \<Rightarrow> c_heap \<Rightarrow> exn + (string option list \<times> c_heap)" where
  "with_string_array strs h =
     (let length' = length strs; (arr, h1) = NewStringArray length' h in
      case fill arr 0 strs h1 of
        Inl e \<Rightarrow> Inl e
      | Inr h2 \<Rightarrow>
         (let seen = read_strings h2 arr length' in
          case FreeStringArray arr length' h2 of
            Inl e \<Rightarrow> Inl e
          | Inr h3 \<Rightarrow> Inr (seen, h3)))"

subsection \<open>Lemmas\<close>

text \<open>
  The heap after the array and the strings \<open>ss\<close> were allocated on top of \<open>h\<close> and the
  first \<open>i\<close> of them freed again.
\<close>

definition filled :: "c_heap \<Rightarrow> string list \<Rightarrow> nat \<Rightarrow> nat \<Rightarrow> c_heap" where
  "filled h ss n i = (let a = fresh h in \<lparr>
     blocks = (\<lambda>x. if x = a then Some (Pointers (map (\<lambda>j. Some (Suc a + j)) [0..<length ss] @ replicate (n - length ss) None))
       else if a + i < x \<and> x \<le> a + length ss then Some (Chars (c_str (ss ! (x - a - 1)) @ [CHR 0x00]))
       else blocks h x),
     fresh = Suc a + length ss\<rparr>)"

lemma filled_simps:
  "fresh (filled h ss n i) = Suc (fresh h) + length ss"
  "blocks (filled h ss n i) (fresh h) =
     Some (Pointers (map (\<lambda>j. Some (Suc (fresh h) + j)) [0..<length ss] @ replicate (n - length ss) None))"
  by (simp_all add: filled_def Let_def)

lemma blocks_above: "heap_wf h \<Longrightarrow> fresh h \<le> x \<Longrightarrow> blocks h x = None"
  by (metis heap_wf_def domIff leD)

lemma heap_wf_mono:
  "blocks h' = blocks h \<Longrightarrow> fresh h \<le> fresh h' \<Longrightarrow> heap_wf h \<Longrightarrow> heap_wf h'"
  unfolding heap_wf_def by (auto intro: less_le_trans)

lemma NewStringArray_filled:
  "NewStringArray n h = (fresh h, filled h [] n 0)"
  by (auto simp: NewStringArray_def alloc_def filled_def Let_def fun_eq_iff)

lemma SetString_filled:
  assumes "length ss < n"
  shows "SetString (fresh h) s (length ss) (filled h ss n 0) = Inr (filled h (ss @ [s]) n 0)"
proof -
  let ?a = "fresh h" and ?c = "Suc (fresh h) + length ss"
  let ?h1 = "\<lparr>blocks = (blocks (filled h ss n 0))(?c \<mapsto> Chars (replicate (length (c_str s) + 1) (CHR 0x00))), fresh = Suc ?c\<rparr>"
  let ?h2 = "?h1\<lparr>blocks := (blocks ?h1)(?c \<mapsto> Chars (c_str s @ [CHR 0x00]))\<rparr>"
  have "alloc (Chars (replicate (length (c_str s) + 1) (CHR 0x00))) (filled h ss n 0) = (?c, ?h1)"
    by (simp add: alloc_def filled_simps)
  moreover have "strcpy ?c s ?h1 = Inr ?h2"
    by (simp add: strcpy_def)
  moreover have "store ?a (length ss) ?c ?h2 = Inr (filled h (ss @ [s]) n 0)"
  proof -
    let ?ps = "map (\<lambda>j. Some (Suc ?a + j)) [0..<length ss] @ replicate (n - length ss) None"
    have "blocks ?h2 ?a = Some (Pointers ?ps)" by (simp add: filled_simps)
    then have "store ?a (length ss) ?c ?h2 =
        Inr (?h2\<lparr>blocks := (blocks ?h2)(?a \<mapsto> Pointers (?ps[length ss := Some ?c]))\<rparr>)"
      using assms by (simp add: store_def)
    moreover have "?ps[length ss := Some ?c] =
        map (\<lambda>j. Some (Suc ?a + j)) [0..<length (ss @ [s])] @ replicate (n - length (ss @ [s])) None"
    proof -
      have "replicate (n - length ss) (None :: nat option) = None # replicate (n - Suc (length ss)) None"
        using assms by (cases "n - length ss") (auto simp: Suc_diff_Suc intro: arg_cong2 [where f = replicate])
      then show ?thesis by (simp add: list_update_append)
    qed
    ultimately show ?thesis
      by (auto simp: filled_def Let_def fun_eq_iff nth_append)
  qed
  ultimately show ?thesis by (simp add: SetString_def)
qed

lemma fill_filled:
  "length ss + length ts \<le> n \<Longrightarrow>
   fill (fresh h) (length ss) ts (filled h ss n 0) = Inr (filled h (ss @ ts) n 0)"
proof (induction ts arbitrary: ss)
  case (Cons t ts)
  then have "SetString (fresh h) t (length ss) (filled h ss n 0) = Inr (filled h (ss @ [t]) n 0)"
    by (intro SetString_filled) simp
  with Cons.IH [of "ss @ [t]"] Cons.prems show ?case by simp
qed simp

lemma read_filled:
  "read_strings (filled h ss (length ss) 0) (fresh h) (length ss) = map (Some \<circ> c_str) ss"
proof (rule nth_equalityI)
  show "length (read_strings (filled h ss (length ss) 0) (fresh h) (length ss)) = length (map (Some \<circ> c_str) ss)"
    by (simp add: read_strings_def filled_simps)
  fix i assume "i < length (read_strings (filled h ss (length ss) 0) (fresh h) (length ss))"
  then have i: "i < length ss" by (simp add: read_strings_def filled_simps)
  have "c_str (c_str s @ [CHR 0x00]) = c_str s" for s
    by (simp add: c_str_def takeWhile_tail)
  with i show "read_strings (filled h ss (length ss) 0) (fresh h) (length ss) ! i = map (Some \<circ> c_str) ss ! i"
    by (simp add: read_strings_def filled_simps read_chars_def) (simp add: filled_def Let_def)
qed

lemma free_filled:
  assumes "heap_wf h" and "i < length ss"
  shows "free (Some (Suc (fresh h) + i)) (filled h ss n i) = Inr (filled h ss n (Suc i))"
  using assms(2) blocks_above [OF assms(1), of "Suc (fresh h + i)"]
  by (auto simp: free_def filled_def Let_def fun_eq_iff dom_def)

lemma free_elements_filled:
  assumes "heap_wf h"
  shows "i + k = length ss \<Longrightarrow>
    free_elements (fresh h) i k (filled h ss (length ss) i) = Inr (filled h ss (length ss) (length ss))"
proof (induction k arbitrary: i)
  case (Suc k)
  then have "i < length ss" by simp
  with free_filled [OF assms this] Suc show ?case by (simp add: filled_simps)
qed simp

lemma with_string_array_ok:
  assumes "heap_wf h"
  shows "\<exists>h'. with_string_array strs h = Inr (map (Some \<circ> c_str) strs, h') \<and> blocks h' = blocks h \<and> heap_wf h'"
proof -
  let ?f = "filled h strs (length strs)"
  let ?h' = "(?f (length strs))\<lparr>blocks := (blocks (?f (length strs)))(fresh h := None)\<rparr>"
  have "fill (fresh h) 0 strs (filled h [] (length strs) 0) = Inr (?f 0)"
    using fill_filled [of "[]" strs "length strs" h] by simp
  moreover have "FreeStringArray (fresh h) (length strs) (?f 0) = Inr ?h'"
    using free_elements_filled [OF assms, of 0 "length strs" strs]
    by (simp add: FreeStringArray_def free_def filled_simps dom_def)
  ultimately have "with_string_array strs h = Inr (map (Some \<circ> c_str) strs, ?h')"
    by (simp add: with_string_array_def NewStringArray_filled read_filled Let_def)
  moreover have "blocks ?h' = blocks h"
    using blocks_above [OF assms, of "fresh h"] by (auto simp: filled_def Let_def fun_eq_iff)
  moreover have "fresh h \<le> fresh ?h'" by (simp add: filled_simps)
  with assms calculation(2) have "heap_wf ?h'"
    by (intro heap_wf_mono [of ?h' h]) simp_all
  ultimately show ?thesis by blast
qed

subsection \<open>Properties\<close>

text \<open>
  C8. Handing an array of strings to the C client is memory safe: whatever the strings, no
  buffer is overrun, nothing is freed twice, the C client reads exactly the given strings (each up
  to its first NUL), and afterwards exactly the blocks that were allocated before are allocated.
\<close>

theorem string_array_safe:
  assumes "heap_wf h"
  shows "\<exists>h'. with_string_array strs h = Inr (map (Some \<circ> c_str) strs, h') \<and> blocks h' = blocks h \<and> heap_wf h'"
  using assms by (rule with_string_array_ok)

theorem string_array_safe_witness:
  "\<exists>h'. with_string_array [''us-west'', ''''] \<lparr>blocks = Map.empty, fresh = 1\<rparr> =
     Inr ([Some ''us-west'', Some ''''], h') \<and> blocks h' = Map.empty"
proof -
  have "heap_wf \<lparr>blocks = Map.empty, fresh = 1\<rparr>" by (simp add: heap_wf_def)
  from string_array_safe [OF this, of "[''us-west'', '''']"] show ?thesis by auto
qed

end
