(* ===== verification/Message.thy ===== *)
theory Message
  imports Config_Common C_Heap "HOL-Library.AList"
begin

section \<open>Message\<close>

text \<open>
  \<open>src/Message.h\<close>, \<open>src/Message.cc\<close>: a message built from a JavaScript object for sending,
  and the accessors of a received message. A built message is the log of the calls made on the C
  client's message; the record \<open>c_message\<close> holds what the C client answers about a received
  one, and a function \<open>M\<close> from handles to such records is a parameter of the accessors.
  The lemmas show that building a message leaks no memory and makes exactly the calls the options
  ask for, that every accessor of a message that was not built throws, and which properties of a
  message can be read back.
\<close>

subsection \<open>BuildMessage\<close>

datatype message_call =
    M_set_content bytes
  | M_set_property string string
  | M_set_event_timestamp int64
  | M_set_sequence_id int64
  | M_set_partition_key string
  | M_disable_replication
  | M_set_replication_clusters "string option list"
  | M_set_deliver_after int64
  | M_set_deliver_at int64
  | M_set_ordering_key string

type_synonym message_state = "message_call list \<times> c_heap"
type_synonym message_step = "message_state \<Rightarrow> message_state flow"

definition memit :: "message_call list \<Rightarrow> message_step" where
  "memit xs s = Continue (fst s @ xs, snd s)"

definition message_keys :: "string list" where
  "message_keys = [''data'', ''properties'', ''eventTimestamp'', ''sequenceId'', ''partitionKey'',
     ''replicationClusters'', ''deliverAfter'', ''deliverAt'', ''disableReplication'', ''orderingKey'']"

definition build_data :: "js_value \<Rightarrow> message_step" where [steps_def]:
  "build_data conf = memit (case get_buffer conf ''data'' of None \<Rightarrow> [] | Some b \<Rightarrow> [M_set_content b])"

definition build_properties :: "napi \<Rightarrow> js_value \<Rightarrow> message_step" where [steps_def]:
  "build_properties N conf = memit (property_calls N M_set_property (get_object conf ''properties''))"

definition build_event_time :: "napi \<Rightarrow> js_value \<Rightarrow> message_step" where [steps_def]:
  "build_event_time N conf = memit (case get_number conf ''eventTimestamp'' of
       None \<Rightarrow> []
     | Some n \<Rightarrow> (let t = Int64Value N n in if 0 \<le> sint t then [M_set_event_timestamp t] else []))"

text \<open>An optional number passed on whatever its value, and an optional string.\<close>

definition int64_calls :: "napi \<Rightarrow> (int64 \<Rightarrow> message_call) \<Rightarrow> js_number option \<Rightarrow> message_call list" where
  "int64_calls N setter x = (case x of None \<Rightarrow> [] | Some n \<Rightarrow> [setter (Int64Value N n)])"

definition string_calls :: "(string \<Rightarrow> message_call) \<Rightarrow> string option \<Rightarrow> message_call list" where
  "string_calls setter x = (case x of None \<Rightarrow> [] | Some s \<Rightarrow> [setter (c_str s)])"

definition build_sequence_id :: "napi \<Rightarrow> js_value \<Rightarrow> message_step" where [steps_def]:
  "build_sequence_id N conf = memit (int64_calls N M_set_sequence_id (get_number conf ''sequenceId''))"

definition build_partition_key :: "js_value \<Rightarrow> message_step" where [steps_def]:
  "build_partition_key conf = memit (string_calls M_set_partition_key (get_string conf ''partitionKey''))"

definition build_clusters :: "napi \<Rightarrow> js_value \<Rightarrow> message_step" where [steps_def]:
  "build_clusters N conf s = (case get_array conf ''replicationClusters'' of
       None \<Rightarrow> Continue s
     | Some clusters \<Rightarrow>
         (if length clusters = 0 then memit [M_disable_replication] s
          else (case with_string_array (map (ToString N) clusters) (snd s) of
              Inl e \<Rightarrow> Throw e s
            | Inr (arr, h) \<Rightarrow> memit [M_set_replication_clusters arr] (fst s, h))))"

definition build_deliver_after :: "napi \<Rightarrow> js_value \<Rightarrow> message_step" where [steps_def]:
  "build_deliver_after N conf = memit (int64_calls N M_set_deliver_after (get_number conf ''deliverAfter''))"

definition build_deliver_at :: "napi \<Rightarrow> js_value \<Rightarrow> message_step" where [steps_def]:
  "build_deliver_at N conf = memit (int64_calls N M_set_deliver_at (get_number conf ''deliverAt''))"

definition build_disable_replication :: "js_value \<Rightarrow> message_step" where [steps_def]:
  "build_disable_replication conf = memit (case get_boolean conf ''disableReplication'' of
       None \<Rightarrow> []
     | Some b \<Rightarrow> (if b then [M_disable_replication] else []))"

definition build_ordering_key :: "js_value \<Rightarrow> message_step" where [steps_def]:
  "build_ordering_key conf = memit (string_calls M_set_ordering_key (get_string conf ''orderingKey''))"

definition BuildMessage :: "napi \<Rightarrow> js_value \<Rightarrow> c_heap \<Rightarrow> message_state flow" where
  "BuildMessage N conf h = run_steps
     [build_data conf, build_properties N conf, build_event_time N conf, build_sequence_id N conf,
      build_partition_key conf, build_clusters N conf, build_deliver_after N conf, build_deliver_at N conf,
      build_disable_replication conf, build_ordering_key conf] ([], h)"

subsection \<open>Received messages\<close>

record enc_key_info =
  enc_key :: string
  enc_value :: bytes
  enc_metadata :: "(string, string) smap"

record encryption_context =
  enc_keys :: "enc_key_info list"
  enc_param :: bytes
  enc_algorithm :: string
  enc_compressionType :: "compression_type option"
  uncompressedMessageSize :: uint32
  batchSize :: int32
  isDecryptionFailed :: bool

text \<open>
  What the C client answers about a message. \<open>None\<close> as a compression type stands for a
  value outside the enumeration; the encryption context is an optional pointer, which may be
  null.
\<close>

record c_message =
  topic_name :: string
  redelivery_count :: int32
  msg_properties :: "(string \<times> string) list"
  msg_data :: bytes
  message_id :: "ptr option"
  event_timestamp :: "64 word"
  publish_timestamp :: "64 word"
  partitionKey :: string
  orderingKey :: string
  producer_name :: string
  replicated_from :: "string option"
  longSchemaVersion :: "int64 option"
  encryptionContext :: "encryption_context option option"

text \<open>The constructor, which holds no message, and the object made for a received message.\<close>

definition Message :: js_value where [simp]:
  "Message = JNative (N_Message None) []"

definition Message_NewInstance :: "ptr \<Rightarrow> js_value" where [simp]:
  "Message_NewInstance cMessage = JNative (N_Message (Some cMessage)) []"

definition COMPRESSION_TYPE_MAP :: "(compression_type \<times> string) list" where
  "COMPRESSION_TYPE_MAP = [(CompressionNone, ''None''), (CompressionLZ4, ''LZ4''), (CompressionZLib, ''Zlib''),
     (CompressionZSTD, ''ZSTD''), (CompressionSNAPPY, ''SNAPPY'')]"

definition ValidateCMessage :: "ptr option \<Rightarrow> exn + ptr" where
  "ValidateCMessage m = (case m of
       Some p \<Rightarrow> Inr p
     | None \<Rightarrow> Inl (JsError ''Message has not been built''))"

type_synonym getter = "(ptr \<Rightarrow> c_message) \<Rightarrow> ptr option \<Rightarrow> exn + js_value"

text \<open>Every accessor first validates the handle and returns with the exception pending if it is null.\<close>

definition on_message :: "(c_message \<Rightarrow> js_value) \<Rightarrow> getter" where
  "on_message f M m = (case ValidateCMessage m of Inl e \<Rightarrow> Inl e | Inr p \<Rightarrow> Inr (f (M p)))"

definition GetTopicName :: getter where
  "GetTopicName = on_message (\<lambda>c. JString (topic_name c))"

definition GetRedeliveryCount :: getter where
  "GetRedeliveryCount = on_message (\<lambda>c. Number_New (sint (redelivery_count c)))"

definition GetData :: getter where
  "GetData = on_message (\<lambda>c. JBuffer (msg_data c))"

text \<open>\<open>MessageId::NewInstanceFromMessage\<close>: an object that holds the id the C client reports.\<close>

definition NewInstanceFromMessage :: "c_message \<Rightarrow> js_value" where [simp]:
  "NewInstanceFromMessage c = JNative (N_MessageId (message_id c)) []"

definition GetMessageId :: getter where
  "GetMessageId = on_message NewInstanceFromMessage"

definition GetEventTimestamp :: getter where
  "GetEventTimestamp = on_message (\<lambda>c. Number_New (uint (event_timestamp c)))"

definition GetPublishTimestamp :: getter where
  "GetPublishTimestamp = on_message (\<lambda>c. Number_New (uint (publish_timestamp c)))"

definition GetPartitionKey :: getter where
  "GetPartitionKey = on_message (\<lambda>c. JString (partitionKey c))"

definition GetOrderingKey :: getter where
  "GetOrderingKey = on_message (\<lambda>c. JString (orderingKey c))"

definition GetProducerName :: getter where
  "GetProducerName = on_message (\<lambda>c. JString (producer_name c))"

definition IsReplicated :: getter where
  "IsReplicated = on_message (\<lambda>c. JBoolean (case replicated_from c of None \<Rightarrow> False | Some s \<Rightarrow> c_str s \<noteq> []))"

definition GetReplicatedFrom :: getter where
  "GetReplicatedFrom = on_message (\<lambda>c. JString (case replicated_from c of None \<Rightarrow> '''' | Some s \<Rightarrow> c_str s))"

definition GetLongSchemaVersion :: getter where
  "GetLongSchemaVersion = on_message (\<lambda>c. case longSchemaVersion c of None \<Rightarrow> JNull | Some v \<Rightarrow> Number_New (sint v))"

text \<open>
  Setting a string property of an ordinary object: the key \<open>__proto__\<close> goes to the prototype
  accessor, which ignores a string.
\<close>

definition Set_string :: "string \<Rightarrow> string \<Rightarrow> (string \<times> js_value) list \<Rightarrow> (string \<times> js_value) list" where
  "Set_string k v ps = (if k = ''__proto__'' then ps else AList.update k (JString v) ps)"

definition key_object :: "enc_key_info \<Rightarrow> js_value" where
  "key_object k = JObject [(''key'', JString (enc_key k)), (''value'', JBuffer (enc_value k)),
     (''metadata'', JObject (fold (\<lambda>(a, b). Set_string a b) (enc_metadata k) []))]"

definition compression_name :: "compression_type option \<Rightarrow> string" where
  "compression_name t = (case t of
       None \<Rightarrow> ''None''
     | Some c \<Rightarrow> (case map_of COMPRESSION_TYPE_MAP c of Some n \<Rightarrow> n | None \<Rightarrow> ''None''))"

definition encryption_object :: "encryption_context \<Rightarrow> js_value" where
  "encryption_object e = JObject
     [(''keys'', JArray (map key_object (enc_keys e))),
      (''param'', JBuffer (enc_param e)),
      (''algorithm'', JString (enc_algorithm e)),
      (''compressionType'', JString (compression_name (enc_compressionType e))),
      (''uncompressedMessageSize'', Number_New (uint (uncompressedMessageSize e))),
      (''batchSize'', Number_New (sint (batchSize e))),
      (''isDecryptionFailed'', JBoolean (isDecryptionFailed e))]"

definition GetEncryptionContext :: getter where
  "GetEncryptionContext = on_message (\<lambda>c. case encryptionContext c of
       None \<Rightarrow> JNull
     | Some None \<Rightarrow> JNull
     | Some (Some e) \<Rightarrow> encryption_object e)"

subsection \<open>GetProperties\<close>

text \<open>
  The properties are set, by name, on a JavaScript array: a key that is an array index
  lengthens it, and the key \<open>length\<close> assigns its length, which converts the value to a
  number and throws a \<open>RangeError\<close> if that is no array length.
\<close>

record array_object =
  arr_length :: nat
  arr_props :: "(string \<times> js_value) list"

definition nat_of_digits :: "string \<Rightarrow> nat" where
  "nat_of_digits s = foldl (\<lambda>n c. 10 * n + (of_char c - 48)) 0 s"

definition array_index :: "string \<Rightarrow> nat option" where
  "array_index k = (let n = nat_of_digits k in if show_nat n = k \<and> n < 2 ^ 32 - 1 then Some n else None)"

definition to_length :: "js_number \<Rightarrow> nat option" where
  "to_length n = (case n of
       Finite q \<Rightarrow> (if of_int (trunc q) = q \<and> 0 \<le> q \<and> q < 2 ^ 32 then Some (nat (trunc q)) else None)
     | _ \<Rightarrow> None)"

definition beyond :: "nat \<Rightarrow> string \<Rightarrow> bool" where
  "beyond n k = (case array_index k of None \<Rightarrow> False | Some i \<Rightarrow> n \<le> i)"

definition array_set :: "napi \<Rightarrow> string \<Rightarrow> string \<Rightarrow> array_object \<Rightarrow> exn + array_object" where
  "array_set N k v a =
     (if k = ''length'' then
        (case to_length (ToNumber N (JString v)) of
           None \<Rightarrow> Inl (JsError ''Invalid array length'')
         | Some n \<Rightarrow> Inr \<lparr>arr_length = n, arr_props = filter (\<lambda>p. \<not> beyond n (fst p)) (arr_props a)\<rparr>)
      else Inr \<lparr>arr_length = (case array_index k of None \<Rightarrow> arr_length a | Some i \<Rightarrow> max (arr_length a) (Suc i)),
        arr_props = Set_string k v (arr_props a)\<rparr>)"

fun set_properties :: "napi \<Rightarrow> (string \<times> string) list \<Rightarrow> array_object \<Rightarrow> exn + array_object" where
  "set_properties N [] a = Inr a"
| "set_properties N ((k, v) # ps) a = (case array_set N k v a of
       Inl e \<Rightarrow> Inl e
     | Inr a' \<Rightarrow> set_properties N ps a')"

definition GetProperties :: "napi \<Rightarrow> (ptr \<Rightarrow> c_message) \<Rightarrow> ptr option \<Rightarrow> exn + array_object" where
  "GetProperties N M m = (case ValidateCMessage m of
       Inl e \<Rightarrow> Inl e
     | Inr p \<Rightarrow> set_properties N (msg_properties (M p)) \<lparr>arr_length = 0, arr_props = []\<rparr>)"

subsection \<open>Lemmas\<close>

lemma memit_simps [simp]: "memit xs s = Continue (fst s @ xs, snd s)"
  by (simp add: memit_def)

text \<open>The specification: the calls each option asks for, in the order of the source.\<close>

definition message_calls :: "napi \<Rightarrow> js_value \<Rightarrow> message_call list" where
  "message_calls N conf =
     (case get_buffer conf ''data'' of None \<Rightarrow> [] | Some b \<Rightarrow> [M_set_content b]) @
     property_calls N M_set_property (get_object conf ''properties'') @
     (case get_number conf ''eventTimestamp'' of
        None \<Rightarrow> []
      | Some n \<Rightarrow> (if 0 \<le> sint (Int64Value N n) then [M_set_event_timestamp (Int64Value N n)] else [])) @
     int64_calls N M_set_sequence_id (get_number conf ''sequenceId'') @
     string_calls M_set_partition_key (get_string conf ''partitionKey'') @
     (case get_array conf ''replicationClusters'' of
        None \<Rightarrow> []
      | Some [] \<Rightarrow> [M_disable_replication]
      | Some cs \<Rightarrow> [M_set_replication_clusters (map (\<lambda>c. Some (c_str (ToString N c))) cs)]) @
     int64_calls N M_set_deliver_after (get_number conf ''deliverAfter'') @
     int64_calls N M_set_deliver_at (get_number conf ''deliverAt'') @
     (if get_boolean conf ''disableReplication'' = Some True then [M_disable_replication] else []) @
     string_calls M_set_ordering_key (get_string conf ''orderingKey'')"

lemma build_clusters_ok:
  assumes "heap_wf h"
  shows "\<exists>h'. build_clusters N conf (cs, h) = Continue (cs @ (case get_array conf ''replicationClusters'' of
        None \<Rightarrow> []
      | Some [] \<Rightarrow> [M_disable_replication]
      | Some xs \<Rightarrow> [M_set_replication_clusters (map (\<lambda>c. Some (c_str (ToString N c))) xs)]), h') \<and>
    blocks h' = blocks h \<and> heap_wf h'"
proof (cases "get_array conf ''replicationClusters''")
  case None
  with assms show ?thesis by (simp add: build_clusters_def)
next
  case (Some xs)
  obtain h' where "with_string_array (map (ToString N) xs) h = Inr (map (Some \<circ> c_str) (map (ToString N) xs), h')"
    and "blocks h' = blocks h" "heap_wf h'"
    using with_string_array_ok [OF assms] by blast
  with Some assms show ?thesis
    by (cases xs) (simp_all add: build_clusters_def comp_def)
qed

lemma BuildMessage_result:
  assumes "heap_wf h"
  shows "\<exists>h'. BuildMessage N conf h = Continue (message_calls N conf, h') \<and> blocks h' = blocks h \<and> heap_wf h'"
proof -
  let ?cs = "(case get_buffer conf ''data'' of None \<Rightarrow> [] | Some b \<Rightarrow> [M_set_content b]) @
     property_calls N M_set_property (get_object conf ''properties'') @
     (case get_number conf ''eventTimestamp'' of
        None \<Rightarrow> []
      | Some n \<Rightarrow> (if 0 \<le> sint (Int64Value N n) then [M_set_event_timestamp (Int64Value N n)] else [])) @
     int64_calls N M_set_sequence_id (get_number conf ''sequenceId'') @
     string_calls M_set_partition_key (get_string conf ''partitionKey'')"
  obtain h' where h': "build_clusters N conf (?cs, h) = Continue (?cs @ (case get_array conf ''replicationClusters'' of
        None \<Rightarrow> []
      | Some [] \<Rightarrow> [M_disable_replication]
      | Some xs \<Rightarrow> [M_set_replication_clusters (map (\<lambda>c. Some (c_str (ToString N c))) xs)]), h')"
    "blocks h' = blocks h" "heap_wf h'"
    using build_clusters_ok [OF assms] by blast
  have dr: "(case x of None \<Rightarrow> [] | Some b \<Rightarrow> if b then [M_disable_replication] else []) =
      (if x = Some True then [M_disable_replication] else [])" for x
    by (cases x) auto
  have pre: "run_steps [build_data conf, build_properties N conf, build_event_time N conf,
      build_sequence_id N conf, build_partition_key conf] ([], h) = Continue (?cs, h)"
    by (simp add: build_data_def build_properties_def build_event_time_def build_sequence_id_def
        build_partition_key_def Let_def split: option.split)
  have "BuildMessage N conf h = (case run_steps [build_data conf, build_properties N conf, build_event_time N conf,
      build_sequence_id N conf, build_partition_key conf] ([], h) of
        Continue s \<Rightarrow> run_steps [build_clusters N conf, build_deliver_after N conf, build_deliver_at N conf,
          build_disable_replication conf, build_ordering_key conf] s
      | Return s \<Rightarrow> Return s | Throw e s \<Rightarrow> Throw e s)"
    unfolding BuildMessage_def by (subst run_steps_append [symmetric]) simp
  then have "BuildMessage N conf h = Continue (message_calls N conf, h')"
    unfolding pre
    by (simp add: h'(1) build_deliver_after_def build_deliver_at_def build_disable_replication_def
        build_ordering_key_def message_calls_def dr)
  with h' show ?thesis by blast
qed

lemma on_message_simps [simp]:
  "on_message f M None = Inl (JsError ''Message has not been built'')" "on_message f M (Some p) = Inr (f (M p))"
  by (simp_all add: on_message_def ValidateCMessage_def)

lemmas getters = GetTopicName_def GetRedeliveryCount_def GetData_def GetMessageId_def GetEventTimestamp_def
  GetPublishTimestamp_def GetPartitionKey_def GetOrderingKey_def GetProducerName_def IsReplicated_def
  GetReplicatedFrom_def GetLongSchemaVersion_def GetEncryptionContext_def

lemma map_of_Set_string:
  "map_of (Set_string k v ps) = (if k = ''__proto__'' then map_of ps else (map_of ps)(k \<mapsto> JString v))"
  by (simp add: Set_string_def update_conv')

lemma set_properties_lookup:
  assumes "distinct (map fst ps)" and "''length'' \<notin> fst ` set ps" and "''__proto__'' \<notin> fst ` set ps"
  shows "\<exists>a'. set_properties N ps a = Inr a' \<and>
    map_of (arr_props a') = map_of (arr_props a) ++ map_of (map (\<lambda>(k, v). (k, JString v)) ps)"
  using assms
proof (induction N ps a rule: set_properties.induct)
  case (2 N k v ps a)
  from "2.prems"(2,3) have "k \<noteq> ''length''" "k \<noteq> ''__proto__''" by auto
  then obtain a1 where a1: "array_set N k v a = Inr a1"
    and m: "map_of (arr_props a1) = (map_of (arr_props a))(k \<mapsto> JString v)"
    by (simp only: array_set_def if_False sum.inject) (auto simp: map_of_Set_string)
  from "2.IH" [OF a1] "2.prems" obtain a' where "set_properties N ps a1 = Inr a'"
    and "map_of (arr_props a') = map_of (arr_props a1) ++ map_of (map (\<lambda>(k, v). (k, JString v)) ps)" by auto
  moreover have "map_of (map (\<lambda>(k, v). (k, JString v)) ps) k = None"
    using "2.prems"(1) by (force simp: map_of_eq_None_iff)
  ultimately show ?case using a1 m
    by (auto simp: fun_eq_iff map_add_def split: option.split)
qed simp

lemma set_properties_no_length:
  assumes "set_properties N ps a = Inr a'" and "''length'' \<notin> dom (map_of (arr_props a))"
  shows "''length'' \<notin> dom (map_of (arr_props a'))"
  using assms
proof (induction N ps a rule: set_properties.induct)
  case (2 N k v ps a)
  from "2.prems"(1) obtain a1 where a1: "array_set N k v a = Inr a1" and r: "set_properties N ps a1 = Inr a'"
    by (auto split: sum.splits)
  have "''length'' \<notin> dom (map_of (arr_props a1))"
  proof (cases "k = ''length''")
    case True
    with a1 have "\<exists>P. arr_props a1 = filter P (arr_props a)"
      by (auto simp: array_set_def split: option.splits)
    with "2.prems"(2) show ?thesis by (auto simp: dom_map_of_conv_image_fst)
  next
    case False
    with a1 "2.prems"(2) show ?thesis by (auto simp: array_set_def map_of_Set_string split: if_splits)
  qed
  with "2.IH" [OF a1 r] show ?case by blast
qed simp

definition message_getters :: "getter list" where
  "message_getters = [GetTopicName, GetRedeliveryCount, GetData, GetMessageId, GetEventTimestamp, GetPublishTimestamp,
     GetPartitionKey, GetOrderingKey, GetProducerName, IsReplicated, GetReplicatedFrom, GetLongSchemaVersion,
     GetEncryptionContext]"

lemma event_timestamp_call:
  "M_set_event_timestamp w \<in> set (message_calls N conf) \<longleftrightarrow>
     (\<exists>n. get_number conf ''eventTimestamp'' = Some n \<and> w = Int64Value N n \<and> 0 \<le> sint w)"
proof -
  have "M_set_event_timestamp w \<notin> set (int64_calls N f x)" if "\<And>v. f v \<noteq> M_set_event_timestamp w" for f x
    using that by (auto simp: int64_calls_def dest: sym split: option.splits)
  moreover have "M_set_event_timestamp w \<notin> set (string_calls f x)" if "\<And>v. f v \<noteq> M_set_event_timestamp w" for f x
    using that by (auto simp: string_calls_def dest: sym split: option.splits)
  moreover have "M_set_event_timestamp w \<notin> set (property_calls N M_set_property x)" for x
    by (auto simp: property_calls_def split: option.splits)
  moreover have "M_set_event_timestamp w \<notin> set (case x of None \<Rightarrow> [] | Some [] \<Rightarrow> [M_disable_replication]
      | Some xs \<Rightarrow> [M_set_replication_clusters (g xs)])" for x :: "js_value list option" and g
    by (cases x; cases "the x") auto
  ultimately show ?thesis
    by (cases "get_number conf ''eventTimestamp''") (auto simp: message_calls_def split: option.split)
qed

subsection \<open>Properties\<close>


definition example_message :: js_value where
  "example_message = JObject [(''data'', JBuffer [CHR 0x00, CHR 0xFF]), (''replicationClusters'', JArray [])]"


text \<open>
  An accessor throws exactly on a message that was not built; on a built message each
  returns a value.
\<close>

theorem accessors_need_a_message:
  "list_all (\<lambda>g. (\<exists>e. g M m = Inl e) \<longleftrightarrow> m = None) message_getters \<and>
   GetProperties N M None = Inl (JsError ''Message has not been built'')"
  by (cases m) (simp_all add: message_getters_def getters GetProperties_def ValidateCMessage_def)

definition example_received :: c_message where
  "example_received = \<lparr>topic_name = ''t'', redelivery_count = 0, msg_properties = [(''length'', ''x'')], msg_data = [],
     message_id = None, event_timestamp = 1700000000000, publish_timestamp = 0, partitionKey = '''', orderingKey = '''',
     producer_name = '''', replicated_from = None, longSchemaVersion = None, encryptionContext = None\<rparr>"

text \<open>
  The properties of a message, as \<open>getProperties\<close> returns them: where no key is
  \<open>length\<close> or \<open>__proto__\<close>, each key has its value and there are no others.
\<close>

theorem message_properties_readable:
  assumes "distinct (map fst (msg_properties (M p)))"
    and "''length'' \<notin> fst ` set (msg_properties (M p))" and "''__proto__'' \<notin> fst ` set (msg_properties (M p))"
  shows "\<exists>a. GetProperties N M (Some p) = Inr a \<and>
    map_of (arr_props a) = map_of (map (\<lambda>(k, v). (k, JString v)) (msg_properties (M p)))"
  using set_properties_lookup [OF assms, of N "\<lparr>arr_length = 0, arr_props = []\<rparr>"]
  by (simp add: GetProperties_def ValidateCMessage_def)

theorem message_properties_readable_witness:
  "\<exists>a. GetProperties napi_ref (\<lambda>p. example_received\<lparr>msg_properties := [(''a'', ''1''), (''7'', ''b'')]\<rparr>) (Some 1) = Inr a \<and>
     map_of (arr_props a) ''7'' = Some (JString ''b'')"
proof -
  let ?M = "\<lambda>p :: ptr. example_received\<lparr>msg_properties := [(''a'', ''1''), (''7'', ''b'')]\<rparr>"
  have "\<exists>a. GetProperties napi_ref ?M (Some 1) = Inr a \<and>
      map_of (arr_props a) = map_of (map (\<lambda>(k, v). (k, JString v)) (msg_properties (?M 1)))"
    by (rule message_properties_readable) simp_all
  then show ?thesis by auto
qed



end
