(* ===== verification/Callback.thy ===== *)
theory Callback
  imports Message
begin

section \<open>Calling JavaScript from a client thread\<close>

text \<open>
  A thread of the C client that delivers a message or needs a token queues a call on the JavaScript
  thread and waits on a future until the proxy run there invokes \<open>data->callback\<close>, which
  fulfils the promise of that future; fulfilling it twice raises an exception.
  Modelled are the three proxies (\<open>src/Consumer.cc\<close>, \<open>src/Reader.cc\<close>,
  \<open>src/Authentication.cc\<close>) on every way a JavaScript function can end, the functions that
  dispatch to them, and the crypto key reader (\<open>src/CryptoKeyReader.cc\<close>). The locale
  \<open>blocking_proxy\<close> is the contract between a proxy and the waiting thread.
\<close>

text \<open>How a JavaScript function called by a proxy ends, and what becomes of a promise it returns.\<close>

datatype promise_end = Fulfills js_value | Rejects string | NeverSettles

datatype call_result = Returns js_value | Throws string | ReturnsPromise promise_end

text \<open>
  What a proxy did, in the end: how often it invoked the callback of the waiting thread, whether
  it called the JavaScript function, the errors it logged, the token it stored, and an exception or
  rejection it left unhandled.
\<close>

record proxy_run =
  callbacks :: nat
  js_called :: bool
  logged :: "string list"
  run_token :: string
  unhandled :: "string option"

definition idle_run :: proxy_run where
  "idle_run = \<lparr>callbacks = 0, js_called = False, logged = [], run_token = '''', unhandled = None\<rparr>"

definition invoke_callback :: "proxy_run \<Rightarrow> proxy_run" where
  "invoke_callback r = r\<lparr>callbacks := Suc (callbacks r)\<rparr>"

subsection \<open>The proxies\<close>

text \<open>
  The consumer's proxy catches an exception of the listener and logs it; a promise is caught
  (logging the rejection) and then, finally, the callback runs. \<open>logMessageListenerError\<close>
  prefixes topic and subscription.
\<close>

definition logMessageListenerError :: "string \<Rightarrow> string \<Rightarrow> string \<Rightarrow> string" where
  "logMessageListenerError topic subscription err =
     ''['' @ topic @ '']['' @ subscription @ ''] Message listener error in processing message: '' @ err"

text \<open>What the message names: the answers of the C client, which are C strings.\<close>

definition Consumer_GetTopic :: "string \<Rightarrow> string" where
  "Consumer_GetTopic answer' = c_str answer'"

definition Consumer_GetSubscriptionName :: "string \<Rightarrow> string" where
  "Consumer_GetSubscriptionName answer' = c_str answer'"

definition MessageListenerProxy :: "string \<Rightarrow> string \<Rightarrow> call_result \<Rightarrow> proxy_run" where
  "MessageListenerProxy topic subscription ret =
     (let r = idle_run\<lparr>js_called := True\<rparr>;
          log_error = (\<lambda>err r. r\<lparr>logged := logged r @ [logMessageListenerError topic subscription err]\<rparr>)
      in case ret of
           Throws err \<Rightarrow> invoke_callback (log_error err r)
         | Returns v \<Rightarrow> invoke_callback r
         | ReturnsPromise p \<Rightarrow> (case p of
               Fulfills v \<Rightarrow> invoke_callback r
             | Rejects err \<Rightarrow> invoke_callback (log_error err r)
             | NeverSettles \<Rightarrow> r))"

text \<open>
  The reader's proxy drops the message if the reader is not set yet; it does not catch, and
  chains the callback to the fulfilment of a promise only.
\<close>

definition ReaderListenerProxy :: "bool \<Rightarrow> call_result \<Rightarrow> proxy_run" where
  "ReaderListenerProxy reader ret =
     (if \<not> reader then invoke_callback idle_run
      else let r = idle_run\<lparr>js_called := True\<rparr> in
        (case ret of
           Throws err \<Rightarrow> r\<lparr>unhandled := Some err\<rparr>
         | Returns v \<Rightarrow> invoke_callback r
         | ReturnsPromise p \<Rightarrow> (case p of
               Fulfills v \<Rightarrow> invoke_callback r
             | Rejects err \<Rightarrow> r\<lparr>unhandled := Some err\<rparr>
             | NeverSettles \<Rightarrow> r)))"

definition store_token :: "js_value \<Rightarrow> proxy_run \<Rightarrow> proxy_run" where
  "store_token v r = (case v of JString t \<Rightarrow> r\<lparr>run_token := t\<rparr> | _ \<Rightarrow> r)"

definition TokenSupplierProxy :: "call_result \<Rightarrow> proxy_run" where
  "TokenSupplierProxy ret =
     (let r = idle_run\<lparr>js_called := True\<rparr> in
      case ret of
        Throws err \<Rightarrow> r\<lparr>unhandled := Some err\<rparr>
      | Returns v \<Rightarrow> invoke_callback (store_token v r)
      | ReturnsPromise p \<Rightarrow> (case p of
            Fulfills v \<Rightarrow> invoke_callback (store_token v r)
          | Rejects err \<Rightarrow> r\<lparr>unhandled := Some err\<rparr>
          | NeverSettles \<Rightarrow> r))"

lemmas proxy_defs = MessageListenerProxy_def ReaderListenerProxy_def TokenSupplierProxy_def invoke_callback_def
  idle_run_def store_token_def

subsection \<open>The waiting thread\<close>

text \<open>
  \<open>future.wait()\<close> after the call was queued: the thread goes on when the callback ran once,
  waits for ever when it never runs; a second run would raise \<open>std::future_error\<close>.
\<close>

datatype 'a waiting = Resumed 'a | WaitsForever | FutureError

definition wait_for :: "(proxy_run \<Rightarrow> 'a) \<Rightarrow> proxy_run \<Rightarrow> 'a waiting" where
  "wait_for f r = (if callbacks r = 0 then WaitsForever else if callbacks r = 1 then Resumed (f r) else FutureError)"

text \<open>
  \<open>MessageListener\<close> and \<open>ReaderListener\<close>: \<open>None\<close> is the early return when the
  thread-safe function cannot be acquired (it is closing). The consumer's thread first waits for
  the future that \<open>SetListenerCallback\<close> fulfils with the consumer; \<open>consumerSet\<close> is whether that ever happens.
\<close>

definition MessageListener :: "bool \<Rightarrow> bool \<Rightarrow> string \<Rightarrow> string \<Rightarrow> call_result \<Rightarrow> proxy_run waiting option" where
  "MessageListener consumerSet acquired topic subscription ret =
     (if \<not> consumerSet then Some WaitsForever
      else if \<not> acquired then None else Some (wait_for id (MessageListenerProxy topic subscription ret)))"

definition ReaderListener :: "bool \<Rightarrow> bool \<Rightarrow> call_result \<Rightarrow> proxy_run waiting option" where
  "ReaderListener acquired reader ret =
     (if \<not> acquired then None else Some (wait_for id (ReaderListenerProxy reader ret)))"

text \<open>
  \<open>TokenSupplier\<close> returns a buffer: of size zero when the function cannot be acquired, else
  with room for the token and its terminator, filled by \<open>strcpy\<close>.
\<close>

definition TokenSupplier :: "bool \<Rightarrow> call_result \<Rightarrow> char list waiting" where
  "TokenSupplier acquired ret =
     (if \<not> acquired then Resumed []
      else wait_for (\<lambda>r. c_str (run_token r) @ CHR 0x00 #
        drop (length (c_str (run_token r)) + 1) (replicate (length (run_token r) + 1) (CHR 0x00))) (TokenSupplierProxy ret))"

text \<open>A buffer can be read as a C string when it contains a terminator.\<close>

definition is_c_string :: "char list \<Rightarrow> bool" where
  "is_c_string buf \<longleftrightarrow> CHR 0x00 \<in> set buf"

subsection \<open>The contract\<close>

text \<open>
  A proxy invokes the callback at most once, and only leaves the thread waiting for one of the
  call's results that \<open>hangs\<close> names.
\<close>

locale blocking_proxy =
  fixes proxy :: "call_result \<Rightarrow> proxy_run"
    and hangs :: "call_result \<Rightarrow> bool"
  assumes at_most_once: "callbacks (proxy ret) \<le> 1"
    and answered: "callbacks (proxy ret) = 0 \<longleftrightarrow> hangs ret"
begin

lemma wait_result: "wait_for f (proxy ret) = (if hangs ret then WaitsForever else Resumed (f (proxy ret)))"
  using at_most_once [of ret] answered [of ret] by (auto simp: wait_for_def)

lemma no_future_error: "wait_for f (proxy ret) \<noteq> FutureError"
  by (simp add: wait_result)

end

definition never_settles :: "call_result \<Rightarrow> bool" where
  "never_settles ret \<longleftrightarrow> ret = ReturnsPromise NeverSettles"

definition not_fulfilled :: "call_result \<Rightarrow> bool" where
  "not_fulfilled ret = (case ret of
       Throws e \<Rightarrow> True
     | Returns v \<Rightarrow> False
     | ReturnsPromise p \<Rightarrow> (case p of Fulfills v \<Rightarrow> False | _ \<Rightarrow> True))"

interpretation consumer_proxy: blocking_proxy "MessageListenerProxy topic subscription" never_settles
  for topic subscription
  by unfold_locales (auto simp: proxy_defs never_settles_def Let_def split: call_result.split promise_end.split)

interpretation reader_proxy: blocking_proxy "ReaderListenerProxy reader" "\<lambda>ret. reader \<and> not_fulfilled ret"
  for reader
  by unfold_locales (auto simp: proxy_defs not_fulfilled_def Let_def split: call_result.split promise_end.split)

interpretation token_proxy: blocking_proxy TokenSupplierProxy not_fulfilled
  by unfold_locales
    (auto simp: proxy_defs not_fulfilled_def Let_def split: call_result.split promise_end.split js_value.split)

subsection \<open>Properties\<close>

text \<open>
  A consumer's listener thread is released exactly once for every message, whatever the
  listener does (returns, throws, fulfils or rejects a promise), except that a promise that
  never settles blocks it; an error of the listener is logged with topic and subscription.
\<close>

theorem message_listener_released:
  "MessageListener True True topic subscription ret =
     Some (if never_settles ret then WaitsForever else Resumed (MessageListenerProxy topic subscription ret)) \<and>
   logged (MessageListenerProxy topic subscription ret) = (case ret of
       Throws err \<Rightarrow> [logMessageListenerError topic subscription err]
     | ReturnsPromise (Rejects err) \<Rightarrow> [logMessageListenerError topic subscription err]
     | _ \<Rightarrow> []) \<and>
   unhandled (MessageListenerProxy topic subscription ret) = None"
  unfolding MessageListener_def consumer_proxy.wait_result
  by (simp add: proxy_defs Let_def split: call_result.split promise_end.split)

text \<open>
  C37. The reader's listener thread, in contrast, is released only when the listener returns
  or its promise is fulfilled: a listener that throws or rejects blocks the thread for good, and
  a message that arrives before the reader is set is dropped without calling the listener.
\<close>

theorem reader_listener_blocks_on_error:
  "(ReaderListener True True ret = Some WaitsForever \<longleftrightarrow> not_fulfilled ret) \<and>
   ReaderListener True True (Throws err) = Some WaitsForever \<and>
   ReaderListener True False ret = Some (Resumed (invoke_callback idle_run)) \<and>
   \<not> js_called (invoke_callback idle_run)"
  unfolding ReaderListener_def reader_proxy.wait_result
  by (simp add: not_fulfilled_def ReaderListenerProxy_def) (simp add: proxy_defs)

text \<open>
  C38. The buffer the token supplier returns holds the string the JavaScript function returned or its
  promise was fulfilled with (up to the first NUL), and the empty string for a value that is no
  string. It is a C string exactly when the thread-safe function could be acquired; otherwise the
  buffer has no terminator. A supplier that throws or rejects blocks the caller.
\<close>

theorem token_supplier_buffer:
  "(TokenSupplier acquired ret = WaitsForever \<longleftrightarrow> acquired \<and> not_fulfilled ret) \<and>
   (\<exists>buf. TokenSupplier True (Returns v) = Resumed buf \<and> is_c_string buf \<and>
      c_str buf = (case v of JString t \<Rightarrow> c_str t | _ \<Rightarrow> '''')) \<and>
   TokenSupplier True (ReturnsPromise (Fulfills v)) = TokenSupplier True (Returns v) \<and>
   (\<exists>buf. TokenSupplier False ret = Resumed buf \<and> \<not> is_c_string buf)"
proof (intro conjI)
  show "TokenSupplier acquired ret = WaitsForever \<longleftrightarrow> acquired \<and> not_fulfilled ret"
    by (simp add: TokenSupplier_def token_proxy.wait_result)
  have t: "TokenSupplierProxy (ReturnsPromise (Fulfills v)) = TokenSupplierProxy (Returns v)"
    by (simp add: TokenSupplierProxy_def)
  show "TokenSupplier True (ReturnsPromise (Fulfills v)) = TokenSupplier True (Returns v)"
    by (simp add: TokenSupplier_def t)
  have tok: "run_token (TokenSupplierProxy (Returns v)) = (case v of JString t \<Rightarrow> t | _ \<Rightarrow> '''')"
    by (simp add: proxy_defs split: js_value.split)
  let ?t = "run_token (TokenSupplierProxy (Returns v))"
  have "c_str (c_str ?t @ CHR 0x00 # xs) = c_str ?t" for xs
    by (simp add: c_str_def takeWhile_tail)
  moreover have "c_str ?t = (case v of JString t \<Rightarrow> c_str t | _ \<Rightarrow> '''')"
    unfolding tok by (cases v) simp_all
  ultimately show "\<exists>buf. TokenSupplier True (Returns v) = Resumed buf \<and> is_c_string buf \<and>
      c_str buf = (case v of JString t \<Rightarrow> c_str t | _ \<Rightarrow> '''')"
    by (simp add: TokenSupplier_def token_proxy.wait_result not_fulfilled_def is_c_string_def)
qed (simp add: TokenSupplier_def is_c_string_def)

end
