(* ===== verification/Crypto_Key_Reader.thy ===== *)
theory Crypto_Key_Reader
  imports Callback
begin

section \<open>CryptoKeyReader\<close>

text \<open>
  \<open>src/CryptoKeyReader.cc\<close>: the C client asks for a public or private key by calling a method
  of a JavaScript object, directly on the JavaScript thread and through a thread-safe function
  from any other. \<open>call_js\<close> stands for the method: what calling the function with these
  arguments gives. The lemmas say exactly when a key is reported and which.
\<close>

datatype crypto_result = ResultOk | ResultCryptoError

record encryption_key_info =
  key_data :: bytes
  key_metadata :: "(string, string) smap"

type_synonym js_method = "nat \<Rightarrow> js_value list \<Rightarrow> call_result"

definition parseEncryptionKeyInfo :: "napi \<Rightarrow> js_value \<Rightarrow> encryption_key_info \<Rightarrow> encryption_key_info" where
  "parseEncryptionKeyInfo N obj info =
     (let info1 = (case get_buffer obj ''key'' of None \<Rightarrow> info | Some b \<Rightarrow> info\<lparr>key_data := b\<rparr>) in
      case get_object obj ''metadata'' of
        None \<Rightarrow> info1
      | Some metaObj \<Rightarrow> info1\<lparr>key_metadata := smap_of (string_properties N metaObj)\<rparr>)"

text \<open>A returned promise is an object without the properties looked for.\<close>

definition callJsMethod :: "napi \<Rightarrow> js_method \<Rightarrow> js_value option \<Rightarrow> string \<Rightarrow> string \<Rightarrow> (string, string) smap \<Rightarrow>
    encryption_key_info \<Rightarrow> crypto_result \<times> encryption_key_info" where
  "callJsMethod N call_js jsObject method keyName metadata info = (case jsObject of
       None \<Rightarrow> (ResultCryptoError, info)
     | Some obj \<Rightarrow>
         (if \<not> Has obj method then (ResultCryptoError, info)
          else (case Get obj method of
              JFunction func \<Rightarrow>
                (let metadataObj = JObject (fold (\<lambda>(k, v). Set_string k v) metadata []) in
                 case call_js func [JString keyName, metadataObj] of
                   Throws e \<Rightarrow> (ResultCryptoError, info)
                 | Returns result \<Rightarrow>
                     (if IsObject result then (ResultOk, parseEncryptionKeyInfo N result info)
                      else (ResultCryptoError, info))
                 | ReturnsPromise p \<Rightarrow> (ResultOk, parseEncryptionKeyInfo N (JObject []) info))
            | _ \<Rightarrow> (ResultCryptoError, info))))"

text \<open>
  \<open>queued\<close> is whether the thread-safe function accepts the call; the queued function
  fulfils the promise with the result of \<open>callJsMethod\<close>, for which the caller waits.
\<close>

definition executeCallback :: "napi \<Rightarrow> js_method \<Rightarrow> js_value option \<Rightarrow> bool \<Rightarrow> bool \<Rightarrow> string \<Rightarrow> string \<Rightarrow>
    (string, string) smap \<Rightarrow> encryption_key_info \<Rightarrow> crypto_result \<times> encryption_key_info" where
  "executeCallback N call_js jsObject main_thread queued method keyName metadata info =
     (if main_thread then callJsMethod N call_js jsObject method keyName metadata info
      else if \<not> queued then (ResultCryptoError, info)
      else callJsMethod N call_js jsObject method keyName metadata info)"

definition getPublicKey where
  "getPublicKey N call_js jsObject main_thread queued = executeCallback N call_js jsObject main_thread queued ''getPublicKey''"

definition getPrivateKey where
  "getPrivateKey N call_js jsObject main_thread queued = executeCallback N call_js jsObject main_thread queued ''getPrivateKey''"

subsection \<open>The wrapper the C client holds\<close>

text \<open>
  The configurations hand the C client a shared wrapper of the JavaScript object: a reference on the
  object, a thread-safe function with one user, and the thread it was made on, by which
  \<open>executeCallback\<close> decides. Whoever drops the last pointer runs the destructor, which releases the
  function and, with its member, deletes the reference; N-API allows the latter on the JavaScript
  thread only.
\<close>

record key_reader_wrapper =
  wr_jsObject :: "js_value option"
  wr_tsfn :: nat
  wr_mainThreadId :: nat

definition CryptoKeyReaderWrapper :: "nat \<Rightarrow> js_value \<Rightarrow> key_reader_wrapper" where
  "CryptoKeyReaderWrapper this_thread jsObject = \<lparr>wr_jsObject = Some jsObject, wr_tsfn = 1, wr_mainThreadId = this_thread\<rparr>"

definition GetCCryptoKeyReader :: "nat \<Rightarrow> js_value \<Rightarrow> key_reader_wrapper" where
  "GetCCryptoKeyReader this_thread this = CryptoKeyReaderWrapper this_thread this"

definition wrapper_getPublicKey :: "napi \<Rightarrow> js_method \<Rightarrow> nat \<Rightarrow> bool \<Rightarrow> key_reader_wrapper \<Rightarrow> string \<Rightarrow> (string, string) smap \<Rightarrow>
    encryption_key_info \<Rightarrow> crypto_result \<times> encryption_key_info" where
  "wrapper_getPublicKey N call_js this_thread queued w = getPublicKey N call_js (wr_jsObject w) (this_thread = wr_mainThreadId w) queued"

definition destroy_CryptoKeyReaderWrapper :: "nat \<Rightarrow> key_reader_wrapper \<Rightarrow> exn + key_reader_wrapper" where
  "destroy_CryptoKeyReaderWrapper this_thread w =
     (if this_thread = wr_mainThreadId w then Inr (w\<lparr>wr_tsfn := wr_tsfn w - 1, wr_jsObject := None\<rparr>)
      else Inl (UndefinedBehaviour ''reference deleted off the JavaScript thread''))"

subsection \<open>Properties\<close>

text \<open>
  The object a key reader returns for a key, and the method's result for it.
\<close>

definition key_object_of :: "bytes \<Rightarrow> (string, string) smap \<Rightarrow> js_value" where
  "key_object_of b m = JObject [(''key'', JBuffer b), (''metadata'', JObject (map (\<lambda>(k, v). (k, JString v)) m))]"

lemma parse_key_object:
  assumes "smap_wf m"
  shows "parseEncryptionKeyInfo N (key_object_of b m) info = info\<lparr>key_data := b, key_metadata := m\<rparr>"
proof -
  have "string_properties N (JObject (map (\<lambda>(k, v). (k, JString v)) m)) = m"
    by (rule string_properties_strings) (rule smap_wf_distinct [OF assms])
  with assms show ?thesis
    by (simp add: parseEncryptionKeyInfo_def key_object_of_def getter_defs is_defs Has_def Get_def)
qed



text \<open>
  Every way a key request can fail leaves the key information as it was and reports a
  crypto error; the only results are success and this error.
\<close>

theorem key_reader_failure_keeps_info:
  "fst (getPrivateKey N call_js jsObject main_thread queued keyName metadata info) = ResultCryptoError \<longrightarrow>
   snd (getPrivateKey N call_js jsObject main_thread queued keyName metadata info) = info"
  by (auto simp: getPrivateKey_def executeCallback_def callJsMethod_def Let_def
      split: option.split js_value.split call_result.split)

theorem key_reader_failure_keeps_info_witness:
  "snd (getPrivateKey napi_ref (\<lambda>f args. Throws ''no key'') (Some (JObject [(''getPrivateKey'', JFunction 4)]))
     True False ''k'' [] \<lparr>key_data = ''old'', key_metadata = []\<rparr>) = \<lparr>key_data = ''old'', key_metadata = []\<rparr>"
proof -
  have "fst (getPrivateKey napi_ref (\<lambda>f args. Throws ''no key'') (Some (JObject [(''getPrivateKey'', JFunction 4)]))
     True False ''k'' [] \<lparr>key_data = ''old'', key_metadata = []\<rparr>) = ResultCryptoError"
    by (simp add: getPrivateKey_def executeCallback_def callJsMethod_def Has_def Get_def)
  then show ?thesis using key_reader_failure_keeps_info by blast
qed

text \<open>
  A wrapper made on the JavaScript thread can be asked for keys on every thread, but is destroyed
  without undefined behaviour only on the JavaScript thread; there it gives back all it holds.
\<close>

theorem key_reader_wrapper_bound_to_thread:
  "destroy_CryptoKeyReaderWrapper t (GetCCryptoKeyReader main obj) =
     (if t = main then Inr \<lparr>wr_jsObject = None, wr_tsfn = 0, wr_mainThreadId = main\<rparr>
      else Inl (UndefinedBehaviour ''reference deleted off the JavaScript thread'')) \<and>
   wrapper_getPublicKey N call_js t True (GetCCryptoKeyReader main obj) =
     callJsMethod N call_js (Some obj) ''getPublicKey''"
  by (auto simp: destroy_CryptoKeyReaderWrapper_def GetCCryptoKeyReader_def CryptoKeyReaderWrapper_def wrapper_getPublicKey_def
      getPublicKey_def executeCallback_def fun_eq_iff)

end
