(* ===== verification/Listener.thy ===== *)
theory Listener
  imports Callback
begin

section \<open>Listener callbacks: ownership\<close>

text \<open>
  The parts of \<open>src/Consumer.cc\<close> and \<open>src/Reader.cc\<close> that own a listener: a
  structure with a thread-safe function, created by the configuration with one user and handed to the
  consumer or reader object once that exists; cleaning up gives that use back.
  The lemmas show that what an object was given and has not released is what it holds. How threads of
  the C client use the structure meanwhile is in the theory \<open>Delivery\<close>.
\<close>

subsection \<open>Consumer and reader objects\<close>

text \<open>
  \<open>refs\<close> counts the references the object holds on itself (\<open>Ref\<close>, \<open>Unref\<close>);
  \<open>released\<close> collects the listeners whose function \<open>Cleanup\<close> released, \<open>paused\<close>
  tells whether it paused the C client's listener.
\<close>

record client_object =
  c_object :: "ptr option"
  obj_listener :: "nat option"
  refs :: nat
  released :: "nat list"
  paused :: bool

definition new_object :: "ptr \<Rightarrow> client_object" where
  "new_object p = \<lparr>c_object = Some p, obj_listener = None, refs = 0, released = [], paused = False\<rparr>"

definition SetListenerCallback :: "nat option \<Rightarrow> client_object \<Rightarrow> client_object" where
  "SetListenerCallback listener o' =
     (if obj_listener o' \<noteq> None then o'
      else (case listener of
          None \<Rightarrow> o'
        | Some l \<Rightarrow> o'\<lparr>refs := Suc (refs o'), obj_listener := Some l\<rparr>))"

text \<open>The reader's differs in how the listener learns of the object, which is in the theory \<open>Delivery\<close>.\<close>

definition reader_SetListenerCallback :: "nat option \<Rightarrow> client_object \<Rightarrow> client_object" where
  "reader_SetListenerCallback listener o' =
     (if obj_listener o' \<noteq> None then o'
      else (case listener of
          None \<Rightarrow> o'
        | Some l \<Rightarrow> o'\<lparr>refs := Suc (refs o'), obj_listener := Some l\<rparr>))"

lemma reader_SetListenerCallback_same [simp]: "reader_SetListenerCallback = SetListenerCallback"
  by (simp add: fun_eq_iff reader_SetListenerCallback_def SetListenerCallback_def)

definition consumer_Cleanup :: "client_object \<Rightarrow> client_object" where
  "consumer_Cleanup o' = (case obj_listener o' of
       None \<Rightarrow> o'
     | Some l \<Rightarrow> o'\<lparr>paused := True, released := released o' @ [l], obj_listener := None, refs := refs o' - 1\<rparr>)"

definition reader_Cleanup :: "client_object \<Rightarrow> client_object" where
  "reader_Cleanup o' = (case obj_listener o' of
       None \<Rightarrow> o'
     | Some l \<Rightarrow> o'\<lparr>released := released o' @ [l], refs := refs o' - 1, obj_listener := None\<rparr>)"

text \<open>
  Any sequence of the operations that touch the listener: setting it (with any argument), closing
  and, at the end, the destructor, which both clean up.
\<close>

datatype object_event = ESetListener "nat option" | ECleanup

primrec object_step :: "(client_object \<Rightarrow> client_object) \<Rightarrow> object_event \<Rightarrow> client_object \<Rightarrow> client_object" where
  "object_step cleanup (ESetListener l) o' = SetListenerCallback l o'"
| "object_step cleanup ECleanup o' = cleanup o'"

definition object_run :: "(client_object \<Rightarrow> client_object) \<Rightarrow> object_event list \<Rightarrow> client_object \<Rightarrow> client_object" where
  "object_run cleanup es o' = fold (object_step cleanup) es o'"

definition set_events :: "object_event list \<Rightarrow> nat list" where
  "set_events es = [l. ESetListener (Some l) \<leftarrow> es]"

definition ledger :: "client_object \<Rightarrow> nat list" where
  "ledger o' = released o' @ (case obj_listener o' of None \<Rightarrow> [] | Some l \<Rightarrow> [l])"

text \<open>
  The contract of the two classes: cleaning up releases the listener the object holds, if any, once,
  and balances the reference. What an object was given and has not released is what it holds.
\<close>

locale listener_owner =
  fixes cleanup :: "client_object \<Rightarrow> client_object"
  assumes cleanup_none: "obj_listener o' = None \<Longrightarrow> cleanup o' = o'"
    and cleanup_some: "obj_listener o' = Some l \<Longrightarrow>
      released (cleanup o') = released o' @ [l] \<and> obj_listener (cleanup o') = None \<and> refs (cleanup o') = refs o' - 1"
begin

definition owner_inv :: "client_object \<Rightarrow> bool" where
  "owner_inv o' \<longleftrightarrow> refs o' = (if obj_listener o' = None then 0 else 1)"

lemma step_inv: "owner_inv o' \<Longrightarrow> owner_inv (object_step cleanup e o')"
  using cleanup_none [of o'] cleanup_some [of o']
  by (cases e; cases "obj_listener o'") (auto simp: owner_inv_def SetListenerCallback_def split: option.split)

lemma run_inv: "owner_inv o' \<Longrightarrow> owner_inv (object_run cleanup es o')"
  unfolding object_run_def by (induction es arbitrary: o') (auto intro: step_inv)

lemma cleanup_empty: "obj_listener (cleanup o') = None"
  using cleanup_none [of o'] cleanup_some [of o'] by (cases "obj_listener o'") auto

lemma cleanup_idem: "cleanup (cleanup o') = cleanup o'"
  by (rule cleanup_none) (rule cleanup_empty)

text \<open>Released and held listeners, in order, are those the object took over.\<close>

lemma step_ledger:
  "\<exists>xs. ledger (object_step cleanup e o') =
     ledger o' @ xs \<and> subseq xs (set_events [e])"
proof (cases e)
  case (ESetListener l)
  then show ?thesis
    by (cases l; cases "obj_listener o'") (auto simp: SetListenerCallback_def set_events_def ledger_def)
next
  case ECleanup
  then show ?thesis using cleanup_none [of o'] cleanup_some [of o']
    by (cases "obj_listener o'") (auto simp: set_events_def ledger_def)
qed

lemma run_ledger:
  "\<exists>xs. ledger (object_run cleanup es o') =
     ledger o' @ xs \<and> subseq xs (set_events es)"
proof (induction es arbitrary: o')
  case Nil
  then show ?case by (simp add: object_run_def set_events_def)
next
  case (Cons e es)
  let ?o = "object_step cleanup e o'"
  have r: "object_run cleanup (e # es) o' = object_run cleanup es ?o" by (simp add: object_run_def)
  have "set_events (e # es) = set_events [e] @ set_events es" by (simp add: set_events_def)
  moreover obtain xs ys where "ledger ?o = ledger o' @ xs" "subseq xs (set_events [e])"
    "ledger (object_run cleanup es ?o) = ledger ?o @ ys" "subseq ys (set_events es)"
    using step_ledger [of e o'] Cons.IH [of ?o] by blast
  ultimately show ?case unfolding r
    by (intro exI [of _ "xs @ ys"]) (simp add: list_emb_append_mono)
qed

text \<open>
  An object that was given distinct listeners releases each at most once, and after a final
  clean-up holds none: it has released exactly those it took over.
\<close>

lemma released_once:
  assumes "distinct (set_events es)" and "obj_listener o' = None" and "released o' = []"
  shows "distinct (released (object_run cleanup es o'))"
proof -
  obtain xs where "ledger (object_run cleanup es o') = xs" and "subseq xs (set_events es)"
    using run_ledger [of es o'] assms(2,3) by (auto simp: ledger_def)
  moreover from this(2) assms(1) have "distinct xs" by (auto simp: subseq_conv_nths intro: distinct_nthsI)
  ultimately show ?thesis by (metis distinct_append ledger_def)
qed

end

interpretation consumer_owner: listener_owner consumer_Cleanup
  by unfold_locales (auto simp: consumer_Cleanup_def)

interpretation reader_owner: listener_owner reader_Cleanup
  by unfold_locales (auto simp: reader_Cleanup_def)

subsection \<open>Properties\<close>

text \<open>
  A consumer or reader object that is given distinct listeners, in any order with closing
  and destruction, releases each listener at most once, never holds more than one reference on
  itself and, after a clean-up, none.
\<close>

theorem listener_released_once:
  assumes "distinct (set_events es)"
  shows "distinct (released (object_run consumer_Cleanup es (new_object p))) \<and>
    distinct (released (object_run reader_Cleanup es (new_object p))) \<and>
    refs (object_run consumer_Cleanup (es @ [ECleanup]) (new_object p)) = 0 \<and>
    refs (object_run reader_Cleanup (es @ [ECleanup]) (new_object p)) = 0"
proof (intro conjI)
  have new: "obj_listener (new_object p) = None" "released (new_object p) = []"
    "consumer_owner.owner_inv (new_object p)" "reader_owner.owner_inv (new_object p)"
    by (simp_all add: new_object_def consumer_owner.owner_inv_def reader_owner.owner_inv_def)
  show "distinct (released (object_run consumer_Cleanup es (new_object p)))"
    by (rule consumer_owner.released_once [OF assms new(1,2)])
  show "distinct (released (object_run reader_Cleanup es (new_object p)))"
    by (rule reader_owner.released_once [OF assms new(1,2)])
  show "refs (object_run consumer_Cleanup (es @ [ECleanup]) (new_object p)) = 0"
    using consumer_owner.run_inv [OF new(3), of "es @ [ECleanup]"]
    by (simp add: consumer_owner.owner_inv_def object_run_def consumer_owner.cleanup_empty)
  show "refs (object_run reader_Cleanup (es @ [ECleanup]) (new_object p)) = 0"
    using reader_owner.run_inv [OF new(4), of "es @ [ECleanup]"]
    by (simp add: reader_owner.owner_inv_def object_run_def reader_owner.cleanup_empty)
qed

theorem listener_released_once_witness:
  "distinct (released (object_run consumer_Cleanup [ESetListener (Some 1), ECleanup, ECleanup] (new_object 5)))"
proof -
  have "distinct (set_events [ESetListener (Some 1), ECleanup, ECleanup])" by (simp add: set_events_def)
  from listener_released_once [OF this, of 5] show ?thesis by blast
qed

end
