(* ===== verification/Delivery.thy ===== *)
theory Delivery
  imports Listener
begin

section \<open>Delivery of messages to a listener\<close>

text \<open>
  \<open>MessageListener\<close> and \<open>ReaderListener\<close> run on threads of the C client while the
  JavaScript thread closes and destroys the object they deliver to. The machine below has one step for
  each access to the structure of the listener or to the object: a thread reads the pointer to the
  object out of the structure, acquires the thread-safe function, queues a call, releases the function;
  the JavaScript thread runs a queued call, which uses the object, closes the object, destroys it, and
  deletes the structure when its function has no users left.
  The locale \<open>pausing_owner\<close> states what closing has to do. For a consumer it follows that
  nothing deleted is ever used if closing and destruction wait for deliveries under way; the code does
  not wait, and the theorems show what then happens. A reader does not pause at all, and its threads do
  not wait for the reader to exist. A \<open>schedule\<close> names the steps of a run, for the theorems that
  exhibit one.
\<close>

subsection \<open>State\<close>

text \<open>
  A thread of the C client: how far it has come, and whether the pointer to the object it has read is
  set. \<open>Finished\<close> includes waiting for the call to have run.
\<close>

datatype stage = Entered | Acquired | Called | Finished

text \<open>
  \<open>dl_object\<close> is the object once it exists, \<open>dl_alive\<close> whether it is not destroyed yet;
  \<open>dl_present\<close> whether the structure is allocated and \<open>dl_users\<close> the count of its
  thread-safe function; \<open>dl_queue\<close> are the calls queued, each with its pointer to the object.
\<close>

record delivery =
  dl_object :: "client_object option"
  dl_alive :: bool
  dl_present :: bool
  dl_users :: nat
  dl_threads :: "(stage \<times> bool) list"
  dl_queue :: "bool list"

text \<open>The configuration has created the structure, with one user; no object exists yet.\<close>

definition fresh_delivery :: delivery where
  "fresh_delivery = \<lparr>dl_object = None, dl_alive = True, dl_present = True, dl_users = 1, dl_threads = [], dl_queue = []\<rparr>"

definition listener_deleted :: exn where
  "listener_deleted = UndefinedBehaviour ''listener used after it was deleted''"

definition object_destroyed :: exn where
  "object_destroyed = UndefinedBehaviour ''object used after it was destroyed''"

subsection \<open>Threads of the C client\<close>

definition at_structure :: "delivery \<Rightarrow> delivery \<Rightarrow> exn + delivery" where
  "at_structure s s' = (if dl_present s then Inr s' else Inl listener_deleted)"

definition begin_delivery :: "delivery \<Rightarrow> exn + delivery" where
  "begin_delivery s = at_structure s (s\<lparr>dl_threads := dl_threads s @ [(Entered, dl_object s \<noteq> None)]\<rparr>)"

definition set_stage :: "nat \<Rightarrow> stage \<Rightarrow> delivery \<Rightarrow> delivery" where
  "set_stage i g s = s\<lparr>dl_threads := (dl_threads s)[i := (g, snd (dl_threads s ! i))]\<rparr>"

definition acquire_function :: "nat \<Rightarrow> delivery \<Rightarrow> exn + delivery" where
  "acquire_function i s = at_structure s (set_stage i Acquired (s\<lparr>dl_users := Suc (dl_users s)\<rparr>))"

definition acquire_refused :: "nat \<Rightarrow> delivery \<Rightarrow> exn + delivery" where
  "acquire_refused i s = at_structure s (set_stage i Finished s)"

definition queue_call :: "nat \<Rightarrow> delivery \<Rightarrow> exn + delivery" where
  "queue_call i s = at_structure s (set_stage i Called (s\<lparr>dl_queue := dl_queue s @ [snd (dl_threads s ! i)]\<rparr>))"

definition release_function :: "nat \<Rightarrow> delivery \<Rightarrow> exn + delivery" where
  "release_function i s = at_structure s (set_stage i Finished (s\<lparr>dl_users := dl_users s - 1\<rparr>))"

subsection \<open>The JavaScript thread\<close>

definition create_object :: "nat \<Rightarrow> ptr \<Rightarrow> delivery \<Rightarrow> delivery" where
  "create_object l p s = s\<lparr>dl_object := Some (SetListenerCallback (Some l) (new_object p))\<rparr>"

text \<open>The proxy uses the object its pointer leads to; the reader's proxy skips a null pointer.\<close>

definition run_call :: "delivery \<Rightarrow> exn + delivery" where
  "run_call s = (case dl_queue s of
       [] \<Rightarrow> Inr s
     | t # q \<Rightarrow> (if t \<and> \<not> dl_alive s then Inl object_destroyed else Inr (s\<lparr>dl_queue := q\<rparr>)))"

text \<open>Cleaning up gives back one use of the function for each listener it releases.\<close>

definition clean_up :: "(client_object \<Rightarrow> client_object) \<Rightarrow> delivery \<Rightarrow> delivery" where
  "clean_up cleanup s = (case dl_object s of
       None \<Rightarrow> s
     | Some o' \<Rightarrow> s\<lparr>dl_object := Some (cleanup o'),
         dl_users := dl_users s - (length (released (cleanup o')) - length (released o'))\<rparr>)"

definition destroy_object :: "(client_object \<Rightarrow> client_object) \<Rightarrow> delivery \<Rightarrow> delivery" where
  "destroy_object cleanup s = (clean_up cleanup s)\<lparr>dl_alive := False\<rparr>"

definition FinalizeListenerCallback :: "delivery \<Rightarrow> delivery" where
  "FinalizeListenerCallback s = s\<lparr>dl_present := False\<rparr>"

lemmas delivery_defs = at_structure_def begin_delivery_def set_stage_def acquire_function_def acquire_refused_def
  queue_call_def release_function_def create_object_def run_call_def clean_up_def destroy_object_def
  FinalizeListenerCallback_def

subsection \<open>The machine\<close>

text \<open>The C client starts no delivery to an object whose clean-up has paused the listener.\<close>

definition is_paused :: "delivery \<Rightarrow> bool" where
  "is_paused s = (case dl_object s of None \<Rightarrow> False | Some o' \<Rightarrow> paused o')"

definition idle :: "delivery \<Rightarrow> bool" where
  "idle s \<longleftrightarrow> (\<forall>t \<in> set (dl_threads s). fst t = Finished) \<and> dl_queue s = []"

text \<open>
  \<open>waits\<close>: a delivery waits for the object to exist (\<open>consumerFuture.get()\<close>), else it reads a
  null pointer. \<open>quiet\<close>: the object is closed and destroyed only when no delivery is under way.
  An object is destroyed when it holds no reference on itself and JavaScript has dropped it. Acquiring a
  function without users may be refused, and a thread that queues a call blocks while another call is
  queued, since the functions are created with a queue of size 1.
\<close>

inductive delivery_step :: "(client_object \<Rightarrow> client_object) \<Rightarrow> bool \<Rightarrow> bool \<Rightarrow> delivery \<Rightarrow> exn + delivery \<Rightarrow> bool"
  for cleanup waits quiet where
  create: "dl_object s = None \<Longrightarrow> delivery_step cleanup waits quiet s (Inr (create_object l p s))"
| begin_delivery: "\<not> is_paused s \<Longrightarrow> waits \<longrightarrow> dl_object s \<noteq> None \<Longrightarrow> delivery_step cleanup waits quiet s (begin_delivery s)"
| acquire: "i < length (dl_threads s) \<Longrightarrow> fst (dl_threads s ! i) = Entered \<Longrightarrow>
    delivery_step cleanup waits quiet s (acquire_function i s)"
| refuse: "i < length (dl_threads s) \<Longrightarrow> fst (dl_threads s ! i) = Entered \<Longrightarrow> dl_users s = 0 \<Longrightarrow>
    delivery_step cleanup waits quiet s (acquire_refused i s)"
| enqueue: "i < length (dl_threads s) \<Longrightarrow> fst (dl_threads s ! i) = Acquired \<Longrightarrow> dl_queue s = [] \<Longrightarrow>
    delivery_step cleanup waits quiet s (queue_call i s)"
| release: "i < length (dl_threads s) \<Longrightarrow> fst (dl_threads s ! i) = Called \<Longrightarrow>
    delivery_step cleanup waits quiet s (release_function i s)"
| run: "dl_queue s \<noteq> [] \<Longrightarrow> delivery_step cleanup waits quiet s (run_call s)"
| close: "dl_alive s \<Longrightarrow> dl_object s \<noteq> None \<Longrightarrow> quiet \<longrightarrow> idle s \<Longrightarrow>
    delivery_step cleanup waits quiet s (Inr (clean_up cleanup s))"
| destroy: "dl_alive s \<Longrightarrow> dl_object s = Some o' \<Longrightarrow> refs o' = 0 \<Longrightarrow> quiet \<longrightarrow> idle s \<Longrightarrow>
    delivery_step cleanup waits quiet s (Inr (destroy_object cleanup s))"
| finalize: "dl_users s = 0 \<Longrightarrow> dl_queue s = [] \<Longrightarrow> dl_present s \<Longrightarrow>
    delivery_step cleanup waits quiet s (Inr (FinalizeListenerCallback s))"

inductive delivery_reachable :: "(client_object \<Rightarrow> client_object) \<Rightarrow> bool \<Rightarrow> bool \<Rightarrow> delivery \<Rightarrow> bool"
  for cleanup waits quiet where
  start: "delivery_reachable cleanup waits quiet fresh_delivery"
| step: "delivery_reachable cleanup waits quiet s \<Longrightarrow> delivery_step cleanup waits quiet s (Inr s') \<Longrightarrow>
    delivery_reachable cleanup waits quiet s'"

subsection \<open>Invariant\<close>

text \<open>The use of the function that belongs to the configuration or the object, until it is given back.\<close>

definition owned :: "delivery \<Rightarrow> bool" where
  "owned s = (case dl_object s of None \<Rightarrow> True | Some o' \<Rightarrow> obj_listener o' \<noteq> None)"

definition inside :: "stage \<times> bool \<Rightarrow> bool" where
  "inside t \<longleftrightarrow> fst t = Acquired \<or> fst t = Called"

definition counts_ok :: "delivery \<Rightarrow> bool" where
  "counts_ok s \<longleftrightarrow> dl_users s = length (filter inside (dl_threads s)) + of_bool (owned s)"

definition object_ok :: "delivery \<Rightarrow> bool" where
  "object_ok s = (case dl_object s of
       None \<Rightarrow> dl_alive s
     | Some o' \<Rightarrow> refs o' = of_bool (obj_listener o' \<noteq> None) \<and> (\<not> dl_alive s \<longrightarrow> obj_listener o' = None))"

text \<open>Replacing the stage of a thread changes the count by at most that thread.\<close>

lemma filter_update_length:
  "i < length xs \<Longrightarrow> length (filter P (xs[i := x])) + of_bool (P (xs ! i)) = length (filter P xs) + of_bool (P x)"
proof (induction xs arbitrary: i)
  case (Cons y xs)
  show ?case
  proof (cases i)
    case (Suc j)
    with Cons.IH [of j] Cons.prems show ?thesis by simp
  qed simp
qed simp

lemma inside_counted: "i < length xs \<Longrightarrow> inside (xs ! i) \<Longrightarrow> 0 < length (filter inside xs)"
  by (auto simp: length_filter_conv_card card_gt_0_iff)

definition delivery_inv :: "delivery \<Rightarrow> bool" where
  "delivery_inv s \<longleftrightarrow> counts_ok s \<and> object_ok s \<and> (\<not> dl_present s \<longrightarrow> dl_users s = 0)"

lemmas delivery_inv_defs = delivery_inv_def counts_ok_def object_ok_def owned_def

lemma delivery_inv_fresh: "delivery_inv fresh_delivery"
  by (simp add: delivery_inv_defs fresh_delivery_def)

text \<open>A step of a thread: the object stays as it is, and the count follows the stage.\<close>

lemma thread_step_inv:
  assumes "delivery_inv s" and "i < length (dl_threads s)" and "dl_present s"
    and "n + of_bool (inside (dl_threads s ! i)) = dl_users s + of_bool (inside (g, snd (dl_threads s ! i)))"
  shows "delivery_inv (set_stage i g (s\<lparr>dl_users := n, dl_queue := q\<rparr>))"
proof -
  have "length (filter inside ((dl_threads s)[i := (g, snd (dl_threads s ! i))])) + of_bool (inside (dl_threads s ! i)) =
      length (filter inside (dl_threads s)) + of_bool (inside (g, snd (dl_threads s ! i)))"
    by (rule filter_update_length [OF assms(2)])
  with assms show ?thesis by (cases "dl_object s") (simp_all add: delivery_inv_defs set_stage_def)
qed

lemma at_structure_Inr:
  "at_structure s t = Inr s' \<longleftrightarrow> dl_present s \<and> s' = t" "Inr s' = at_structure s t \<longleftrightarrow> dl_present s \<and> s' = t"
  by (auto simp: at_structure_def)

lemma inside_users: "delivery_inv s \<Longrightarrow> i < length (dl_threads s) \<Longrightarrow> inside (dl_threads s ! i) \<Longrightarrow> 0 < dl_users s"
  using inside_counted [of i "dl_threads s"] by (simp add: delivery_inv_defs)

lemma threads_inv:
  assumes "delivery_inv s" and "i < length (dl_threads s)"
  shows "fst (dl_threads s ! i) = Entered \<Longrightarrow> acquire_function i s = Inr s' \<Longrightarrow> delivery_inv s'"
    and "fst (dl_threads s ! i) = Entered \<Longrightarrow> acquire_refused i s = Inr s' \<Longrightarrow> delivery_inv s'"
    and "fst (dl_threads s ! i) = Acquired \<Longrightarrow> queue_call i s = Inr s' \<Longrightarrow> delivery_inv s'"
    and "fst (dl_threads s ! i) = Called \<Longrightarrow> release_function i s = Inr s' \<Longrightarrow> delivery_inv s'"
  using thread_step_inv [OF assms, where n = "Suc (dl_users s)" and g = Acquired and q = "dl_queue s"]
    thread_step_inv [OF assms, where n = "dl_users s" and g = Finished and q = "dl_queue s"]
    thread_step_inv [OF assms, where n = "dl_users s" and g = Called and q = "dl_queue s @ [snd (dl_threads s ! i)]"]
    thread_step_inv [OF assms, where n = "dl_users s - 1" and g = Finished and q = "dl_queue s"]
    inside_users [OF assms]
  by (auto simp: acquire_function_def acquire_refused_def queue_call_def release_function_def at_structure_Inr inside_def)

lemma other_steps_inv:
  assumes "delivery_inv s"
  shows "dl_object s = None \<Longrightarrow> delivery_inv (create_object l p s)"
    and "begin_delivery s = Inr s' \<Longrightarrow> delivery_inv s'"
    and "run_call s = Inr s' \<Longrightarrow> delivery_inv s'"
    and "dl_users s = 0 \<Longrightarrow> delivery_inv (FinalizeListenerCallback s)"
  using assms
  by (auto simp: delivery_inv_defs delivery_defs SetListenerCallback_def new_object_def inside_def
      split: list.splits if_splits option.splits)

context listener_owner
begin

lemma clean_up_inv:
  assumes "delivery_inv s"
  shows "delivery_inv (clean_up cleanup s) \<and> (\<not> owned (clean_up cleanup s) \<or> dl_object s = None)"
proof (cases "dl_object s")
  case (Some o')
  note object = this
  show ?thesis
  proof (cases "obj_listener o'")
    case None
    with object assms show ?thesis by (auto simp: delivery_inv_defs clean_up_def cleanup_none)
  next
    case (Some l)
    with object assms have "dl_present s" by (cases "dl_present s") (auto simp: delivery_inv_defs)
    with object Some assms show ?thesis by (simp add: delivery_inv_defs clean_up_def cleanup_some)
  qed
qed (use assms in \<open>simp add: clean_up_def\<close>)

lemma delivery_step_inv:
  assumes "delivery_step cleanup waits quiet s (Inr s')" and "delivery_inv s"
  shows "delivery_inv s'"
  using assms(1)
proof (cases rule: delivery_step.cases)
  case (destroy o')
  have "delivery_inv (clean_up cleanup s)" "\<not> owned (clean_up cleanup s)"
    using clean_up_inv [OF assms(2)] destroy(3) by simp_all
  with destroy show ?thesis
    by (auto simp: destroy_object_def delivery_inv_defs split: option.splits)
next
  case (create l p)
  then show ?thesis using other_steps_inv(1) [OF assms(2)] by simp
next
  case begin_delivery
  then show ?thesis using other_steps_inv(2) [OF assms(2)] by simp
next
  case (acquire i)
  then show ?thesis using threads_inv(1) [OF assms(2)] by simp
next
  case (refuse i)
  then show ?thesis using threads_inv(2) [OF assms(2)] by simp
next
  case (enqueue i)
  then show ?thesis using threads_inv(3) [OF assms(2)] by simp
next
  case (release i)
  then show ?thesis using threads_inv(4) [OF assms(2)] by simp
next
  case run
  then show ?thesis using other_steps_inv(3) [OF assms(2)] by simp
next
  case close
  then show ?thesis using clean_up_inv [OF assms(2)] by simp
next
  case finalize
  then show ?thesis using other_steps_inv(4) [OF assms(2)] by simp
qed

lemma delivery_reachable_inv: "delivery_reachable cleanup waits quiet s \<Longrightarrow> delivery_inv s"
proof (induction rule: delivery_reachable.induct)
  case start
  show ?case by (rule delivery_inv_fresh)
next
  case (step s s')
  show ?case by (rule delivery_step_inv [OF step.hyps(2) step.IH])
qed

end

subsection \<open>Closing that pauses and waits\<close>

text \<open>What a clean-up has to do besides releasing: the C client is told to deliver no more.\<close>

locale pausing_owner = listener_owner +
  assumes cleanup_pauses: "obj_listener o' = Some l \<Longrightarrow> paused (cleanup o')"
begin

definition quiet_inv :: "delivery \<Rightarrow> bool" where
  "quiet_inv s \<longleftrightarrow> \<not> owned s \<longrightarrow> idle s \<and> is_paused s"

lemma thread_not_idle:
  "i < length (dl_threads s) \<Longrightarrow> fst (dl_threads s ! i) \<noteq> Finished \<Longrightarrow> \<not> idle s"
  by (auto simp: idle_def)

lemma frame_quiet:
  "dl_object s' = dl_object s \<Longrightarrow> owned s \<Longrightarrow> quiet_inv s'"
  by (simp add: quiet_inv_def owned_def)

lemma thread_quiet:
  assumes "quiet_inv s" and "\<not> idle s" and "dl_object s' = dl_object s"
  shows "quiet_inv s'"
  using assms by (intro frame_quiet) (auto simp: quiet_inv_def)

lemma quiet_step:
  assumes "delivery_step cleanup waits True s (Inr s')" and "delivery_inv s" and "quiet_inv s"
  shows "quiet_inv s'"
  using assms(1)
proof (cases rule: delivery_step.cases)
  case (create l p)
  then show ?thesis by (simp add: quiet_inv_def owned_def create_object_def SetListenerCallback_def new_object_def)
next
  case begin_delivery
  with assms(3) have "owned s" by (auto simp: quiet_inv_def)
  with begin_delivery show ?thesis by (intro frame_quiet [of _ s]) (auto simp: begin_delivery_def at_structure_Inr)
next
  case (acquire i)
  then show ?thesis
    by (intro thread_quiet [OF assms(3) thread_not_idle]) (auto simp: acquire_function_def at_structure_Inr set_stage_def)
next
  case (refuse i)
  then show ?thesis
    by (intro thread_quiet [OF assms(3) thread_not_idle]) (auto simp: acquire_refused_def at_structure_Inr set_stage_def)
next
  case (enqueue i)
  then show ?thesis
    by (intro thread_quiet [OF assms(3) thread_not_idle]) (auto simp: queue_call_def at_structure_Inr set_stage_def)
next
  case (release i)
  then show ?thesis
    by (intro thread_quiet [OF assms(3) thread_not_idle]) (auto simp: release_function_def at_structure_Inr set_stage_def)
next
  case run
  then show ?thesis
    by (intro thread_quiet [OF assms(3)]) (auto simp: run_call_def idle_def split: list.splits if_splits)
next
  case close
  then obtain o' where o': "dl_object s = Some o'" and "idle s" "s' = clean_up cleanup s" by auto
  then show ?thesis using assms(3) cleanup_none [of o'] cleanup_pauses [of o']
    by (cases "obj_listener o'") (auto simp: quiet_inv_def clean_up_def idle_def is_paused_def owned_def)
next
  case (destroy o')
  then have "obj_listener o' = None" using assms(2) by (auto simp: delivery_inv_defs)
  with destroy assms(3) show ?thesis
    by (auto simp: quiet_inv_def destroy_object_def clean_up_def cleanup_none idle_def is_paused_def owned_def)
next
  case finalize
  with assms(3) show ?thesis
    by (simp add: quiet_inv_def FinalizeListenerCallback_def owned_def idle_def is_paused_def)
qed

lemma quiet_reachable: "delivery_reachable cleanup waits True s \<Longrightarrow> quiet_inv s"
proof (induction rule: delivery_reachable.induct)
  case start
  show ?case by (simp add: quiet_inv_def owned_def fresh_delivery_def)
next
  case (step s s')
  show ?case by (rule quiet_step [OF step.hyps(2) delivery_reachable_inv [OF step.hyps(1)] step.IH])
qed

text \<open>As long as the function is owned, the structure is there and the object is alive.\<close>

lemma owned_present: "delivery_inv s \<Longrightarrow> owned s \<Longrightarrow> dl_present s \<and> dl_alive s"
  by (auto simp: delivery_inv_defs split: option.splits)

lemma quiet_safe:
  assumes "delivery_reachable cleanup waits True s"
  shows "\<not> delivery_step cleanup waits True s (Inl e)"
proof
  note inv = delivery_reachable_inv [OF assms] and q = quiet_reachable [OF assms]
  assume "delivery_step cleanup waits True s (Inl e)"
  then have "(\<not> dl_present s \<or> \<not> dl_alive s) \<and> (\<not> idle s \<or> \<not> is_paused s)"
  proof (cases rule: delivery_step.cases)
    case run
    then show ?thesis by (auto simp: run_call_def idle_def split: list.splits if_splits)
  qed (auto simp: begin_delivery_def acquire_function_def acquire_refused_def queue_call_def release_function_def
      at_structure_def dest: thread_not_idle split: if_splits)
  with q have "owned s" by (auto simp: quiet_inv_def)
  with owned_present [OF inv this] \<open>(\<not> dl_present s \<or> \<not> dl_alive s) \<and> (\<not> idle s \<or> \<not> is_paused s)\<close> show False by blast
qed

end

interpretation consumer_pauses: pausing_owner consumer_Cleanup
  by unfold_locales (auto simp: consumer_Cleanup_def)

subsection \<open>Schedules\<close>

text \<open>Runs of the machine from the start, for the theorems that exhibit one.\<close>

lemma reach_create:
  assumes "dl_object s = None" and "delivery_reachable cleanup waits quiet s"
  shows "delivery_reachable cleanup waits quiet (create_object l p s)"
  using delivery_reachable.step [OF assms(2) delivery_step.create [OF assms(1)]] .

abbreviation created_delivery :: delivery where
  "created_delivery \<equiv> create_object 7 1 fresh_delivery"

lemma reach_created: "delivery_reachable cleanup waits quiet created_delivery"
  by (rule reach_create [OF _ delivery_reachable.start]) (simp add: fresh_delivery_def)

text \<open>The states in which something deleted is used.\<close>

lemma dangling_steps:
  "i < length (dl_threads s) \<Longrightarrow> fst (dl_threads s ! i) = Entered \<Longrightarrow> \<not> dl_present s \<Longrightarrow>
     delivery_step cleanup waits quiet s (Inl listener_deleted)"
  "dl_queue s = True # q \<Longrightarrow> \<not> dl_alive s \<Longrightarrow> delivery_step cleanup waits quiet s (Inl object_destroyed)"
  "\<not> is_paused s \<Longrightarrow> dl_object s \<noteq> None \<Longrightarrow> \<not> dl_present s \<Longrightarrow>
     delivery_step cleanup waits quiet s (Inl listener_deleted)"
proof -
  assume "i < length (dl_threads s)" "fst (dl_threads s ! i) = Entered" "\<not> dl_present s"
  then show "delivery_step cleanup waits quiet s (Inl listener_deleted)"
    using delivery_step.acquire [of i s cleanup waits quiet] by (simp add: acquire_function_def at_structure_def)
next
  assume "dl_queue s = True # q" "\<not> dl_alive s"
  then show "delivery_step cleanup waits quiet s (Inl object_destroyed)"
    using delivery_step.run [of s cleanup waits quiet] by (simp add: run_call_def)
next
  assume "\<not> is_paused s" "dl_object s \<noteq> None" "\<not> dl_present s"
  then show "delivery_step cleanup waits quiet s (Inl listener_deleted)"
    using delivery_step.begin_delivery [of s waits cleanup quiet] by (simp add: begin_delivery_def at_structure_def)
qed

text \<open>
  A schedule: the steps by name, run one after the other as far as they are enabled.
\<close>

datatype move = M_begin | M_acquire nat | M_enqueue nat | M_release nat | M_run | M_close | M_destroy | M_finalize

fun enabled :: "bool \<Rightarrow> move \<Rightarrow> delivery \<Rightarrow> bool" where
  "enabled quiet M_begin s \<longleftrightarrow> \<not> is_paused s \<and> dl_object s \<noteq> None"
| "enabled quiet (M_acquire i) s \<longleftrightarrow> i < length (dl_threads s) \<and> fst (dl_threads s ! i) = Entered"
| "enabled quiet (M_enqueue i) s \<longleftrightarrow> i < length (dl_threads s) \<and> fst (dl_threads s ! i) = Acquired \<and> dl_queue s = []"
| "enabled quiet (M_release i) s \<longleftrightarrow> i < length (dl_threads s) \<and> fst (dl_threads s ! i) = Called"
| "enabled quiet M_run s \<longleftrightarrow> dl_queue s \<noteq> []"
| "enabled quiet M_close s \<longleftrightarrow> dl_alive s \<and> dl_object s \<noteq> None \<and> (quiet \<longrightarrow> idle s)"
| "enabled quiet M_destroy s \<longleftrightarrow> dl_alive s \<and> dl_object s \<noteq> None \<and> refs (the (dl_object s)) = 0 \<and> (quiet \<longrightarrow> idle s)"
| "enabled quiet M_finalize s \<longleftrightarrow> dl_users s = 0 \<and> dl_queue s = [] \<and> dl_present s"

fun move_to :: "(client_object \<Rightarrow> client_object) \<Rightarrow> move \<Rightarrow> delivery \<Rightarrow> exn + delivery" where
  "move_to cleanup M_begin s = begin_delivery s"
| "move_to cleanup (M_acquire i) s = acquire_function i s"
| "move_to cleanup (M_enqueue i) s = queue_call i s"
| "move_to cleanup (M_release i) s = release_function i s"
| "move_to cleanup M_run s = run_call s"
| "move_to cleanup M_close s = Inr (clean_up cleanup s)"
| "move_to cleanup M_destroy s = Inr (destroy_object cleanup s)"
| "move_to cleanup M_finalize s = Inr (FinalizeListenerCallback s)"

fun schedule :: "(client_object \<Rightarrow> client_object) \<Rightarrow> bool \<Rightarrow> move list \<Rightarrow> delivery \<Rightarrow> delivery option" where
  "schedule cleanup quiet [] s = Some s"
| "schedule cleanup quiet (m # ms) s = (if \<not> enabled quiet m s then None
     else (case move_to cleanup m s of Inl e \<Rightarrow> None | Inr s' \<Rightarrow> schedule cleanup quiet ms s'))"

lemma move_step: "enabled quiet m s \<Longrightarrow> delivery_step cleanup waits quiet s (move_to cleanup m s)"
  by (cases m) (auto intro: delivery_step.intros)

lemma schedule_reachable:
  assumes "schedule cleanup quiet ms s = Some s'" and "delivery_reachable cleanup waits quiet s"
  shows "delivery_reachable cleanup waits quiet s'"
  using assms
proof (induction ms arbitrary: s)
  case (Cons m ms)
  then obtain t where "enabled quiet m s" "move_to cleanup m s = Inr t" "schedule cleanup quiet ms t = Some s'"
    by (auto split: if_splits sum.splits)
  with Cons.IH [of t] Cons.prems(2) move_step [of quiet m s cleanup waits] show ?case
    by (auto intro: delivery_reachable.step)
qed simp

lemmas schedule_eval = delivery_defs fresh_delivery_def SetListenerCallback_def new_object_def is_paused_def idle_def
  consumer_Cleanup_def reader_Cleanup_def

subsection \<open>Messages before the object exists\<close>

text \<open>
  When a delivery waits for the object, every pointer read and every call queued leads to it.
\<close>

definition all_addressed :: "delivery \<Rightarrow> bool" where
  "all_addressed s \<longleftrightarrow> (\<forall>t \<in> set (dl_threads s). snd t) \<and> (\<forall>c \<in> set (dl_queue s). c)"

lemma set_stage_addressed:
  "all_addressed s \<Longrightarrow> i < length (dl_threads s) \<Longrightarrow> all_addressed (set_stage i g s)"
  unfolding all_addressed_def set_stage_def using set_update_subset_insert [of "dl_threads s" i] by fastforce

lemma addressed_step:
  assumes "delivery_step cleanup True quiet s (Inr s')" and "all_addressed s"
  shows "all_addressed s'"
  using assms(1)
proof (cases rule: delivery_step.cases)
  case (enqueue i)
  then have "snd (dl_threads s ! i)" using assms(2) by (simp add: all_addressed_def)
  then have "all_addressed (s\<lparr>dl_queue := dl_queue s @ [snd (dl_threads s ! i)]\<rparr>)"
    using assms(2) by (auto simp: all_addressed_def)
  from set_stage_addressed [OF this, of i Called] enqueue show ?thesis by (simp add: queue_call_def at_structure_Inr)
next
  case (acquire i)
  have "all_addressed (s\<lparr>dl_users := n\<rparr>)" for n using assms(2) by (auto simp: all_addressed_def)
  from set_stage_addressed [OF this, of i "Suc (dl_users s)" Acquired] acquire show ?thesis
    by (simp add: acquire_function_def at_structure_Inr)
next
  case (refuse i)
  with set_stage_addressed [OF assms(2), of i Finished] show ?thesis by (simp add: acquire_refused_def at_structure_Inr)
next
  case (release i)
  have "all_addressed (s\<lparr>dl_users := n\<rparr>)" for n using assms(2) by (auto simp: all_addressed_def)
  from set_stage_addressed [OF this, of i "dl_users s - 1" Finished] release show ?thesis
    by (simp add: release_function_def at_structure_Inr)
qed (use assms(2) in \<open>auto simp: all_addressed_def create_object_def begin_delivery_def at_structure_Inr run_call_def clean_up_def
    destroy_object_def FinalizeListenerCallback_def split: option.splits list.splits if_splits\<close>)

lemma addressed_reachable: "delivery_reachable cleanup True quiet s \<Longrightarrow> all_addressed s"
proof (induction rule: delivery_reachable.induct)
  case start
  show ?case by (simp add: all_addressed_def fresh_delivery_def)
next
  case (step s s')
  show ?case by (rule addressed_step [OF step.hyps(2) step.IH])
qed

subsection \<open>Properties\<close>

text \<open>
  C12. If a consumer is closed and destroyed only while no delivery is under way, then in every
  interleaving no thread uses a deleted listener structure or a destroyed consumer: its clean-up
  pauses the C client before it gives up the listener. The use count is exact in every state, and the
  structure is deleted only when the listener was given up and no thread is between acquiring and
  releasing it.
\<close>

theorem consumer_listener_never_dangles:
  assumes "delivery_reachable consumer_Cleanup True True s"
  shows "\<not> delivery_step consumer_Cleanup True True s (Inl e) \<and>
    dl_users s = length (filter inside (dl_threads s)) + of_bool (owned s) \<and>
    (\<not> dl_present s \<longrightarrow> \<not> owned s \<and> idle s)"
proof -
  have inv: "delivery_inv s" using assms by (rule consumer_owner.delivery_reachable_inv)
  then have "\<not> dl_present s \<longrightarrow> \<not> owned s" using consumer_pauses.owned_present by blast
  moreover have "\<not> owned s \<longrightarrow> idle s"
    using consumer_pauses.quiet_reachable [OF assms] by (simp add: consumer_pauses.quiet_inv_def)
  ultimately show ?thesis
    using consumer_pauses.quiet_safe [OF assms] inv by (auto simp: delivery_inv_def counts_ok_def)
qed

theorem consumer_listener_never_dangles_witness:
  "\<exists>s. schedule consumer_Cleanup True
     [M_begin, M_acquire 0, M_enqueue 0, M_release 0, M_run, M_close, M_finalize] created_delivery = Some s \<and>
     \<not> delivery_step consumer_Cleanup True True s (Inl listener_deleted) \<and> \<not> dl_present s \<and> idle s"
proof -
  obtain s where s: "schedule consumer_Cleanup True
      [M_begin, M_acquire 0, M_enqueue 0, M_release 0, M_run, M_close, M_finalize] created_delivery = Some s"
    and "\<not> dl_present s"
    by (simp add: schedule_eval)
  with consumer_listener_never_dangles [OF schedule_reachable [OF s reach_created], of listener_deleted] show ?thesis
    by blast
qed

text \<open>
  C14. A consumer is in fact closed without waiting for deliveries under way, and pausing does not stop
  a delivery that has begun. Then there is an interleaving in which a thread that has read the consumer
  out of the listener structure acquires the function after the structure was deleted, and one in which
  a queued call is run after the consumer it points to was destroyed. A reader's clean-up does not even
  pause: if the reader is closed while no delivery is under way, a message delivered afterwards still reads
  the structure that was deleted.
\<close>

theorem close_races_with_delivery:
  "(\<exists>s. delivery_reachable consumer_Cleanup True False s \<and> delivery_step consumer_Cleanup True False s (Inl listener_deleted)) \<and>
   (\<exists>s. delivery_reachable consumer_Cleanup True False s \<and> delivery_step consumer_Cleanup True False s (Inl object_destroyed)) \<and>
   (\<exists>s. delivery_reachable reader_Cleanup False True s \<and> delivery_step reader_Cleanup False True s (Inl listener_deleted))"
proof (intro conjI)
  obtain s where s: "schedule consumer_Cleanup False [M_begin, M_close, M_finalize] created_delivery = Some s"
    and "dl_threads s = [(Entered, True)]" "\<not> dl_present s"
    by (simp add: schedule_eval)
  then have "delivery_step consumer_Cleanup True False s (Inl listener_deleted)"
    by (intro dangling_steps(1) [of 0]) simp_all
  with schedule_reachable [OF s reach_created]
  show "\<exists>s. delivery_reachable consumer_Cleanup True False s \<and> delivery_step consumer_Cleanup True False s (Inl listener_deleted)"
    by blast
next
  obtain s where s: "schedule consumer_Cleanup False [M_begin, M_acquire 0, M_enqueue 0, M_release 0, M_close, M_destroy]
      created_delivery = Some s" and "dl_queue s = [True]" "\<not> dl_alive s"
    by (simp add: schedule_eval)
  then have "delivery_step consumer_Cleanup True False s (Inl object_destroyed)"
    by (intro dangling_steps(2)) simp_all
  with schedule_reachable [OF s reach_created]
  show "\<exists>s. delivery_reachable consumer_Cleanup True False s \<and> delivery_step consumer_Cleanup True False s (Inl object_destroyed)"
    by blast
next
  obtain s where s: "schedule reader_Cleanup True [M_close, M_finalize] created_delivery = Some s"
    and "\<not> is_paused s" "dl_object s \<noteq> None" "\<not> dl_present s"
    by (simp add: schedule_eval)
  then have "delivery_step reader_Cleanup False True s (Inl listener_deleted)" by (intro dangling_steps(3))
  with schedule_reachable [OF s reach_created]
  show "\<exists>s. delivery_reachable reader_Cleanup False True s \<and> delivery_step reader_Cleanup False True s (Inl listener_deleted)"
    by blast
qed

text \<open>
  C15. Messages that arrive before the object exists: a consumer's thread waits for the consumer, so that
  every call it queues has one; a reader's thread does not, and there is an interleaving in which a call
  is queued without a reader. Such a call never invokes the listener and yet lets the thread go on,
  so that the message is lost.
\<close>

theorem early_messages:
  "(delivery_reachable consumer_Cleanup True quiet s \<longrightarrow> False \<notin> set (dl_queue s)) \<and>
   (\<exists>s'. delivery_reachable reader_Cleanup False True s' \<and> dl_queue s' = [False]) \<and>
   \<not> js_called (ReaderListenerProxy False ret) \<and> ReaderListener True False ret = Some (Resumed (ReaderListenerProxy False ret))"
proof (intro conjI impI)
  show "\<exists>s'. delivery_reachable reader_Cleanup False True s' \<and> dl_queue s' = [False]"
  proof -
    have 1: "delivery_step reader_Cleanup False True fresh_delivery
        (Inr (fresh_delivery\<lparr>dl_threads := [(Entered, False)]\<rparr>))"
      using delivery_step.begin_delivery [of fresh_delivery False reader_Cleanup True]
      by (simp add: begin_delivery_def at_structure_def is_paused_def fresh_delivery_def)
    let ?s1 = "fresh_delivery\<lparr>dl_threads := [(Entered, False)]\<rparr>"
    have 2: "delivery_step reader_Cleanup False True ?s1 (Inr (fresh_delivery\<lparr>dl_threads := [(Acquired, False)], dl_users := Suc (Suc 0)\<rparr>))"
      using delivery_step.acquire [of 0 ?s1 reader_Cleanup False True]
      by (simp add: acquire_function_def at_structure_def set_stage_def fresh_delivery_def)
    let ?s2 = "fresh_delivery\<lparr>dl_threads := [(Acquired, False)], dl_users := Suc (Suc 0)\<rparr>"
    have 3: "delivery_step reader_Cleanup False True ?s2
        (Inr (fresh_delivery\<lparr>dl_threads := [(Called, False)], dl_users := Suc (Suc 0), dl_queue := [False]\<rparr>))"
      using delivery_step.enqueue [of 0 ?s2 reader_Cleanup False True]
      by (simp add: queue_call_def at_structure_def set_stage_def fresh_delivery_def)
    show ?thesis
      by (rule exI, rule conjI,
          rule delivery_reachable.step [OF delivery_reachable.step [OF delivery_reachable.step [OF delivery_reachable.start 1] 2] 3]) simp
  qed
qed (auto dest!: addressed_reachable simp: all_addressed_def proxy_defs ReaderListener_def wait_for_def)

theorem early_messages_witness:
  "\<exists>s. schedule consumer_Cleanup False [M_begin, M_acquire 0, M_enqueue 0] created_delivery = Some s \<and>
     dl_queue s \<noteq> [] \<and> False \<notin> set (dl_queue s)"
proof -
  obtain s where s: "schedule consumer_Cleanup False [M_begin, M_acquire 0, M_enqueue 0] created_delivery = Some s"
    and "dl_queue s \<noteq> []"
    by (simp add: schedule_eval)
  with early_messages [of False s] schedule_reachable [OF s reach_created] show ?thesis by blast
qed

end
