(* ===== verification/Async.thy ===== *)
theory Async
  imports Deferred
begin

section \<open>Asynchronous operations\<close>

text \<open>
  The shape all asynchronous operations of the binding share
  (\<open>src/Client.cc\<close>, \<open>src/Producer.cc\<close>, \<open>src/Consumer.cc\<close>, \<open>src/Reader.cc\<close>): the
  JavaScript thread creates a deferred and a heap-allocated context that points to it, passes
  a callback and the context to the C client, and returns the promise; a thread of the C client
  later runs the callback, which takes the deferred out of the context, deletes the context
  and decides the fate; the JavaScript thread then runs the finalizer.
  The machine below runs any number of such calls interleaved in any order. The locale
  \<open>async_handlers\<close> states what a callback promises (given an undecided deferred it decides
  it and does not throw) and proves that then no context is used after it was freed, no fate
  is decided twice, and every answered call settles its promise and frees its context.
\<close>

subsection \<open>The C client's results\<close>

text \<open>
  \<open>pulsar_result\<close> is an enumeration of the C client of which the binding distinguishes
  one value. \<open>result_str\<close> stands for \<open>pulsar_result_str\<close> and \<open>pulsar::strResult\<close>.
\<close>

datatype pulsar_result = pulsar_result_Ok | pulsar_result_Failure nat

type_synonym result_str = "pulsar_result \<Rightarrow> string"

subsection \<open>Contexts on the heap\<close>

text \<open>
  One call in flight: its kind, its deferred, whether its context is still allocated, and
  whether the C client has run its callback.
\<close>

record ('op, 'cb) call =
  call_op :: 'op
  call_deferred :: "'cb deferred"
  ctx_alive :: bool
  called :: bool

definition ExtDeferredContext :: "'op \<Rightarrow> ('op, 'cb) call" where
  "ExtDeferredContext op = \<lparr>call_op = op, call_deferred = New, ctx_alive = True, called = False\<rparr>"

type_synonym ('op, 'p, 'cb) handler =
  "'op \<Rightarrow> pulsar_result \<Rightarrow> 'p \<Rightarrow> 'cb deferred \<Rightarrow> exn + 'cb deferred"

text \<open>
  The callback: cast the context, copy the deferred out, delete the context, decide. Reading
  a context that was deleted has no defined behaviour.
\<close>

definition fire :: "('op, 'p, 'cb) handler \<Rightarrow> pulsar_result \<Rightarrow> 'p \<Rightarrow> ('op, 'cb) call \<Rightarrow> exn + ('op, 'cb) call" where
  "fire handler r p c =
     (if \<not> ctx_alive c then Inl (UndefinedBehaviour ''context used after free'')
      else let c' = c\<lparr>ctx_alive := False, called := True\<rparr> in
        (case handler (call_op c) r p (call_deferred c) of
           Inl e \<Rightarrow> Inl e
         | Inr d \<Rightarrow> Inr (c'\<lparr>call_deferred := d\<rparr>)))"

text \<open>
  The machine. The C client runs each callback at most once, at any time after the call; Node
  runs a finalizer once its function has no users left. A step ends in a new world or in an
  exception.
\<close>

type_synonym ('op, 'cb) world = "('op, 'cb) call list"

inductive async_step ::
  "('op, 'p, 'cb) handler \<Rightarrow> ('cb \<Rightarrow> js_value) \<Rightarrow> ('op, 'cb) world \<Rightarrow> exn + ('op, 'cb) world \<Rightarrow> bool"
  for handler run where
  start_call: "async_step handler run w (Inr (w @ [ExtDeferredContext op]))"
| callback: "i < length w \<Longrightarrow> \<not> called (w ! i) \<Longrightarrow> fire handler r p (w ! i) = Inr c \<Longrightarrow>
     async_step handler run w (Inr (w[i := c]))"
| callback_fails: "i < length w \<Longrightarrow> \<not> called (w ! i) \<Longrightarrow> fire handler r p (w ! i) = Inl e \<Longrightarrow>
     async_step handler run w (Inl e)"
| finalize_call: "i < length w \<Longrightarrow> tsf (call_deferred (w ! i)) = 0 \<Longrightarrow> self (call_deferred (w ! i)) \<Longrightarrow>
     async_step handler run w
       (Inr (w[i := (w ! i)\<lparr>call_deferred := finalizer run (call_deferred (w ! i))\<rparr>]))"

inductive async_reachable :: "('op, 'p, 'cb) handler \<Rightarrow> ('cb \<Rightarrow> js_value) \<Rightarrow> ('op, 'cb) world \<Rightarrow> bool"
  for handler run where
  init: "async_reachable handler run []"
| step: "async_reachable handler run w \<Longrightarrow> async_step handler run w (Inr w') \<Longrightarrow>
     async_reachable handler run w'"

inductive_cases async_step_failE: "async_step handler run w (Inl e)"

definition call_inv :: "('op, 'cb) call \<Rightarrow> bool" where
  "call_inv c \<longleftrightarrow> deferred_inv (call_deferred c) \<and> (ctx_alive c \<longleftrightarrow> \<not> called c) \<and>
     (IsDone (call_deferred c) \<longleftrightarrow> called c)"

lemma call_inv_new: "call_inv (ExtDeferredContext op)"
  by (simp add: call_inv_def ExtDeferredContext_def)

lemma call_inv_finalize:
  assumes "call_inv c" and "tsf (call_deferred c) = 0" and "self (call_deferred c)"
  shows "call_inv (c\<lparr>call_deferred := finalizer run (call_deferred c)\<rparr>)"
proof -
  have "deferred_step run (call_deferred c) EFinalize (finalizer run (call_deferred c))"
    using assms(2,3) by simp
  then have "deferred_inv (finalizer run (call_deferred c))"
    using assms(1) deferred_step_inv unfolding call_inv_def by blast
  with assms(1) show ?thesis
    by (simp add: call_inv_def)
qed

text \<open>
  The work that is left when no further call is started: a callback and a finalizer per call.
\<close>

definition work_of :: "('op, 'cb) call \<Rightarrow> nat" where
  "work_of c = of_bool (\<not> called c) + of_bool (self (call_deferred c))"

definition work :: "('op, 'cb) world \<Rightarrow> nat" where
  "work w = sum_list (map work_of w)"

lemma work_update_less: "i < length w \<Longrightarrow> work_of c < work_of (w ! i) \<Longrightarrow> work (w[i := c]) < work w"
  by (induction w arbitrary: i) (auto simp: work_def nth_Cons split: nat.split)

lemma work_zero: "work w = 0 \<longleftrightarrow> (\<forall>c \<in> set w. called c \<and> \<not> self (call_deferred c))"
  by (auto simp: work_def work_of_def)

subsection \<open>The contract of a completion callback\<close>

locale async_handlers =
  fixes handler :: "('op, 'p, 'cb) handler"
  assumes handler_decides:
    "fate d = UNRESOLVED \<Longrightarrow>
     (\<exists>cb. handler op r p d = Resolve cb d) \<or> (\<exists>msg. handler op r p d = Reject msg d)"
begin

lemma fire_ok:
  assumes "call_inv c" and "\<not> called c"
  shows "\<exists>c'. fire handler r p c = Inr c' \<and> call_inv c' \<and> called c' \<and> \<not> ctx_alive c'"
proof -
  let ?d = "call_deferred c"
  from assms have alive: "ctx_alive c" and inv: "deferred_inv ?d" and u: "fate ?d = UNRESOLVED"
    by (auto simp: call_inv_def IsDone_def intro: efate.exhaust)
  have "\<exists>d'. handler (call_op c) r p ?d = Inr d' \<and> IsDone d' \<and> deferred_inv d'"
    using handler_decides [OF u, of "call_op c" r p] Resolve_completes [OF u inv] Reject_completes [OF u inv]
    by metis
  with alive show ?thesis
    by (auto simp: fire_def call_inv_def Let_def)
qed

lemma step_inv:
  assumes "async_step handler run w (Inr w')" and inv: "\<forall>c \<in> set w. call_inv c"
  shows "\<forall>c \<in> set w'. call_inv c"
  using assms(1)
proof (cases rule: async_step.cases)
  case (start_call op)
  with inv show ?thesis by (simp add: call_inv_new)
next
  case (callback i r p c)
  from inv callback(2) have "call_inv (w ! i)" by simp
  from fire_ok [OF this callback(3), of r p] callback(4) have "call_inv c" by simp
  with inv show ?thesis unfolding callback(1)
    by (blast dest: set_update_subset_insert [THEN subsetD])
next
  case (finalize_call i)
  from inv finalize_call(2) have "call_inv (w ! i)" by simp
  from call_inv_finalize [OF this finalize_call(3,4), of run] inv show ?thesis
    unfolding finalize_call(1) by (blast dest: set_update_subset_insert [THEN subsetD])
qed

lemma reachable_inv: "async_reachable handler run w \<Longrightarrow> \<forall>c \<in> set w. call_inv c"
proof (induction rule: async_reachable.induct)
  case (step w w')
  show ?case by (rule step_inv [OF step.hyps(2) step.IH])
qed simp

lemma no_failure:
  assumes "async_reachable handler run w"
  shows "\<not> async_step handler run w (Inl e)"
proof
  assume "async_step handler run w (Inl e)"
  then obtain i r p where "i < length w" "\<not> called (w ! i)" "fire handler r p (w ! i) = Inl e"
    by (rule async_step_failE)
  moreover from this(1) reachable_inv [OF assms] have "call_inv (w ! i)" by simp
  ultimately show False using fire_ok [of "w ! i" r p] by simp
qed

lemma settled_and_freed:
  assumes "async_reachable handler run w" and "c \<in> set w"
  shows "(promise (call_deferred c) \<noteq> Pending \<longrightarrow> called c) \<and> (ctx_alive c \<longleftrightarrow> \<not> called c)"
proof -
  have "call_inv c" using reachable_inv [OF assms(1)] assms(2) by blast
  then show ?thesis by (cases "fate (call_deferred c)") (auto simp: call_inv_def deferred_inv_def IsDone_def)
qed

text \<open>
  Without new calls the machine runs out of steps: each one takes from the work left, as long as
  some is left there is a step to take, and in the end every promise is settled and every context
  freed.
\<close>

lemma step_takes_work:
  assumes "async_reachable handler run w" and "async_step handler run w (Inr w')" and "length w' = length w"
  shows "work w' < work w"
  using assms(2)
proof (cases rule: async_step.cases)
  case (start_call op)
  with assms(3) show ?thesis by simp
next
  case (callback i r p c)
  with reachable_inv [OF assms(1)] have i: "call_inv (w ! i)" "\<not> called (w ! i)" by simp_all
  then have "self (call_deferred (w ! i))"
    by (auto simp: call_inv_def deferred_inv_def IsDone_def intro: efate.exhaust)
  with i fire_ok [OF i, of r p] callback(4) have "work_of c < work_of (w ! i)" by (auto simp: work_of_def)
  with callback(1,2) show ?thesis by (simp add: work_update_less)
next
  case (finalize_call i)
  then show ?thesis by (auto intro!: work_update_less simp: work_of_def finalizer_def Let_def)
qed

lemma work_can_proceed:
  assumes "async_reachable handler run w" and "work w \<noteq> 0"
  shows "\<exists>w'. async_step handler run w (Inr w') \<and> length w' = length w"
proof -
  obtain i where i: "i < length w" "\<not> called (w ! i) \<or> self (call_deferred (w ! i))"
    using assms(2) by (auto simp: work_zero in_set_conv_nth)
  then have inv: "call_inv (w ! i)" using reachable_inv [OF assms(1)] by simp
  show ?thesis
  proof (cases "called (w ! i)")
    case False
    fix p :: 'p
    obtain c where "fire handler pulsar_result_Ok p (w ! i) = Inr c"
      using fire_ok [OF inv False] by blast
    with async_step.callback [OF i(1) False] show ?thesis by (metis length_list_update)
  next
    case True
    with i(2) inv have "tsf (call_deferred (w ! i)) = 0" "self (call_deferred (w ! i))"
      by (auto simp: call_inv_def deferred_inv_def IsDone_def)
    with async_step.finalize_call [OF i(1)] show ?thesis by (metis length_list_update)
  qed
qed

lemma no_work_complete:
  assumes "async_reachable handler run w" and "work w = 0" and "c \<in> set w"
  shows "promise (call_deferred c) \<noteq> Pending \<and> \<not> ctx_alive c \<and> \<not> self (call_deferred c)"
proof -
  from assms(2,3) have "called c" "\<not> self (call_deferred c)" by (simp_all add: work_zero)
  moreover from reachable_inv [OF assms(1)] assms(3) have "call_inv c" by blast
  ultimately show ?thesis by (auto simp: call_inv_def deferred_inv_def)
qed

end

end
