(* ===== verification/Consumer_Config.thy ===== *)
theory Consumer_Config
  imports Config_Common
begin

section \<open>ConsumerConfig\<close>

text \<open>
  \<open>src/ConsumerConfig.h\<close>, \<open>src/ConsumerConfig.cc\<close>: the configuration object of
  \<open>subscribe\<close>. \<open>InitConfig\<close> is a sequence of blocks, one per option, each a definition
  below in the order of the source; a block that finds an invalid option rejects the deferred
  and returns. The C client's configuration object is the log of the setter calls made on it;
  a string argument is what the C function reads from \<open>c_str()\<close>.
  The lemmas give the exact condition under which a configuration is accepted and the message
  otherwise, that every call made carries a valid argument, and that options not listed have
  no influence.
\<close>

subsection \<open>Setter calls\<close>

record dead_letter_policy =
  dead_letter_topic :: "string option"
  max_redeliver_count :: int32
  initial_subscription_name :: "string option"

record batch_receive_policy =
  maxNumMessages :: int32
  maxNumBytes :: int32
  timeoutMs :: int32

datatype key_shared_call =
    SetKeySharedMode key_shared_mode
  | SetAllowOutOfOrderDelivery bool
  | SetStickyRanges "(int32 \<times> int32) list"

datatype consumer_call =
    Set_consumer_type pulsar_consumer_type
  | Set_subscription_initial_position initial_position
  | Set_regex_subscription_mode regex_sub_mode
  | Set_consumer_name string
  | Set_unacked_messages_timeout_ms int64
  | Set_negative_ack_redelivery_delay_ms int64
  | Set_receiver_queue_size int32
  | Set_max_total_receiver_queue_size_across_partitions int32
  | Set_schema schema_info
  | Set_property string string
  | Set_message_listener nat
  | Set_read_compacted bool
  | Set_default_crypto_key_reader string string
  | Set_crypto_key_reader js_value
  | Set_crypto_failure_action consumer_crypto_failure_action
  | Set_max_pending_chunked_message int32
  | Set_auto_ack_oldest_chunked_message_on_queue_full bool
  | Set_batch_index_ack_enabled bool
  | Set_dlq_policy dead_letter_policy
  | Set_batch_receive_policy batch_receive_policy
  | Set_key_shared_policy "key_shared_call list"
  | Set_replicate_subscription_state_enabled bool

text \<open>\<open>listener\<close> is the JavaScript function a non-null \<open>MessageListenerCallback\<close> holds.\<close>

record consumer_config =
  cConsumerConfig :: "consumer_call list"
  cons_topic :: string
  cons_topics :: "string list"
  cons_topicsPattern :: string
  cons_subscription :: string
  ackTimeoutMs :: int64
  nAckRedeliverTimeoutMs :: int64
  cons_listener :: "nat option"

definition ConsumerConfig :: consumer_config where
  "ConsumerConfig = \<lparr>cConsumerConfig = [], cons_topic = '''', cons_topics = [],
     cons_topicsPattern = '''', cons_subscription = '''', ackTimeoutMs = 0,
     nAckRedeliverTimeoutMs = 60000, cons_listener = None\<rparr>"

definition MIN_ACK_TIMEOUT_MILLIS :: int where
  "MIN_ACK_TIMEOUT_MILLIS = 10000"

definition consumer_keys :: "string list" where
  "consumer_keys = [''topic'', ''topics'', ''topicsPattern'', ''subscription'', ''subscriptionType'',
     ''subscriptionInitialPosition'', ''regexSubscriptionMode'', ''ackTimeoutMs'',
     ''nAckRedeliverTimeoutMs'', ''receiverQueueSize'', ''receiverQueueSizeAcrossPartitions'',
     ''consumerName'', ''properties'', ''listener'', ''readCompacted'', ''schema'', ''privateKeyPath'',
     ''cryptoFailureAction'', ''maxPendingChunkedMessage'', ''autoAckOldestChunkedMessageOnQueueFull'',
     ''batchIndexAckEnabled'', ''deadLetterPolicy'', ''batchReceivePolicy'', ''keySharedPolicy'',
     ''cryptoKeyReader'', ''replicateSubscriptionState'']"

type_synonym 'cb consumer_state = "'cb deferred \<times> consumer_config"
type_synonym 'cb consumer_step = "'cb consumer_state \<Rightarrow> 'cb consumer_state flow"

definition calls :: "consumer_call list \<Rightarrow> consumer_config \<Rightarrow> consumer_config" where
  "calls xs c = c\<lparr>cConsumerConfig := cConsumerConfig c @ xs\<rparr>"

definition emit :: "consumer_call list \<Rightarrow> 'cb consumer_step" where
  "emit xs s = Continue (apsnd (calls xs) s)"

text \<open>\<open>deferred->Reject(msg); return;\<close>\<close>

definition reject_return :: "string \<Rightarrow> 'cb consumer_step" where
  "reject_return msg s = (case Reject msg (fst s) of
       Inl e \<Rightarrow> Throw e s
     | Inr d \<Rightarrow> Return (d, snd s))"

subsection \<open>The blocks of InitConfig\<close>

definition init_topic :: "js_value \<Rightarrow> 'cb consumer_step" where [steps_def]:
  "init_topic cfg s = Continue (case get_string cfg ''topic'' of
       None \<Rightarrow> s
     | Some t \<Rightarrow> apsnd (\<lambda>c. c\<lparr>cons_topic := t\<rparr>) s)"

definition init_topics :: "js_value \<Rightarrow> 'cb consumer_step" where [steps_def]:
  "init_topics cfg s = Continue (case get_array cfg ''topics'' of
       None \<Rightarrow> s
     | Some arr \<Rightarrow> apsnd (\<lambda>c. c\<lparr>cons_topics := cons_topics c @ string_elements arr\<rparr>) s)"

definition init_topicsPattern :: "js_value \<Rightarrow> 'cb consumer_step" where [steps_def]:
  "init_topicsPattern cfg s = Continue (case get_string cfg ''topicsPattern'' of
       None \<Rightarrow> s
     | Some t \<Rightarrow> apsnd (\<lambda>c. c\<lparr>cons_topicsPattern := t\<rparr>) s)"

definition check_topics :: "'cb consumer_step" where [steps_def]:
  "check_topics s =
     (if cons_topic (snd s) = [] \<and> length (cons_topics (snd s)) = 0 \<and> cons_topicsPattern (snd s) = []
      then reject_return
        ''Topic, topics or topicsPattern is required and must be specified as a string when creating consumer'' s
      else Continue s)"

definition init_subscription :: "js_value \<Rightarrow> 'cb consumer_step" where [steps_def]:
  "init_subscription cfg s = Continue (case get_string cfg ''subscription'' of
       None \<Rightarrow> s
     | Some t \<Rightarrow> apsnd (\<lambda>c. c\<lparr>cons_subscription := t\<rparr>) s)"

definition check_subscription :: "'cb consumer_step" where [steps_def]:
  "check_subscription s =
     (if cons_subscription (snd s) = []
      then reject_return
        ''Subscription is required and must be specified as a string when creating consumer'' s
      else Continue s)"

definition init_subscription_type :: "js_value \<Rightarrow> 'cb consumer_step" where [steps_def]:
  "init_subscription_type cfg =
     emit (enum_calls SUBSCRIPTION_TYPE Set_consumer_type (get_string cfg ''subscriptionType''))"

definition init_position :: "js_value \<Rightarrow> 'cb consumer_step" where [steps_def]:
  "init_position cfg = emit (enum_calls INIT_POSITION Set_subscription_initial_position
     (get_string cfg ''subscriptionInitialPosition''))"

definition init_regex_mode :: "js_value \<Rightarrow> 'cb consumer_step" where [steps_def]:
  "init_regex_mode cfg = emit (enum_calls REGEX_SUBSCRIPTION_MODE Set_regex_subscription_mode
     (get_string cfg ''regexSubscriptionMode''))"

definition init_consumer_name :: "js_value \<Rightarrow> 'cb consumer_step" where [steps_def]:
  "init_consumer_name cfg = emit (nonempty_calls Set_consumer_name (get_string cfg ''consumerName''))"

definition init_ack_timeout :: "napi \<Rightarrow> js_value \<Rightarrow> 'cb consumer_step" where [steps_def]:
  "init_ack_timeout N cfg s = (case get_number cfg ''ackTimeoutMs'' of
       None \<Rightarrow> Continue s
     | Some n \<Rightarrow>
         (let t = Int64Value N n; s' = apsnd (\<lambda>c. c\<lparr>ackTimeoutMs := t\<rparr>) s in
          if t \<noteq> 0 \<and> sint t < MIN_ACK_TIMEOUT_MILLIS
          then reject_return (''Ack timeout should be 0 or greater than or equal to '' @
                 to_string MIN_ACK_TIMEOUT_MILLIS) s'
          else emit [Set_unacked_messages_timeout_ms t] s'))"

definition init_nack_timeout :: "napi \<Rightarrow> js_value \<Rightarrow> 'cb consumer_step" where [steps_def]:
  "init_nack_timeout N cfg s = (case get_number cfg ''nAckRedeliverTimeoutMs'' of
       None \<Rightarrow> Continue s
     | Some n \<Rightarrow>
         (let t = Int64Value N n; s' = apsnd (\<lambda>c. c\<lparr>nAckRedeliverTimeoutMs := t\<rparr>) s in
          if sint t < 0
          then reject_return ''NAck timeout should be greater than or equal to zero'' s'
          else emit [Set_negative_ack_redelivery_delay_ms t] s'))"

definition init_receiver_queue :: "js_value \<Rightarrow> 'cb consumer_step" where [steps_def]:
  "init_receiver_queue cfg =
     emit (nonneg_calls Set_receiver_queue_size (get_number cfg ''receiverQueueSize''))"

definition init_receiver_queue_across :: "js_value \<Rightarrow> 'cb consumer_step" where [steps_def]:
  "init_receiver_queue_across cfg =
     emit (nonneg_calls Set_max_total_receiver_queue_size_across_partitions
       (get_number cfg ''receiverQueueSizeAcrossPartitions''))"

text \<open>
  \<open>SetConsumerSchema\<close> runs also when the constructor of \<open>SchemaInfo\<close> left an exception
  pending; the next N-API call, the \<open>Has\<close> of the following block, then raises it.
\<close>

definition SetConsumerSchema :: "schema_info \<Rightarrow> consumer_config \<Rightarrow> consumer_config" where [simp]:
  "SetConsumerSchema schemaInfo = calls [Set_schema schemaInfo]"

definition init_schema :: "napi \<Rightarrow> js_value \<Rightarrow> 'cb consumer_step" where [steps_def]:
  "init_schema N cfg s = (case get_object cfg ''schema'' of
       None \<Rightarrow> Continue s
     | Some v \<Rightarrow>
         (let (schemaInfo, pending) = SchemaInfo N v; s' = apsnd (SetConsumerSchema schemaInfo) s in
          case pending of None \<Rightarrow> Continue s' | Some e \<Rightarrow> Throw e s'))"

definition init_properties :: "napi \<Rightarrow> js_value \<Rightarrow> 'cb consumer_step" where [steps_def]:
  "init_properties N cfg = emit (property_calls N Set_property (get_object cfg ''properties''))"

definition init_listener :: "js_value \<Rightarrow> 'cb consumer_step" where [steps_def]:
  "init_listener cfg s = (case get_function cfg ''listener'' of
       None \<Rightarrow> Continue s
     | Some f \<Rightarrow> emit [Set_message_listener f] (apsnd (\<lambda>c. c\<lparr>cons_listener := Some f\<rparr>) s))"

definition init_read_compacted :: "js_value \<Rightarrow> 'cb consumer_step" where [steps_def]:
  "init_read_compacted cfg = emit (case get_boolean cfg ''readCompacted'' of
       None \<Rightarrow> []
     | Some b \<Rightarrow> (if b then [Set_read_compacted True] else []))"

definition init_private_key :: "js_value \<Rightarrow> 'cb consumer_step" where [steps_def]:
  "init_private_key cfg = emit (case get_string cfg ''privateKeyPath'' of
       None \<Rightarrow> []
     | Some p \<Rightarrow> [Set_default_crypto_key_reader '''' (c_str p)])"

definition init_crypto_key_reader :: "napi \<Rightarrow> js_value \<Rightarrow> 'cb consumer_step" where [steps_def]:
  "init_crypto_key_reader N cfg s = (case get_object cfg ''cryptoKeyReader'' of
       None \<Rightarrow> Continue s
     | Some v \<Rightarrow> (case CryptoKeyReader_Unwrap N v of
           Inl e \<Rightarrow> Throw e s
         | Inr r \<Rightarrow> emit [Set_crypto_key_reader r] s))"

definition init_crypto_failure_action :: "js_value \<Rightarrow> 'cb consumer_step" where [steps_def]:
  "init_crypto_failure_action cfg = emit (enum_calls CONSUMER_CRYPTO_FAILURE_ACTION
     Set_crypto_failure_action (get_string cfg ''cryptoFailureAction''))"

definition init_max_pending_chunked :: "js_value \<Rightarrow> 'cb consumer_step" where [steps_def]:
  "init_max_pending_chunked cfg =
     emit (nonneg_calls Set_max_pending_chunked_message (get_number cfg ''maxPendingChunkedMessage''))"

definition init_auto_ack_oldest :: "js_value \<Rightarrow> 'cb consumer_step" where [steps_def]:
  "init_auto_ack_oldest cfg = emit (boolean_calls Set_auto_ack_oldest_chunked_message_on_queue_full
     (get_boolean cfg ''autoAckOldestChunkedMessageOnQueueFull''))"

definition init_batch_index_ack :: "js_value \<Rightarrow> 'cb consumer_step" where [steps_def]:
  "init_batch_index_ack cfg = emit (boolean_calls Set_batch_index_ack_enabled
     (get_boolean cfg ''batchIndexAckEnabled''))"

definition read_dlq_policy :: "js_value \<Rightarrow> dead_letter_policy" where
  "read_dlq_policy o' = \<lparr>
     dead_letter_topic = map_option c_str (get_string o' ''deadLetterTopic''),
     max_redeliver_count = (case get_number o' ''maxRedeliverCount'' of None \<Rightarrow> 0 | Some n \<Rightarrow> Int32Value n),
     initial_subscription_name = map_option c_str (get_string o' ''initialSubscriptionName'')\<rparr>"

definition init_dead_letter_policy :: "js_value \<Rightarrow> 'cb consumer_step" where [steps_def]:
  "init_dead_letter_policy cfg = emit (case get_object cfg ''deadLetterPolicy'' of
       None \<Rightarrow> []
     | Some o' \<Rightarrow> [Set_dlq_policy (read_dlq_policy o')])"

text \<open>
  \<open>maxNumBytes\<close> and \<open>timeoutMs\<close> are read as 64-bit integers and stored in variables of
  type \<open>int\<close>.
\<close>

definition read_batch_receive_policy :: "napi \<Rightarrow> js_value \<Rightarrow> batch_receive_policy" where
  "read_batch_receive_policy N o' = \<lparr>
     maxNumMessages = (case get_number o' ''maxNumMessages'' of None \<Rightarrow> - 1 | Some n \<Rightarrow> Int32Value n),
     maxNumBytes = (case get_number o' ''maxNumBytes'' of
         None \<Rightarrow> 10 * 1024 * 1024 | Some n \<Rightarrow> ucast (Int64Value N n)),
     timeoutMs = (case get_number o' ''timeoutMs'' of None \<Rightarrow> 100 | Some n \<Rightarrow> ucast (Int64Value N n))\<rparr>"

text \<open>\<open>setPolicy\<close> stands for the result of \<open>pulsar_consumer_configuration_set_batch_receive_policy\<close>.\<close>

definition init_batch_receive_policy ::
  "napi \<Rightarrow> (batch_receive_policy \<Rightarrow> int) \<Rightarrow> js_value \<Rightarrow> 'cb consumer_step" where [steps_def]:
  "init_batch_receive_policy N setPolicy cfg s = (case get_object cfg ''batchReceivePolicy'' of
       None \<Rightarrow> Continue s
     | Some o' \<Rightarrow>
         (let p = read_batch_receive_policy N o' in
          if sint (maxNumMessages p) \<le> 0 \<and> sint (maxNumBytes p) \<le> 0 \<and> sint (timeoutMs p) \<le> 0
          then reject_return
            ''At least one of maxNumMessages, maxNumBytes and timeoutMs must be specified.'' s
          else let s' = apsnd (calls [Set_batch_receive_policy p]) s in
            if setPolicy p = - 1
            then reject_return ''Set batch receive policy failed: C client returned failure'' s'
            else Continue s'))"

text \<open>The loop over \<open>stickyRanges\<close>, from index \<open>i\<close>, with the ranges read so far.\<close>

fun read_sticky_ranges :: "napi \<Rightarrow> nat \<Rightarrow> js_value list \<Rightarrow> (int32 \<times> int32) list \<Rightarrow> string + (int32 \<times> int32) list" where
  "read_sticky_ranges N i [] acc = Inr acc"
| "read_sticky_ranges N i (r # rs) acc =
     (if IsObject r then
        (if Has r ''start'' \<and> Has r ''end'' \<and> IsNumber (Get r ''start'') \<and> IsNumber (Get r ''end'') then
           (let start = Int32Value (ToNumber N (Get r ''start''));
                end' = Int32Value (ToNumber N (Get r ''end'')) in
            if sint start > sint end'
            then Inl (''Invalid sticky range at index '' @ show_nat i @ '': start ('' @
              to_string (sint start) @ '') > end ('' @ to_string (sint end') @ '')'')
            else read_sticky_ranges N (Suc i) rs (acc @ [(start, end')]))
         else Inl (''Invalid sticky range format at index '' @ show_nat i @
           '': missing 'start'/'end' or invalid type, should be number type''))
      else Inl (''Sticky range element at index '' @ show_nat i @ '' is not an object''))"

definition read_key_shared_policy :: "napi \<Rightarrow> js_value \<Rightarrow> string + key_shared_call list" where
  "read_key_shared_policy N o' =
     (let mode = enum_calls CONSUMER_KEY_SHARED_POLICY_MODE SetKeySharedMode (get_string o' ''keyShareMode'');
          order = (case get_boolean o' ''allowOutOfOrderDelivery'' of
             None \<Rightarrow> [] | Some b \<Rightarrow> [SetAllowOutOfOrderDelivery b])
      in case get_array o' ''stickyRanges'' of
           None \<Rightarrow> Inr (mode @ order)
         | Some rs \<Rightarrow> (case read_sticky_ranges N 0 rs [] of
               Inl err \<Rightarrow> Inl err
             | Inr ranges \<Rightarrow> Inr (mode @ order @ [SetStickyRanges ranges])))"

definition init_key_shared_policy :: "napi \<Rightarrow> js_value \<Rightarrow> 'cb consumer_step" where [steps_def]:
  "init_key_shared_policy N cfg s = (case get_object cfg ''keySharedPolicy'' of
       None \<Rightarrow> Continue s
     | Some o' \<Rightarrow> (case read_key_shared_policy N o' of
           Inl err \<Rightarrow> reject_return err s
         | Inr p \<Rightarrow> emit [Set_key_shared_policy p] s))"

definition init_replicate_state :: "js_value \<Rightarrow> 'cb consumer_step" where [steps_def]:
  "init_replicate_state cfg = emit (boolean_calls Set_replicate_subscription_state_enabled
     (get_boolean cfg ''replicateSubscriptionState''))"

definition topic_steps :: "js_value \<Rightarrow> 'cb consumer_step list" where
  "topic_steps cfg = [init_topic cfg, init_topics cfg, init_topicsPattern cfg, check_topics,
     init_subscription cfg, check_subscription]"

definition option_steps ::
  "napi \<Rightarrow> (batch_receive_policy \<Rightarrow> int) \<Rightarrow> js_value \<Rightarrow> 'cb consumer_step list" where
  "option_steps N setPolicy cfg =
     [init_subscription_type cfg, init_position cfg, init_regex_mode cfg, init_consumer_name cfg,
      init_ack_timeout N cfg, init_nack_timeout N cfg, init_receiver_queue cfg,
      init_receiver_queue_across cfg, init_schema N cfg, init_properties N cfg, init_listener cfg,
      init_read_compacted cfg, init_private_key cfg, init_crypto_key_reader N cfg,
      init_crypto_failure_action cfg, init_max_pending_chunked cfg, init_auto_ack_oldest cfg,
      init_batch_index_ack cfg, init_dead_letter_policy cfg, init_batch_receive_policy N setPolicy cfg,
      init_key_shared_policy N cfg, init_replicate_state cfg]"

definition InitConfig ::
  "napi \<Rightarrow> (batch_receive_policy \<Rightarrow> int) \<Rightarrow> js_value \<Rightarrow> 'cb consumer_step" where
  "InitConfig N setPolicy cfg = run_steps (topic_steps cfg @ option_steps N setPolicy cfg)"

subsection \<open>Accessors\<close>

text \<open>\<open>GetListenerCallback\<close> moves the listener out of the configuration.\<close>

definition GetListenerCallback :: "consumer_config \<Rightarrow> nat option \<times> consumer_config" where
  "GetListenerCallback c = (cons_listener c, c\<lparr>cons_listener := None\<rparr>)"

text \<open>
  The destructor releases the thread-safe function of a listener that is still there; the
  result is the function released.
\<close>

definition destroy_ConsumerConfig :: "consumer_config \<Rightarrow> nat option" where
  "destroy_ConsumerConfig c = cons_listener c"

subsection \<open>Lemmas on the blocks\<close>

lemma emit_simps [simp]:
  "emit xs s = Continue (fst s, calls xs (snd s))"
  by (simp_all add: emit_def apsnd_def map_prod_def split_beta)

lemma calls_simps [simp]:
  "cConsumerConfig (calls xs c) = cConsumerConfig c @ xs" "cons_topic (calls xs c) = cons_topic c"
  "cons_topics (calls xs c) = cons_topics c" "cons_topicsPattern (calls xs c) = cons_topicsPattern c"
  "cons_subscription (calls xs c) = cons_subscription c" "ackTimeoutMs (calls xs c) = ackTimeoutMs c"
  "nAckRedeliverTimeoutMs (calls xs c) = nAckRedeliverTimeoutMs c"
  "cons_listener (calls xs c) = cons_listener c"
  by (simp_all add: calls_def)

lemma snd_flow_state_reject_return [simp]: "snd (flow_state (reject_return msg s)) = snd s"
  by (simp add: reject_return_def split: sum.split)

lemma reject_return_New [simp]:
  "reject_return msg (New, c) = Return (New\<lparr>errorMsg := msg, fate := REJECTED, tsf := 0\<rparr>, c)"
  by (simp add: reject_return_def)

text \<open>The loop over the sticky ranges stops at the first bad element and otherwise keeps them all.\<close>

definition range_of :: "napi \<Rightarrow> js_value \<Rightarrow> int32 \<times> int32" where
  "range_of N r = (Int32Value (ToNumber N (Get r ''start'')), Int32Value (ToNumber N (Get r ''end'')))"

definition range_error :: "napi \<Rightarrow> nat \<Rightarrow> js_value \<Rightarrow> string option" where
  "range_error N i r =
     (if \<not> IsObject r then Some (''Sticky range element at index '' @ show_nat i @ '' is not an object'')
      else if \<not> (IsNumber (Get r ''start'') \<and> IsNumber (Get r ''end''))
      then Some (''Invalid sticky range format at index '' @ show_nat i @
        '': missing 'start'/'end' or invalid type, should be number type'')
      else if sint (snd (range_of N r)) < sint (fst (range_of N r))
      then Some (''Invalid sticky range at index '' @ show_nat i @ '': start ('' @
        to_string (sint (fst (range_of N r))) @ '') > end ('' @ to_string (sint (snd (range_of N r))) @ '')'')
      else None)"

fun first_range_error :: "napi \<Rightarrow> nat \<Rightarrow> js_value list \<Rightarrow> string option" where
  "first_range_error N i [] = None"
| "first_range_error N i (r # rs) =
     (case range_error N i r of Some e \<Rightarrow> Some e | None \<Rightarrow> first_range_error N (Suc i) rs)"

lemma IsNumber_Get_Has: "IsNumber (Get v k) \<Longrightarrow> Has v k"
  by (auto simp: IsNumber_def Get_def Has_def split: option.splits)

lemma read_sticky_ranges_spec:
  "read_sticky_ranges N i rs acc = (case first_range_error N i rs of
       Some e \<Rightarrow> Inl e | None \<Rightarrow> Inr (acc @ map (range_of N) rs))"
proof (induction N i rs acc rule: read_sticky_ranges.induct)
  case (2 N i r rs acc)
  then show ?case
    by (auto simp: range_error_def range_of_def Let_def IsNumber_Get_Has split: option.split)
qed simp

lemma first_range_error_None:
  "first_range_error N i rs = None \<Longrightarrow> r \<in> set rs \<Longrightarrow> sint (fst (range_of N r)) \<le> sint (snd (range_of N r))"
  by (induction N i rs rule: first_range_error.induct)
    (auto simp: range_error_def split: option.splits if_splits)

lemma first_range_error_all_ok:
  "first_range_error N k rs = None \<Longrightarrow> \<forall>i < length rs. range_error N (k + i) (rs ! i) = None"
proof (induction rs arbitrary: k)
  case (Cons r rs)
  from Cons.prems have r: "range_error N k r = None" and "first_range_error N (Suc k) rs = None"
    by (simp_all split: option.splits)
  from Cons.IH [OF this(2)] r show ?case by (simp add: All_less_Suc2)
qed simp

lemma first_range_error_first:
  assumes "first_range_error N k rs = Some msg"
  shows "\<exists>i < length rs. range_error N (k + i) (rs ! i) = Some msg \<and>
    (\<forall>j < i. range_error N (k + j) (rs ! j) = None)"
  using assms
proof (induction rs arbitrary: k)
  case (Cons r rs)
  show ?case
  proof (cases "range_error N k r")
    case None
    with Cons.prems have "first_range_error N (Suc k) rs = Some msg" by simp
    from Cons.IH [OF this] obtain i where i: "i < length rs" "range_error N (Suc k + i) (rs ! i) = Some msg"
      "\<forall>j < i. range_error N (Suc k + j) (rs ! j) = None" by blast
    with None show ?thesis by (intro exI [of _ "Suc i"]) (simp add: All_less_Suc2)
  next
    case (Some e)
    with Cons.prems show ?thesis by (intro exI [of _ 0]) simp
  qed
qed simp

subsection \<open>Acceptance\<close>

text \<open>
  The specification of \<open>InitConfig\<close>: what each option that can be invalid demands, in the
  order in which the code looks at them.
\<close>

definition topics_of :: "js_value \<Rightarrow> string list" where
  "topics_of cfg = (case get_array cfg ''topics'' of None \<Rightarrow> [] | Some arr \<Rightarrow> string_elements arr)"

definition topic_verdict :: "js_value \<Rightarrow> verdict" where
  "topic_verdict cfg =
     (if text_of cfg ''topic'' = [] \<and> topics_of cfg = [] \<and> text_of cfg ''topicsPattern'' = []
      then RejectedWith
        ''Topic, topics or topicsPattern is required and must be specified as a string when creating consumer''
      else Accepted)"

definition subscription_verdict :: "js_value \<Rightarrow> verdict" where
  "subscription_verdict cfg = (if text_of cfg ''subscription'' = []
     then RejectedWith ''Subscription is required and must be specified as a string when creating consumer''
     else Accepted)"

definition ack_verdict :: "napi \<Rightarrow> js_value \<Rightarrow> verdict" where
  "ack_verdict N cfg = (case get_number cfg ''ackTimeoutMs'' of
       None \<Rightarrow> Accepted
     | Some n \<Rightarrow> (if Int64Value N n \<noteq> 0 \<and> sint (Int64Value N n) < 10000
         then RejectedWith ''Ack timeout should be 0 or greater than or equal to 10000'' else Accepted))"

definition nack_verdict :: "napi \<Rightarrow> js_value \<Rightarrow> verdict" where
  "nack_verdict N cfg = (case get_number cfg ''nAckRedeliverTimeoutMs'' of
       None \<Rightarrow> Accepted
     | Some n \<Rightarrow> (if sint (Int64Value N n) < 0
         then RejectedWith ''NAck timeout should be greater than or equal to zero'' else Accepted))"

definition batch_verdict :: "napi \<Rightarrow> (batch_receive_policy \<Rightarrow> int) \<Rightarrow> js_value \<Rightarrow> verdict" where
  "batch_verdict N setPolicy cfg = (case get_object cfg ''batchReceivePolicy'' of
       None \<Rightarrow> Accepted
     | Some o' \<Rightarrow> (let p = read_batch_receive_policy N o' in
         if max (sint (maxNumMessages p)) (max (sint (maxNumBytes p)) (sint (timeoutMs p))) \<le> 0
         then RejectedWith ''At least one of maxNumMessages, maxNumBytes and timeoutMs must be specified.''
         else if setPolicy p = - 1
         then RejectedWith ''Set batch receive policy failed: C client returned failure''
         else Accepted))"

definition key_shared_verdict :: "napi \<Rightarrow> js_value \<Rightarrow> verdict" where
  "key_shared_verdict N cfg = (case get_object cfg ''keySharedPolicy'' of
       None \<Rightarrow> Accepted
     | Some o' \<Rightarrow> (case get_array o' ''stickyRanges'' of
           None \<Rightarrow> Accepted
         | Some rs \<Rightarrow> (case first_range_error N 0 rs of None \<Rightarrow> Accepted | Some e \<Rightarrow> RejectedWith e)))"

definition consumer_verdict :: "napi \<Rightarrow> (batch_receive_policy \<Rightarrow> int) \<Rightarrow> js_value \<Rightarrow> verdict" where
  "consumer_verdict N setPolicy cfg = first_failure
     [topic_verdict cfg, subscription_verdict cfg, ack_verdict N cfg, nack_verdict N cfg,
      schema_verdict cfg, key_reader_verdict N cfg, batch_verdict N setPolicy cfg,
      key_shared_verdict N cfg]"

text \<open>What a verdict means for a block or a sequence of blocks started with a fresh deferred.\<close>

definition consumer_meets :: "'cb consumer_state flow \<Rightarrow> verdict \<Rightarrow> bool" where
  "consumer_meets r v = (case v of
       Accepted \<Rightarrow> \<exists>c. r = Continue (New, c)
     | RejectedWith msg \<Rightarrow> \<exists>c. r = Return (New\<lparr>errorMsg := msg, fate := REJECTED, tsf := 0\<rparr>, c)
     | Thrown e \<Rightarrow> \<exists>c. r = Throw e (New, c))"

lemma consumer_meets_simps [simp]:
  "consumer_meets r Accepted \<longleftrightarrow> (\<exists>c. r = Continue (New, c))"
  "consumer_meets r (RejectedWith msg) \<longleftrightarrow> (\<exists>c. r = Return (New\<lparr>errorMsg := msg, fate := REJECTED, tsf := 0\<rparr>, c))"
  "consumer_meets r (Thrown e) \<longleftrightarrow> (\<exists>c. r = Throw e (New, c))"
  by (simp_all add: consumer_meets_def)

lemma consumer_meets_iff:
  "consumer_meets = meets (\<lambda>s. fst s = New)
     (\<lambda>msg s. fst s = New\<lparr>errorMsg := msg, fate := REJECTED, tsf := 0\<rparr>)"
proof (intro ext)
  fix r :: "'a consumer_state flow" and v
  show "consumer_meets r v = meets (\<lambda>s. fst s = New)
      (\<lambda>msg s. fst s = New\<lparr>errorMsg := msg, fate := REJECTED, tsf := 0\<rparr>) r v"
    by (cases v) (auto simp: meets_def consumer_meets_def)
qed

lemma to_string_10000: "to_string 10000 = ''10000''"
  by (simp add: to_string_def show_nat.simps)

definition option_verdicts :: "napi \<Rightarrow> (batch_receive_policy \<Rightarrow> int) \<Rightarrow> js_value \<Rightarrow> verdict list" where
  "option_verdicts N setPolicy cfg =
     [Accepted, Accepted, Accepted, Accepted, ack_verdict N cfg, nack_verdict N cfg, Accepted, Accepted,
      schema_verdict cfg, Accepted, Accepted, Accepted, Accepted, key_reader_verdict N cfg, Accepted,
      Accepted, Accepted, Accepted, Accepted, batch_verdict N setPolicy cfg, key_shared_verdict N cfg, Accepted]"

lemma option_steps_meet:
  "list_all2 (\<lambda>f v. \<forall>c. consumer_meets (f (New, c)) v) (option_steps N setPolicy cfg)
     (option_verdicts N setPolicy cfg)"
proof -
  have ack: "consumer_meets (init_ack_timeout N cfg (New, c)) (ack_verdict N cfg)"
    and nack: "consumer_meets (init_nack_timeout N cfg (New, c)) (nack_verdict N cfg)" for c
    by (simp_all add: consumer_meets_def steps_def ack_verdict_def nack_verdict_def Let_def MIN_ACK_TIMEOUT_MILLIS_def
        to_string_10000 split: option.split)
  have schema: "consumer_meets (init_schema N cfg (New, c)) (schema_verdict cfg)" for c
  proof (cases "get_object cfg ''schema''")
    case (Some v)
    obtain i p where i: "SchemaInfo N v = (i, p)" by (cases "SchemaInfo N v")
    with SchemaInfo_exception [of N v] Some show ?thesis
      by (auto simp: consumer_meets_def init_schema_def schema_verdict_def split: option.splits)
  qed (simp add: consumer_meets_def init_schema_def schema_verdict_def)
  have reader: "consumer_meets (init_crypto_key_reader N cfg (New, c)) (key_reader_verdict N cfg)" for c
    by (simp add: consumer_meets_def init_crypto_key_reader_def key_reader_verdict_def split: option.split sum.split)
  have batch: "consumer_meets (init_batch_receive_policy N setPolicy cfg (New, c)) (batch_verdict N setPolicy cfg)" for c
    by (auto simp: consumer_meets_def init_batch_receive_policy_def batch_verdict_def Let_def split: option.split)
  have shared: "consumer_meets (init_key_shared_policy N cfg (New, c)) (key_shared_verdict N cfg)" for c
    by (simp add: consumer_meets_def init_key_shared_policy_def key_shared_verdict_def read_key_shared_policy_def
        read_sticky_ranges_spec Let_def split: option.split)
  have emits: "consumer_meets (emit xs (New, c)) Accepted" and listen: "consumer_meets (init_listener cfg (New, c)) Accepted" for xs c
    by (simp_all add: consumer_meets_def init_listener_def split: option.split)
  show ?thesis
    unfolding option_verdicts_def option_steps_def init_subscription_type_def init_position_def
      init_regex_mode_def
      init_consumer_name_def init_receiver_queue_def init_receiver_queue_across_def init_properties_def
      init_read_compacted_def init_private_key_def init_crypto_failure_action_def
      init_max_pending_chunked_def init_auto_ack_oldest_def init_batch_index_ack_def
      init_dead_letter_policy_def init_replicate_state_def
    by (simp only: list_all2_Cons list.rel_inject ack nack schema reader batch shared emits listen simp_thms)
qed

interpretation consumer_options: judged_pipeline "option_steps N setPolicy cfg" "option_verdicts N setPolicy cfg"
    "\<lambda>s. fst s = New" "\<lambda>msg s. fst s = New\<lparr>errorMsg := msg, fate := REJECTED, tsf := 0\<rparr>"
  for N setPolicy cfg
  using option_steps_meet [of N setPolicy cfg]
  by unfold_locales (auto simp: consumer_meets_iff elim!: list_all2_mono)

lemma topic_blocks:
  "cons_topic c = [] \<Longrightarrow> init_topic cfg (d, c) = Continue (d, c\<lparr>cons_topic := text_of cfg ''topic''\<rparr>)"
  "cons_topics c = [] \<Longrightarrow> init_topics cfg (d, c) = Continue (d, c\<lparr>cons_topics := topics_of cfg\<rparr>)"
  "cons_topicsPattern c = [] \<Longrightarrow>
     init_topicsPattern cfg (d, c) = Continue (d, c\<lparr>cons_topicsPattern := text_of cfg ''topicsPattern''\<rparr>)"
  "cons_subscription c = [] \<Longrightarrow>
     init_subscription cfg (d, c) = Continue (d, c\<lparr>cons_subscription := text_of cfg ''subscription''\<rparr>)"
  by (cases c; simp add: init_topic_def init_topics_def init_topicsPattern_def init_subscription_def topics_of_def
      text_of_def split: option.split)+

text \<open>The state in which the checks of the topics and of the subscription leave the configuration.\<close>

definition named_config :: "js_value \<Rightarrow> consumer_config" where
  "named_config cfg = ConsumerConfig\<lparr>cons_topic := text_of cfg ''topic'', cons_topics := topics_of cfg,
     cons_topicsPattern := text_of cfg ''topicsPattern'', cons_subscription := text_of cfg ''subscription''\<rparr>"

lemma topic_steps_run:
  assumes "topic_verdict cfg = Accepted" and "subscription_verdict cfg = Accepted"
  shows "run_steps (topic_steps cfg) (d, ConsumerConfig) = Continue (d, named_config cfg)"
  using assms
  by (auto simp add: topic_steps_def topic_blocks check_topics_def check_subscription_def topic_verdict_def
      subscription_verdict_def named_config_def ConsumerConfig_def split: if_splits)

lemma topic_steps_meet:
  "consumer_meets (run_steps (topic_steps cfg) (New, ConsumerConfig))
     (first_failure [topic_verdict cfg, subscription_verdict cfg])"
  by (simp add: topic_steps_def topic_blocks check_topics_def check_subscription_def topic_verdict_def
      subscription_verdict_def ConsumerConfig_def)

lemma consumer_meets_append:
  "consumer_meets (run_steps fs s) v \<Longrightarrow> v \<noteq> Accepted \<Longrightarrow> consumer_meets (run_steps (fs @ gs) s) v"
  by (cases v) (auto simp: run_steps_append)

lemma InitConfig_meets:
  "consumer_meets (InitConfig N setPolicy cfg (New :: 'cb deferred, ConsumerConfig)) (consumer_verdict N setPolicy cfg)"
proof (cases "first_failure [topic_verdict cfg, subscription_verdict cfg] = Accepted")
  case True
  with topic_steps_meet [of cfg] obtain c where
    "run_steps (topic_steps cfg) (New :: 'cb deferred, ConsumerConfig) = Continue (New, c)" by auto
  then have run: "InitConfig N setPolicy cfg (New :: 'cb deferred, ConsumerConfig) =
      run_steps (option_steps N setPolicy cfg) (New, c)"
    by (simp add: InitConfig_def run_steps_append)
  from True have "consumer_verdict N setPolicy cfg = first_failure [ack_verdict N cfg, nack_verdict N cfg,
      schema_verdict cfg, key_reader_verdict N cfg, batch_verdict N setPolicy cfg, key_shared_verdict N cfg]"
    by (simp add: consumer_verdict_def split: if_splits)
  also have "\<dots> = first_failure (option_verdicts N setPolicy cfg)"
    by (simp add: option_verdicts_def)
  finally show ?thesis
    unfolding run consumer_meets_iff by (simp only: consumer_options.run_meets fst_conv)
next
  case False
  then have "consumer_meets (run_steps (topic_steps cfg @ option_steps N setPolicy cfg) (New :: 'cb deferred, ConsumerConfig))
      (first_failure [topic_verdict cfg, subscription_verdict cfg])"
    by (rule consumer_meets_append [OF topic_steps_meet])
  moreover have
    "consumer_verdict N setPolicy cfg = first_failure [topic_verdict cfg, subscription_verdict cfg]"
    using False by (auto simp: consumer_verdict_def)
  ultimately show ?thesis by (simp only: InitConfig_def)
qed

subsection \<open>What reaches the C client\<close>

definition policy_positive :: "batch_receive_policy \<Rightarrow> bool" where
  "policy_positive p \<longleftrightarrow> 0 < sint (maxNumMessages p) \<or> 0 < sint (maxNumBytes p) \<or> 0 < sint (timeoutMs p)"

fun key_shared_call_ok :: "key_shared_call \<Rightarrow> bool" where
  "key_shared_call_ok (SetStickyRanges rs) \<longleftrightarrow> (\<forall>(a, b) \<in> set rs. sint a \<le> sint b)"
| "key_shared_call_ok _ \<longleftrightarrow> True"

fun consumer_call_ok :: "consumer_call \<Rightarrow> bool" where
  "consumer_call_ok (Set_unacked_messages_timeout_ms t) \<longleftrightarrow> t = 0 \<or> 10000 \<le> sint t"
| "consumer_call_ok (Set_negative_ack_redelivery_delay_ms t) \<longleftrightarrow> 0 \<le> sint t"
| "consumer_call_ok (Set_receiver_queue_size n) \<longleftrightarrow> 0 \<le> sint n"
| "consumer_call_ok (Set_max_total_receiver_queue_size_across_partitions n) \<longleftrightarrow> 0 \<le> sint n"
| "consumer_call_ok (Set_max_pending_chunked_message n) \<longleftrightarrow> 0 \<le> sint n"
| "consumer_call_ok (Set_read_compacted b) \<longleftrightarrow> b"
| "consumer_call_ok (Set_schema s) \<longleftrightarrow> smap_wf (schema_properties s)"
| "consumer_call_ok (Set_batch_receive_policy p) \<longleftrightarrow> policy_positive p"
| "consumer_call_ok (Set_key_shared_policy p) \<longleftrightarrow> list_all key_shared_call_ok p"
| "consumer_call_ok (Set_property k v) \<longleftrightarrow> CHR 0x00 \<notin> set k \<and> CHR 0x00 \<notin> set v"
| "consumer_call_ok (Set_consumer_name n) \<longleftrightarrow> CHR 0x00 \<notin> set n"
| "consumer_call_ok _ \<longleftrightarrow> True"

abbreviation consumer_log :: "'cb consumer_state \<Rightarrow> consumer_call list" where
  "consumer_log s \<equiv> cConsumerConfig (snd s)"

lemma sticky_ranges_ok:
  assumes "first_range_error N i rs = None"
  shows "key_shared_call_ok (SetStickyRanges (map (range_of N) rs))"
  using first_range_error_None [OF assms] by (auto simp: range_of_def)

lemma key_shared_policy_ok:
  assumes "read_key_shared_policy N o' = Inr p"
  shows "list_all key_shared_call_ok p"
proof -
  have "list_all key_shared_call_ok (enum_calls CONSUMER_KEY_SHARED_POLICY_MODE SetKeySharedMode x)" for x
    by (auto simp: list_all_iff dest: set_enum_calls)
  with assms show ?thesis
    by (auto simp: read_key_shared_policy_def Let_def read_sticky_ranges_spec
        simp del: key_shared_call_ok.simps(1) intro: sticky_ranges_ok split: option.splits)
qed

text \<open>
  A block either appends calls or rejects and returns; what it appends is valid. The
  interpretation turns this into the contract of the whole of \<open>InitConfig\<close>.
\<close>

abbreviation appends_ok :: "'cb consumer_step \<Rightarrow> bool" where
  "appends_ok \<equiv> appends consumer_log consumer_call_ok"

lemma appends_ok_emit: "list_all consumer_call_ok xs \<Longrightarrow> appends_ok (emit xs)"
  by (rule appendsI) auto

lemma topic_steps_ok: "f \<in> set (topic_steps cfg) \<Longrightarrow> appends_ok f"
  unfolding topic_steps_def
  by (auto intro!: appends_oneI simp: init_topic_def init_topics_def init_topicsPattern_def
      check_topics_def init_subscription_def check_subscription_def split: option.split)

lemma schema_step_ok: "appends_ok (init_schema N cfg)"
proof (rule appends_oneI)
  fix s :: "'a consumer_state"
  show "cConsumerConfig (snd (flow_state (init_schema N cfg s))) = cConsumerConfig (snd s) \<or>
    (\<exists>x. consumer_call_ok x \<and> cConsumerConfig (snd (flow_state (init_schema N cfg s))) = cConsumerConfig (snd s) @ [x])"
  proof (cases "get_object cfg ''schema''")
    case (Some v)
    obtain i p where i: "SchemaInfo N v = (i, p)" by (cases "SchemaInfo N v")
    then have "consumer_call_ok (Set_schema i)" by (simp add: SchemaInfo_wf)
    moreover from Some i have
      "cConsumerConfig (snd (flow_state (init_schema N cfg s))) = cConsumerConfig (snd s) @ [Set_schema i]"
      by (simp add: init_schema_def Let_def split: option.split)
    ultimately show ?thesis by blast
  qed (simp add: init_schema_def)
qed

lemma option_steps_ok: "f \<in> set (option_steps N setPolicy cfg) \<Longrightarrow> appends_ok f"
proof -
  have ack: "appends_ok (init_ack_timeout N cfg)" and nack: "appends_ok (init_nack_timeout N cfg)"
    by (rule appends_oneI; auto simp: init_ack_timeout_def init_nack_timeout_def Let_def
        MIN_ACK_TIMEOUT_MILLIS_def split: option.split)+
  have listen: "appends_ok (init_listener cfg)" and reader: "appends_ok (init_crypto_key_reader N cfg)"
    by (rule appends_oneI; auto simp: init_listener_def init_crypto_key_reader_def split: option.split sum.split)+
  have batch: "appends_ok (init_batch_receive_policy N setPolicy cfg)"
    by (rule appends_oneI) (auto simp: init_batch_receive_policy_def Let_def policy_positive_def split: option.split)
  have shared: "appends_ok (init_key_shared_policy N cfg)"
    by (rule appends_oneI) (auto simp: init_key_shared_policy_def key_shared_policy_ok split: option.split sum.split)
  have emits: "appends_ok (init_subscription_type cfg)" "appends_ok (init_position cfg)"
    "appends_ok (init_regex_mode cfg)" "appends_ok (init_consumer_name cfg)"
    "appends_ok (init_receiver_queue cfg)" "appends_ok (init_receiver_queue_across cfg)"
    "appends_ok (init_properties N cfg)" "appends_ok (init_read_compacted cfg)"
    "appends_ok (init_private_key cfg)" "appends_ok (init_crypto_failure_action cfg)"
    "appends_ok (init_max_pending_chunked cfg)" "appends_ok (init_auto_ack_oldest cfg)"
    "appends_ok (init_batch_index_ack cfg)" "appends_ok (init_dead_letter_policy cfg)"
    "appends_ok (init_replicate_state cfg)"
    unfolding init_subscription_type_def init_position_def init_regex_mode_def
      init_consumer_name_def init_receiver_queue_def init_receiver_queue_across_def init_properties_def
      init_read_compacted_def init_private_key_def init_crypto_failure_action_def
      init_max_pending_chunked_def init_auto_ack_oldest_def init_batch_index_ack_def
      init_dead_letter_policy_def init_replicate_state_def
    by (rule appends_ok_emit,
        simp add: option_calls_ok split: option.split)+
  assume "f \<in> set (option_steps N setPolicy cfg)"
  then show ?thesis
    unfolding option_steps_def using ack nack listen reader batch shared emits schema_step_ok by auto
qed

interpretation consumer: logged_pipeline "topic_steps cfg @ option_steps N setPolicy cfg"
    consumer_log consumer_call_ok
  for N setPolicy cfg
  by unfold_locales (auto intro: topic_steps_ok option_steps_ok)

text \<open>The same interface with the members of the object: what an undecided deferred says about them.\<close>

definition consumer_fields_ok :: "'cb consumer_state \<Rightarrow> bool" where
  "consumer_fields_ok s \<longleftrightarrow>
     (cons_topic (snd s) \<noteq> [] \<or> cons_topics (snd s) \<noteq> [] \<or> cons_topicsPattern (snd s) \<noteq> []) \<and>
     cons_subscription (snd s) \<noteq> [] \<and>
     (fate (fst s) = UNRESOLVED \<longrightarrow>
        (ackTimeoutMs (snd s) = 0 \<or> 10000 \<le> sint (ackTimeoutMs (snd s))) \<and>
        0 \<le> sint (nAckRedeliverTimeoutMs (snd s)))"

lemma fields_ok_calls [simp]: "consumer_fields_ok (d, calls xs c) = consumer_fields_ok (d, c)"
  by (simp add: consumer_fields_ok_def)

lemma fate_reject_return: "fate (fst (flow_state (reject_return msg s))) \<noteq> UNRESOLVED"
  by (auto simp: reject_return_def Reject_def Release_def split: sum.split)

lemma option_steps_fields:
  assumes "f \<in> set (option_steps N setPolicy cfg)" and "consumer_fields_ok s"
  shows "consumer_fields_ok (flow_state (f s))"
proof -
  have rej: "consumer_fields_ok (flow_state (reject_return msg (fst s, snd s\<lparr>ackTimeoutMs := a\<rparr>)))"
    "consumer_fields_ok (flow_state (reject_return msg (fst s, snd s\<lparr>nAckRedeliverTimeoutMs := a\<rparr>)))"
    "consumer_fields_ok (flow_state (reject_return msg (fst s, calls xs (snd s))))"
    "consumer_fields_ok (flow_state (reject_return msg s))" for msg a xs
    using assms(2) by (simp_all add: consumer_fields_ok_def fate_reject_return)
  have "consumer_fields_ok (flow_state (init_ack_timeout N cfg s))"
    "consumer_fields_ok (flow_state (init_nack_timeout N cfg s))"
    using assms(2) rej
    by (auto simp: init_ack_timeout_def init_nack_timeout_def Let_def MIN_ACK_TIMEOUT_MILLIS_def apsnd_def
        map_prod_def split_beta split: option.split) (auto simp: consumer_fields_ok_def)
  moreover have "consumer_fields_ok (flow_state (init_listener cfg s))"
    "consumer_fields_ok (flow_state (init_crypto_key_reader N cfg s))"
    "consumer_fields_ok (flow_state (init_schema N cfg s))"
    "consumer_fields_ok (flow_state (init_batch_receive_policy N setPolicy cfg s))"
    "consumer_fields_ok (flow_state (init_key_shared_policy N cfg s))"
    using assms(2) rej
    by (auto simp: init_listener_def init_crypto_key_reader_def init_schema_def init_batch_receive_policy_def
        init_key_shared_policy_def Let_def apsnd_def map_prod_def split_beta split: option.split sum.split)
      (auto simp: consumer_fields_ok_def)
  moreover have "consumer_fields_ok (flow_state (emit xs s))" for xs
    using assms(2) by simp
  ultimately show ?thesis
    using assms(1)
    unfolding option_steps_def init_subscription_type_def init_position_def init_regex_mode_def
      init_consumer_name_def init_receiver_queue_def init_receiver_queue_across_def init_properties_def
      init_read_compacted_def init_private_key_def init_crypto_failure_action_def
      init_max_pending_chunked_def init_auto_ack_oldest_def init_batch_index_ack_def
      init_dead_letter_policy_def init_replicate_state_def
    by (simp only: list.set insert_iff empty_iff) (elim disjE; simp only:)
qed

interpretation consumer_fields: step_pipeline "option_steps N setPolicy cfg" consumer_fields_ok "\<lambda>_ _. True"
  for N setPolicy cfg
  by unfold_locales (auto intro: option_steps_fields)

lemma InitConfig_fields:
  assumes "InitConfig N setPolicy cfg (New, ConsumerConfig) = Continue (d :: 'cb deferred, c)"
  shows "d = New \<and> consumer_fields_ok (d, c)"
proof -
  have ok: "consumer_verdict N setPolicy cfg = Accepted"
    using InitConfig_meets [of N setPolicy cfg, where ?'cb = 'cb] assms
    by (cases "consumer_verdict N setPolicy cfg") auto
  then have v: "topic_verdict cfg = Accepted" "subscription_verdict cfg = Accepted"
    by (auto simp: consumer_verdict_def split: if_splits)
  then have run: "run_steps (option_steps N setPolicy cfg) (New, named_config cfg) = Continue (d, c)"
    using assms by (simp add: InitConfig_def run_steps_append topic_steps_run)
  have "consumer_fields_ok (New :: 'cb deferred, named_config cfg)"
    using v by (auto simp: consumer_fields_ok_def named_config_def ConsumerConfig_def topic_verdict_def
        subscription_verdict_def split: if_splits)
  from consumer_fields.run_inv [OF this, of N setPolicy cfg] run have "consumer_fields_ok (d, c)" by simp
  moreover have "d = New"
    using InitConfig_meets [of N setPolicy cfg, where ?'cb = 'cb] assms ok by simp
  ultimately show ?thesis by simp
qed

lemma agree_on_consumer:
  assumes "agree_on consumer_keys cfg cfg'"
  shows "topic_steps cfg = topic_steps cfg'" "option_steps N setPolicy cfg = option_steps N setPolicy cfg'"
proof -
  note g = agree_on_getters [OF assms]
  show "topic_steps cfg = topic_steps cfg'"
    unfolding topic_steps_def init_topic_def init_topics_def init_topicsPattern_def init_subscription_def
    by (simp add: g consumer_keys_def)
  show "option_steps N setPolicy cfg = option_steps N setPolicy cfg'"
    unfolding option_steps_def steps_def by (simp add: g consumer_keys_def)
qed

subsection \<open>Properties\<close>


text \<open>
  An accepted configuration names a topic, a list of topics or a pattern, and a
  subscription; its acknowledgement timeout is zero or at least ten seconds and its
  redelivery delay is not negative.
\<close>

theorem InitConfig_accepted:
  assumes "InitConfig N setPolicy cfg (New, ConsumerConfig) = Continue (d, c)"
  shows "(cons_topic c \<noteq> [] \<or> cons_topics c \<noteq> [] \<or> cons_topicsPattern c \<noteq> []) \<and>
    cons_subscription c \<noteq> [] \<and>
    (ackTimeoutMs c = 0 \<or> 10000 \<le> sint (ackTimeoutMs c)) \<and> 0 \<le> sint (nAckRedeliverTimeoutMs c)"
  using InitConfig_fields [OF assms] by (simp add: consumer_fields_ok_def)

definition example_consumer :: js_value where
  "example_consumer = JObject [(''topic'', JString ''t''), (''subscription'', JString ''s''),
     (''ackTimeoutMs'', JNumber (Finite 10000))]"

theorem InitConfig_accepted_witness:
  "\<exists>c. InitConfig napi_ref (\<lambda>p. 0) example_consumer (New :: unit deferred, ConsumerConfig) = Continue (New, c) \<and>
     cons_subscription c \<noteq> [] \<and> (ackTimeoutMs c = 0 \<or> 10000 \<le> sint (ackTimeoutMs c))"
proof -
  have "consumer_verdict napi_ref (\<lambda>p. 0) example_consumer = Accepted"
    by (simp add: consumer_verdict_def example_consumer_def topic_verdict_def subscription_verdict_def
        ack_verdict_def nack_verdict_def schema_verdict_def key_reader_verdict_def batch_verdict_def
        key_shared_verdict_def text_of_def getter_defs Has_def Get_def is_defs Int64Value_def fits64_def)
  then obtain c where "InitConfig napi_ref (\<lambda>p. 0) example_consumer (New :: unit deferred, ConsumerConfig) = Continue (New, c)"
    using InitConfig_meets [of napi_ref "\<lambda>p. 0" example_consumer, where ?'cb = unit] by auto
  with InitConfig_accepted [OF this] show ?thesis by blast
qed

text \<open>
  C22. However \<open>InitConfig\<close> ends, every setter call it made on the C client's configuration
  has a valid argument: queue sizes and counts are not negative, a timeout that was rejected is
  not passed on, a batch receive policy has a positive limit, every sticky range starts no later
  than it ends, strings contain no NUL.
\<close>

theorem InitConfig_calls_valid:
  "list_all consumer_call_ok
     (cConsumerConfig (snd (flow_state (InitConfig N setPolicy cfg (d, ConsumerConfig)))))"
  using consumer.run_inv [of "(d, ConsumerConfig)" cfg N setPolicy]
  by (simp add: InitConfig_def ConsumerConfig_def)

text \<open>
  Only the documented options matter: configuration objects that agree on the keys the
  source names are treated alike, in any state, whatever else they contain.
\<close>

theorem InitConfig_reads_only_its_keys:
  assumes "agree_on consumer_keys cfg cfg'"
  shows "InitConfig N setPolicy cfg s = InitConfig N setPolicy cfg' s"
  by (simp only: InitConfig_def agree_on_consumer [OF assms])

theorem InitConfig_reads_only_its_keys_witness:
  "InitConfig napi_ref (\<lambda>p. 0) example_consumer (New :: unit deferred, ConsumerConfig) =
   InitConfig napi_ref (\<lambda>p. 0) (JObject ((''other'', JNull) # props example_consumer)) (New, ConsumerConfig)"
  by (rule InitConfig_reads_only_its_keys) (simp add: agree_on_def consumer_keys_def example_consumer_def)

text \<open>
  The sticky ranges of a key-shared policy: the loop accepts a list exactly when each
  element is an object with numeric bounds in order, and then keeps all of them in order;
  otherwise it reports the first offending index.
\<close>

theorem sticky_ranges_validated:
  "(case read_sticky_ranges N 0 rs [] of
      Inr ranges \<Rightarrow> ranges = map (range_of N) rs \<and> (\<forall>i < length rs. range_error N i (rs ! i) = None)
    | Inl msg \<Rightarrow> (\<exists>i < length rs. range_error N i (rs ! i) = Some msg \<and>
        (\<forall>j < i. range_error N j (rs ! j) = None)))"
  by (auto simp: read_sticky_ranges_spec split: option.split
      dest: first_range_error_all_ok [of N 0, simplified] first_range_error_first [of N 0, simplified])

definition example_range :: js_value where
  "example_range = JObject [(''start'', JNumber (Finite 1)), (''end'', JNumber (Finite 2))]"

theorem sticky_ranges_validated_witness:
  "read_sticky_ranges napi_ref 0 [example_range] [] = Inr [(1, 2)] \<and> range_of napi_ref example_range = (1, 2) \<and>
   range_error napi_ref 0 example_range = None"
proof -
  have "read_sticky_ranges napi_ref 0 [example_range] [] = Inr [(1, 2)]"
    by (simp add: example_range_def is_defs Has_def Get_def ToNumber_def Int32Value_def)
  with sticky_ranges_validated [of "[example_range]" napi_ref] show ?thesis by simp
qed

text \<open>
  C26. The byte limit of a batch receive policy passes through a variable of type \<open>int\<close>:
  of the 64-bit values the option can hold, exactly those within 32 bits reach the C client
  unchanged. A limit of 4 GiB, for one, arrives as zero.
\<close>

theorem batch_byte_limit_exact_iff_32_bits:
  assumes "get_number o' ''maxNumBytes'' = Some (Finite (of_int i))" and "- (2 ^ 63) \<le> i" and "i < 2 ^ 63"
  shows "sint (maxNumBytes (read_batch_receive_policy N o')) = i \<longleftrightarrow> - (2 ^ 31) \<le> i \<and> i < 2 ^ 31"
proof -
  have "Int64Value N (Finite (of_int i)) = word_of_int i"
    using assms(2,3) by (simp add: Int64Value_def fits64_def)
  moreover have "ucast (word_of_int i :: int64) = (word_of_int i :: int32)"
    by (rule bit_word_eqI) (simp add: bit_simps)
  ultimately have "sint (maxNumBytes (read_batch_receive_policy N o')) = signed_take_bit 31 i"
    using assms(1) by (simp add: read_batch_receive_policy_def sint_sbintrunc')
  then show ?thesis by (simp add: signed_take_bit_int_eq_self_iff)
qed

theorem batch_byte_limit_exact_iff_32_bits_witness:
  "sint (maxNumBytes (read_batch_receive_policy napi_ref
     (JObject [(''maxNumBytes'', JNumber (Finite (of_int 4294967296)))]))) \<noteq> 4294967296"
  using batch_byte_limit_exact_iff_32_bits [of "JObject [(''maxNumBytes'', JNumber (Finite (of_int 4294967296)))]"
      4294967296 napi_ref]
  by (simp add: getter_defs is_defs Has_def Get_def)

end
