(* ===== verification/Producer_Config.thy ===== *)
theory Producer_Config
  imports Config_Common
begin

section \<open>ProducerConfig\<close>

text \<open>
  \<open>src/ProducerConfig.h\<close>, \<open>src/ProducerConfig.cc\<close>: the configuration object of
  \<open>createProducer\<close> and the custom message router. The constructor is a sequence of blocks
  like \<open>InitConfig\<close> of the consumer, but it validates nothing: an option of the wrong type
  or range is ignored. The local variable \<open>useCustomPartition\<close> is the second component of
  the state. The lemmas say when the constructor throws, that every call it makes is valid, when
  the router is installed, and what partition a router chooses.
\<close>

datatype routing_mode = UseSinglePartition | RoundRobinDistribution | CustomPartition

datatype hashing_scheme = Murmur3_32Hash | BoostHash | JavaStringHash

datatype producer_crypto_failure_action = ProducerFail | ProducerSend

datatype producer_access_mode = AccessModeShared | AccessModeExclusive | AccessModeWaitForExclusive
  | AccessModeExclusiveWithFencing

datatype batching_type = DefaultBatching | KeyBasedBatching

definition MESSAGE_ROUTING_MODE :: "(string \<times> routing_mode) list" where
  "MESSAGE_ROUTING_MODE = [(''UseSinglePartition'', UseSinglePartition),
     (''RoundRobinDistribution'', RoundRobinDistribution), (''CustomPartition'', CustomPartition)]"

definition HASHING_SCHEME :: "(string \<times> hashing_scheme) list" where
  "HASHING_SCHEME = [(''Murmur3_32Hash'', Murmur3_32Hash), (''BoostHash'', BoostHash),
     (''JavaStringHash'', JavaStringHash)]"

definition COMPRESSION_TYPE :: "(string \<times> compression_type) list" where
  "COMPRESSION_TYPE = [(''None'', CompressionNone), (''Zlib'', CompressionZLib), (''LZ4'', CompressionLZ4),
     (''ZSTD'', CompressionZSTD), (''SNAPPY'', CompressionSNAPPY)]"

definition PRODUCER_CRYPTO_FAILURE_ACTION :: "(string \<times> producer_crypto_failure_action) list" where
  "PRODUCER_CRYPTO_FAILURE_ACTION = [(''FAIL'', ProducerFail), (''SEND'', ProducerSend)]"

definition PRODUCER_ACCESS_MODE :: "(string \<times> producer_access_mode) list" where
  "PRODUCER_ACCESS_MODE = [(''Shared'', AccessModeShared), (''Exclusive'', AccessModeExclusive),
     (''WaitForExclusive'', AccessModeWaitForExclusive),
     (''ExclusiveWithFencing'', AccessModeExclusiveWithFencing)]"

definition PRODUCER_BATCHING_TYPE :: "(string \<times> batching_type) list" where
  "PRODUCER_BATCHING_TYPE = [(''DefaultBatching'', DefaultBatching), (''KeyBasedBatching'', KeyBasedBatching)]"

subsection \<open>Setter calls\<close>

text \<open>
  \<open>PSet_message_router f\<close> installs \<open>choosePartition\<close> with the reference to the
  JavaScript function \<open>f\<close> as its context.
\<close>

datatype producer_call =
    PSet_producer_name string
  | PSet_send_timeout int32
  | PSet_initial_sequence_id int64
  | PSet_max_pending_messages int32
  | PSet_max_pending_messages_across_partitions int32
  | PSet_block_if_queue_full bool
  | PSet_partitions_routing_mode routing_mode
  | PSet_hashing_scheme hashing_scheme
  | PSet_compression_type compression_type
  | PSet_batching_enabled bool
  | PSet_batching_max_publish_delay_ms int64
  | PSet_batching_max_messages uint32
  | PSet_batching_max_allowed_size_in_bytes int64
  | PSet_schema schema_info
  | PSet_property string string
  | PSet_default_crypto_key_reader string string
  | PSet_encryption_key string
  | PAddEncryptionKey string
  | PSet_crypto_key_reader js_value
  | PSet_crypto_failure_action producer_crypto_failure_action
  | PSet_chunking_enabled bool
  | PSet_access_mode producer_access_mode
  | PSet_batching_type batching_type
  | PSet_message_router nat

record producer_config =
  cProducerConfig :: "producer_call list"
  prod_topic :: string
  messageRouter :: "nat option"

type_synonym producer_state = "producer_config \<times> bool"
type_synonym producer_step = "producer_state \<Rightarrow> producer_state flow"

definition initial_producer :: producer_state where
  "initial_producer = (\<lparr>cProducerConfig = [], prod_topic = '''', messageRouter = None\<rparr>, False)"

definition producer_keys :: "string list" where
  "producer_keys = [''topic'', ''producerName'', ''sendTimeoutMs'', ''initialSequenceId'',
     ''maxPendingMessages'', ''maxPendingMessagesAcrossPartitions'', ''blockIfQueueFull'',
     ''messageRoutingMode'', ''hashingScheme'', ''compressionType'', ''batchingEnabled'',
     ''batchingMaxPublishDelayMs'', ''batchingMaxMessages'', ''batchingMaxAllowedSizeInBytes'', ''schema'',
     ''properties'', ''publicKeyPath'', ''encryptionKey'', ''encryptionKeys'', ''cryptoKeyReader'',
     ''cryptoFailureAction'', ''chunkingEnabled'', ''accessMode'', ''batchingType'', ''messageRouter'']"

definition pemit :: "producer_call list \<Rightarrow> producer_step" where
  "pemit xs s = Continue (apfst (\<lambda>c. c\<lparr>cProducerConfig := cProducerConfig c @ xs\<rparr>) s)"

subsection \<open>The blocks of the constructor\<close>

definition prod_init_topic :: "js_value \<Rightarrow> producer_step" where [steps_def]:
  "prod_init_topic cfg s = Continue (case get_string cfg ''topic'' of
       None \<Rightarrow> s
     | Some t \<Rightarrow> apfst (\<lambda>c. c\<lparr>prod_topic := t\<rparr>) s)"

definition prod_init_name :: "js_value \<Rightarrow> producer_step" where [steps_def]:
  "prod_init_name cfg = pemit (nonempty_calls PSet_producer_name (get_string cfg ''producerName''))"

definition prod_init_send_timeout :: "js_value \<Rightarrow> producer_step" where [steps_def]:
  "prod_init_send_timeout cfg = pemit (positive32_calls PSet_send_timeout (get_number cfg ''sendTimeoutMs''))"

definition prod_init_sequence_id :: "napi \<Rightarrow> js_value \<Rightarrow> producer_step" where [steps_def]:
  "prod_init_sequence_id N cfg = pemit (case get_number cfg ''initialSequenceId'' of
       None \<Rightarrow> []
     | Some n \<Rightarrow> [PSet_initial_sequence_id (Int64Value N n)])"

definition prod_init_max_pending :: "js_value \<Rightarrow> producer_step" where [steps_def]:
  "prod_init_max_pending cfg =
     pemit (positive32_calls PSet_max_pending_messages (get_number cfg ''maxPendingMessages''))"

definition prod_init_max_pending_across :: "js_value \<Rightarrow> producer_step" where [steps_def]:
  "prod_init_max_pending_across cfg = pemit (positive32_calls PSet_max_pending_messages_across_partitions
     (get_number cfg ''maxPendingMessagesAcrossPartitions''))"

definition prod_init_block :: "js_value \<Rightarrow> producer_step" where [steps_def]:
  "prod_init_block cfg = pemit (boolean_calls PSet_block_if_queue_full (get_boolean cfg ''blockIfQueueFull''))"

definition prod_init_routing :: "js_value \<Rightarrow> producer_step" where [steps_def]:
  "prod_init_routing cfg s = (case get_string cfg ''messageRoutingMode'' of
       None \<Rightarrow> Continue s
     | Some mode \<Rightarrow> pemit (enum_calls MESSAGE_ROUTING_MODE PSet_partitions_routing_mode (Some mode))
         (fst s, mode = ''CustomPartition''))"

definition prod_init_hashing :: "js_value \<Rightarrow> producer_step" where [steps_def]:
  "prod_init_hashing cfg = pemit (enum_calls HASHING_SCHEME PSet_hashing_scheme (get_string cfg ''hashingScheme''))"

definition prod_init_compression :: "js_value \<Rightarrow> producer_step" where [steps_def]:
  "prod_init_compression cfg =
     pemit (enum_calls COMPRESSION_TYPE PSet_compression_type (get_string cfg ''compressionType''))"

definition prod_init_batching :: "js_value \<Rightarrow> producer_step" where [steps_def]:
  "prod_init_batching cfg = pemit (boolean_calls PSet_batching_enabled (get_boolean cfg ''batchingEnabled''))"

text \<open>The casts to \<open>long\<close> and \<open>unsigned long\<close> keep the 64 bits (LP64).\<close>

definition prod_init_batch_delay :: "napi \<Rightarrow> js_value \<Rightarrow> producer_step" where [steps_def]:
  "prod_init_batch_delay N cfg = pemit (positive64_calls N PSet_batching_max_publish_delay_ms
     (get_number cfg ''batchingMaxPublishDelayMs''))"

definition prod_init_batch_messages :: "js_value \<Rightarrow> producer_step" where [steps_def]:
  "prod_init_batch_messages cfg =
     pemit (positiveU32_calls PSet_batching_max_messages (get_number cfg ''batchingMaxMessages''))"

definition prod_init_batch_bytes :: "napi \<Rightarrow> js_value \<Rightarrow> producer_step" where [steps_def]:
  "prod_init_batch_bytes N cfg = pemit (positive64_calls N PSet_batching_max_allowed_size_in_bytes
     (get_number cfg ''batchingMaxAllowedSizeInBytes''))"

text \<open>As for the consumer, an exception the schema leaves pending is raised by the next N-API call.\<close>

definition SetProducerSchema :: "schema_info \<Rightarrow> producer_step" where [simp]:
  "SetProducerSchema schemaInfo = pemit [PSet_schema schemaInfo]"

definition prod_init_schema :: "napi \<Rightarrow> js_value \<Rightarrow> producer_step" where [steps_def]:
  "prod_init_schema N cfg s = (case get_object cfg ''schema'' of
       None \<Rightarrow> Continue s
     | Some v \<Rightarrow>
         (case SchemaInfo N v of
            (schemaInfo, None) \<Rightarrow> SetProducerSchema schemaInfo s
          | (schemaInfo, Some e) \<Rightarrow> Throw e (flow_state (SetProducerSchema schemaInfo s))))"

definition prod_init_properties :: "napi \<Rightarrow> js_value \<Rightarrow> producer_step" where [steps_def]:
  "prod_init_properties N cfg = pemit (property_calls N PSet_property (get_object cfg ''properties''))"

definition prod_init_public_key :: "js_value \<Rightarrow> producer_step" where [steps_def]:
  "prod_init_public_key cfg = pemit (case get_string cfg ''publicKeyPath'' of
       None \<Rightarrow> []
     | Some p \<Rightarrow> PSet_default_crypto_key_reader (c_str p) '''' #
         (case get_string cfg ''encryptionKey'' of None \<Rightarrow> [] | Some k \<Rightarrow> [PSet_encryption_key (c_str k)]))"

definition prod_init_encryption_keys :: "js_value \<Rightarrow> producer_step" where [steps_def]:
  "prod_init_encryption_keys cfg = pemit (case get_array cfg ''encryptionKeys'' of
       None \<Rightarrow> []
     | Some keys \<Rightarrow> map PAddEncryptionKey (string_elements keys))"

definition prod_init_crypto_key_reader :: "napi \<Rightarrow> js_value \<Rightarrow> producer_step" where [steps_def]:
  "prod_init_crypto_key_reader N cfg s = (case get_object cfg ''cryptoKeyReader'' of
       None \<Rightarrow> Continue s
     | Some v \<Rightarrow> (case CryptoKeyReader_Unwrap N v of
           Inl e \<Rightarrow> Throw e s
         | Inr r \<Rightarrow> pemit [PSet_crypto_key_reader r] s))"

definition prod_init_crypto_failure_action :: "js_value \<Rightarrow> producer_step" where [steps_def]:
  "prod_init_crypto_failure_action cfg = pemit (enum_calls PRODUCER_CRYPTO_FAILURE_ACTION
     PSet_crypto_failure_action (get_string cfg ''cryptoFailureAction''))"

definition prod_init_chunking :: "js_value \<Rightarrow> producer_step" where [steps_def]:
  "prod_init_chunking cfg = pemit (boolean_calls PSet_chunking_enabled (get_boolean cfg ''chunkingEnabled''))"

text \<open>These two options are converted to a string whatever their type, also when missing.\<close>

definition prod_init_access_mode :: "napi \<Rightarrow> js_value \<Rightarrow> producer_step" where [steps_def]:
  "prod_init_access_mode N cfg =
     pemit (enum_calls PRODUCER_ACCESS_MODE PSet_access_mode (Some (ToString N (Get cfg ''accessMode''))))"

definition prod_init_batching_type :: "napi \<Rightarrow> js_value \<Rightarrow> producer_step" where [steps_def]:
  "prod_init_batching_type N cfg =
     pemit (enum_calls PRODUCER_BATCHING_TYPE PSet_batching_type (Some (ToString N (Get cfg ''batchingType''))))"

definition prod_init_router :: "js_value \<Rightarrow> producer_step" where [steps_def]:
  "prod_init_router cfg s =
     (if snd s \<and> Has cfg ''messageRouter'' then
        (case Get cfg ''messageRouter'' of
           JFunction f \<Rightarrow> pemit [PSet_message_router f] (apfst (\<lambda>c. c\<lparr>messageRouter := Some f\<rparr>) s)
         | _ \<Rightarrow> Continue s)
      else Continue s)"

definition producer_steps :: "napi \<Rightarrow> js_value \<Rightarrow> producer_step list" where
  "producer_steps N cfg =
     [prod_init_topic cfg, prod_init_name cfg, prod_init_send_timeout cfg, prod_init_sequence_id N cfg,
      prod_init_max_pending cfg, prod_init_max_pending_across cfg, prod_init_block cfg, prod_init_routing cfg,
      prod_init_hashing cfg, prod_init_compression cfg, prod_init_batching cfg, prod_init_batch_delay N cfg,
      prod_init_batch_messages cfg, prod_init_batch_bytes N cfg, prod_init_schema N cfg,
      prod_init_properties N cfg, prod_init_public_key cfg, prod_init_encryption_keys cfg,
      prod_init_crypto_key_reader N cfg, prod_init_crypto_failure_action cfg, prod_init_chunking cfg,
      prod_init_access_mode N cfg, prod_init_batching_type N cfg, prod_init_router cfg]"

definition ProducerConfig :: "napi \<Rightarrow> js_value \<Rightarrow> producer_state flow" where
  "ProducerConfig N cfg = run_steps (producer_steps N cfg) initial_producer"

subsection \<open>The message router\<close>

text \<open>
  \<open>router\<close> is the JavaScript function: called with the message and the topic's metadata it
  returns a value or throws an error. The partition of a failed call is the number of partitions.
\<close>

definition choosePartition :: "napi \<Rightarrow> (js_value list \<Rightarrow> string + js_value) \<Rightarrow> ptr \<Rightarrow> int32 \<Rightarrow> int32" where
  "choosePartition N router msg numPartitions =
     (let jsMessage = JNative (N_Message (Some msg)) [];
          jsTopicMetadata = JObject [(''numPartitions'', JNumber (Finite (of_int (sint numPartitions))))]
      in case router [jsMessage, jsTopicMetadata] of
           Inl e \<Rightarrow> numPartitions
         | Inr v \<Rightarrow> Int32Value (ToNumber N v))"

subsection \<open>Lemmas on the blocks\<close>

lemma pemit_simps [simp]:
  "pemit xs s = Continue ((fst s)\<lparr>cProducerConfig := cProducerConfig (fst s) @ xs\<rparr>, snd s)"
  by (simp add: pemit_def apfst_def map_prod_def split_beta)

lemmas producer_emit_defs = prod_init_name_def prod_init_send_timeout_def prod_init_sequence_id_def
  prod_init_max_pending_def prod_init_max_pending_across_def prod_init_block_def prod_init_hashing_def
  prod_init_compression_def prod_init_batching_def prod_init_batch_delay_def prod_init_batch_messages_def
  prod_init_batch_bytes_def prod_init_properties_def prod_init_public_key_def prod_init_encryption_keys_def
  prod_init_crypto_failure_action_def prod_init_chunking_def prod_init_access_mode_def
  prod_init_batching_type_def

lemmas producer_other_defs = prod_init_topic_def prod_init_routing_def prod_init_schema_def
  prod_init_crypto_key_reader_def prod_init_router_def

text \<open>The blocks that can end the constructor: the schema and the crypto key reader.\<close>

definition producer_verdicts :: "napi \<Rightarrow> js_value \<Rightarrow> verdict list" where
  "producer_verdicts N cfg = replicate 14 Accepted @ [schema_verdict cfg] @ replicate 3 Accepted @
     [key_reader_verdict N cfg] @ replicate 5 Accepted"

abbreviation producer_meets :: "producer_state flow \<Rightarrow> verdict \<Rightarrow> bool" where
  "producer_meets \<equiv> meets (\<lambda>_. True) (\<lambda>_ _. False)"

lemma producer_block_meets:
  "producer_meets (pemit xs s) Accepted" "producer_meets (prod_init_topic cfg s) Accepted"
  "producer_meets (prod_init_routing cfg s) Accepted" "producer_meets (prod_init_router cfg s) Accepted"
  "producer_meets (prod_init_schema N cfg s) (schema_verdict cfg)"
  "producer_meets (prod_init_crypto_key_reader N cfg s) (key_reader_verdict N cfg)"
proof -
  show "producer_meets (prod_init_schema N cfg s) (schema_verdict cfg)"
  proof (cases "get_object cfg ''schema''")
    case (Some v)
    obtain i p where i: "SchemaInfo N v = (i, p)" by (cases "SchemaInfo N v")
    with SchemaInfo_exception [of N v] Some show ?thesis
      by (auto simp: meets_def prod_init_schema_def schema_verdict_def split: option.splits)
  qed (simp add: meets_def prod_init_schema_def schema_verdict_def)
qed (auto simp: meets_def producer_other_defs key_reader_verdict_def
      split: option.split sum.split js_value.split)

interpretation producer_options: judged_pipeline "producer_steps N cfg" "producer_verdicts N cfg"
    "\<lambda>_. True" "\<lambda>_ _. False"
  for N cfg
  by unfold_locales
    (simp add: producer_steps_def producer_verdicts_def numeral_eq_Suc producer_emit_defs
      producer_block_meets del: pemit_simps)

subsection \<open>What reaches the C client\<close>

fun producer_call_ok :: "producer_call \<Rightarrow> bool" where
  "producer_call_ok (PSet_producer_name n) \<longleftrightarrow> CHR 0x00 \<notin> set n"
| "producer_call_ok (PSet_send_timeout t) \<longleftrightarrow> 0 < sint t"
| "producer_call_ok (PSet_max_pending_messages n) \<longleftrightarrow> 0 < sint n"
| "producer_call_ok (PSet_max_pending_messages_across_partitions n) \<longleftrightarrow> 0 < sint n"
| "producer_call_ok (PSet_batching_max_publish_delay_ms t) \<longleftrightarrow> 0 < sint t"
| "producer_call_ok (PSet_batching_max_messages n) \<longleftrightarrow> 0 < n"
| "producer_call_ok (PSet_batching_max_allowed_size_in_bytes n) \<longleftrightarrow> 0 < sint n"
| "producer_call_ok (PSet_schema s) \<longleftrightarrow> smap_wf (schema_properties s)"
| "producer_call_ok (PSet_property k v) \<longleftrightarrow> CHR 0x00 \<notin> set k \<and> CHR 0x00 \<notin> set v"
| "producer_call_ok (PSet_default_crypto_key_reader pub priv) \<longleftrightarrow> CHR 0x00 \<notin> set pub \<and> priv = []"
| "producer_call_ok (PSet_encryption_key k) \<longleftrightarrow> CHR 0x00 \<notin> set k"
| "producer_call_ok _ \<longleftrightarrow> True"

abbreviation producer_log :: "producer_state \<Rightarrow> producer_call list" where
  "producer_log s \<equiv> cProducerConfig (fst s)"

lemma appends_pemit:
  "list_all ok xs \<Longrightarrow> appends producer_log ok (pemit xs)"
  by (rule appendsI) auto

lemma producer_emits_ok:
  "list_all (appends producer_log producer_call_ok)
     [prod_init_name cfg, prod_init_send_timeout cfg, prod_init_sequence_id N cfg,
      prod_init_max_pending cfg, prod_init_max_pending_across cfg, prod_init_block cfg,
      prod_init_hashing cfg, prod_init_compression cfg, prod_init_batching cfg, prod_init_batch_delay N cfg,
      prod_init_batch_messages cfg, prod_init_batch_bytes N cfg, prod_init_properties N cfg,
      prod_init_public_key cfg, prod_init_encryption_keys cfg, prod_init_crypto_failure_action cfg,
      prod_init_chunking cfg, prod_init_access_mode N cfg, prod_init_batching_type N cfg]"
  unfolding producer_emit_defs list_all_iff list.set ball_simps
  by (intro conjI TrueI; rule appends_pemit;
      simp add: option_calls_ok list.pred_map comp_def list_all_True split: option.split)

lemma prod_init_schema_ok: "appends producer_log producer_call_ok (prod_init_schema N cfg)"
proof (rule appends_oneI)
  fix s
  show "producer_log (flow_state (prod_init_schema N cfg s)) = producer_log s \<or>
    (\<exists>x. producer_call_ok x \<and> producer_log (flow_state (prod_init_schema N cfg s)) = producer_log s @ [x])"
  proof (cases "get_object cfg ''schema''")
    case (Some v)
    obtain i p where i: "SchemaInfo N v = (i, p)" by (cases "SchemaInfo N v")
    then have "producer_call_ok (PSet_schema i)" by (simp add: SchemaInfo_wf)
    moreover from Some i have
      "producer_log (flow_state (prod_init_schema N cfg s)) = producer_log s @ [PSet_schema i]"
      by (simp add: prod_init_schema_def split: option.split)
    ultimately show ?thesis by blast
  qed (simp add: prod_init_schema_def)
qed

lemma producer_others_ok:
  "list_all (appends producer_log producer_call_ok)
     [prod_init_topic cfg, prod_init_routing cfg, prod_init_crypto_key_reader N cfg, prod_init_router cfg]"
proof -
  have "list_all producer_call_ok (enum_calls MESSAGE_ROUTING_MODE PSet_partitions_routing_mode x)" for x
    by (rule enum_calls_ok) simp
  then have "appends producer_log producer_call_ok (prod_init_routing cfg)"
    by (intro appendsI [where xs = "\<lambda>_. case get_string cfg ''messageRoutingMode'' of None \<Rightarrow> []
          | Some m \<Rightarrow> enum_calls MESSAGE_ROUTING_MODE PSet_partitions_routing_mode (Some m)"])
      (simp_all add: prod_init_routing_def split: option.split)
  moreover have "appends producer_log producer_call_ok (prod_init_topic cfg)"
    "appends producer_log producer_call_ok (prod_init_crypto_key_reader N cfg)"
    "appends producer_log producer_call_ok (prod_init_router cfg)"
    by (rule appends_oneI; simp add: prod_init_topic_def prod_init_crypto_key_reader_def prod_init_router_def
        split: option.split sum.split js_value.split)+
  ultimately show ?thesis by simp
qed

interpretation producer: logged_pipeline "producer_steps N cfg" producer_log producer_call_ok for N cfg
  using producer_emits_ok producer_others_ok prod_init_schema_ok
  by unfold_locales (auto simp: producer_steps_def)

text \<open>
  The blocks other than those of the routing mode and of the router leave both alone: the
  flag, the member, and the calls on the router in the log.
\<close>

definition router_frame :: "producer_state \<Rightarrow> producer_state \<Rightarrow> bool" where
  "router_frame s t \<longleftrightarrow> snd t = snd s \<and> messageRouter (fst t) = messageRouter (fst s) \<and>
     prefix (producer_log s) (producer_log t) \<and>
     (\<forall>g. PSet_message_router g \<in> set (producer_log t) \<longrightarrow> PSet_message_router g \<in> set (producer_log s))"

definition early_steps :: "napi \<Rightarrow> js_value \<Rightarrow> producer_step list" where
  "early_steps N cfg = take 7 (producer_steps N cfg)"

definition middle_steps :: "napi \<Rightarrow> js_value \<Rightarrow> producer_step list" where
  "middle_steps N cfg = take 15 (drop 8 (producer_steps N cfg))"

lemmas part_defs = early_steps_def middle_steps_def producer_steps_def

lemma producer_steps_parts:
  "producer_steps N cfg =
     early_steps N cfg @ prod_init_routing cfg # middle_steps N cfg @ [prod_init_router cfg]"
  by (simp add: part_defs)

lemma router_frame_pemit:
  "(\<And>g. PSet_message_router g \<notin> set xs) \<Longrightarrow> router_frame s (flow_state (pemit xs s))"
  by (simp add: router_frame_def)

lemma router_frame_emits:
  assumes "f \<in> {prod_init_name cfg, prod_init_send_timeout cfg, prod_init_sequence_id N cfg,
      prod_init_max_pending cfg, prod_init_max_pending_across cfg, prod_init_block cfg,
      prod_init_hashing cfg, prod_init_compression cfg, prod_init_batching cfg, prod_init_batch_delay N cfg,
      prod_init_batch_messages cfg, prod_init_batch_bytes N cfg, prod_init_properties N cfg,
      prod_init_public_key cfg, prod_init_encryption_keys cfg, prod_init_crypto_failure_action cfg,
      prod_init_chunking cfg, prod_init_access_mode N cfg, prod_init_batching_type N cfg}"
  shows "router_frame s (flow_state (f s))"
proof -
  have "PSet_message_router g \<notin> set (enum_calls table setter x)"
    if "\<And>e. setter e \<noteq> PSet_message_router g" for g x and table :: "(string \<times> 'e) list" and setter
    using that by (metis set_enum_calls)
  note enum = this
  show ?thesis
    using assms unfolding producer_emit_defs
    by (elim insertE emptyE; simp only:; intro router_frame_pemit;
        simp add: enum positive32_calls_def positiveU32_calls_def positive64_calls_def boolean_calls_def
          nonempty_calls_def property_calls_def Let_def image_iff split_beta split: option.split)
qed

lemma router_frame_others:
  "router_frame s (flow_state (prod_init_topic cfg s))"
  "router_frame s (flow_state (prod_init_schema N cfg s))"
  "router_frame s (flow_state (prod_init_crypto_key_reader N cfg s))"
  by (auto simp: router_frame_def prod_init_topic_def prod_init_schema_def prod_init_crypto_key_reader_def
      split: option.split sum.split prod.split)

interpretation router: step_pipeline "early_steps N cfg @ middle_steps N cfg" "\<lambda>_. True" router_frame
  for N cfg
proof
  fix f s
  assume "f \<in> set (early_steps N cfg @ middle_steps N cfg)"
  then show "router_frame s (flow_state (f s))"
    by (auto simp: part_defs intro: router_frame_others router_frame_emits)
qed (auto simp: router_frame_def)

lemma router_frame_run:
  "set fs \<subseteq> set (early_steps N cfg @ middle_steps N cfg) \<Longrightarrow> run_steps fs s = Continue t \<Longrightarrow> router_frame s t"
  using router.run_part [of fs N cfg s] by simp

lemma ProducerConfig_parts:
  assumes "ProducerConfig N cfg = Continue u"
  obtains s t v where "router_frame initial_producer s" "prod_init_routing cfg s = Continue t"
    "router_frame t v" "prod_init_router cfg v = Continue u"
proof -
  from assms obtain s t v where "run_steps (early_steps N cfg) initial_producer = Continue s"
    "prod_init_routing cfg s = Continue t" "run_steps (middle_steps N cfg) t = Continue v"
    "prod_init_router cfg v = Continue u"
    unfolding ProducerConfig_def producer_steps_parts run_steps_append_Continue run_steps_Cons_Continue
    by (auto split: flow.splits)
  moreover from this(1,3) have "router_frame initial_producer s" "router_frame t v"
    by (auto intro: router_frame_run [of _ N cfg])
  ultimately show thesis using that by blast
qed

lemma ProducerConfig_router:
  assumes "ProducerConfig N cfg = Continue (c, b)"
  shows "(messageRouter c = Some f \<longleftrightarrow>
      get_string cfg ''messageRoutingMode'' = Some ''CustomPartition'' \<and> get_function cfg ''messageRouter'' = Some f) \<and>
    (PSet_message_router f \<in> set (cProducerConfig c) \<longleftrightarrow> messageRouter c = Some f) \<and>
    (messageRouter c = Some f \<longrightarrow> PSet_partitions_routing_mode CustomPartition \<in> set (cProducerConfig c))"
proof -
  from assms obtain s t v where s: "router_frame initial_producer s"
    and t: "prod_init_routing cfg s = Continue t" and v: "router_frame t v"
    and u: "prod_init_router cfg v = Continue (c, b)"
    by (rule ProducerConfig_parts)
  let ?custom = "get_string cfg ''messageRoutingMode'' = Some ''CustomPartition''"
  have v': "snd v = ?custom" "messageRouter (fst v) = None" "PSet_message_router f \<notin> set (producer_log v)"
    "?custom \<longrightarrow> PSet_partitions_routing_mode CustomPartition \<in> set (producer_log v)"
    using s t v set_mono_prefix [of "producer_log t" "producer_log v"]
    by (auto simp: router_frame_def initial_producer_def prod_init_routing_def enum_calls_def
        MESSAGE_ROUTING_MODE_def split: option.splits if_splits)
  show ?thesis
  proof (cases "?custom \<and> get_function cfg ''messageRouter'' \<noteq> None")
    case True
    then obtain g where "get_function cfg ''messageRouter'' = Some g" by blast
    then have "Has cfg ''messageRouter''" "Get cfg ''messageRouter'' = JFunction g"
      "get_function cfg ''messageRouter'' = Some g"
      by (auto simp: get_function_def IsFunction_def split: if_splits js_value.splits)
    with True u v' show ?thesis by (auto simp: prod_init_router_def)
  next
    case False
    then have "c = fst v"
      using u v'(1) by (auto simp: prod_init_router_def get_function_def IsFunction_def split: if_splits js_value.splits)
    with False v' show ?thesis by auto
  qed
qed

lemma agree_on_producer:
  assumes "agree_on producer_keys cfg cfg'"
  shows "producer_steps N cfg = producer_steps N cfg'"
proof -
  note g = agree_on_getters [OF assms] agree_on_access [OF assms]
  show ?thesis
    unfolding producer_steps_def steps_def by (simp add: g producer_keys_def cong: if_cong option.case_cong)
qed

subsection \<open>Properties\<close>

text \<open>
  The constructor of a producer's configuration fails in two cases only: an unknown schema
  type, and a crypto key reader that is not one, reported in this order; every other option of
  the wrong type or value is ignored.
\<close>

theorem ProducerConfig_decides:
  "(case ProducerConfig N cfg of
      Continue s \<Rightarrow> schema_verdict cfg = Accepted \<and> key_reader_verdict N cfg = Accepted
    | Return s \<Rightarrow> False
    | Throw e s \<Rightarrow> first_failure [schema_verdict cfg, key_reader_verdict N cfg] = Thrown e)"
proof -
  have v: "first_failure (producer_verdicts N cfg) = first_failure [schema_verdict cfg, key_reader_verdict N cfg]"
    by (simp add: producer_verdicts_def numeral_eq_Suc)
  have "first_failure [a, b] = Accepted \<longleftrightarrow> a = Accepted \<and> b = Accepted" for a b by simp
  with producer_options.run_meets [of N cfg initial_producer] show ?thesis
    unfolding ProducerConfig_def v
    by (cases "first_failure [schema_verdict cfg, key_reader_verdict N cfg]")
      (auto simp: meets_def simp del: first_failure.simps)
qed

text \<open>
  However the constructor ends, the calls it made on the C client's configuration are
  valid: timeouts, queue sizes, batch limits are positive at their width, and strings contain
  no NUL.
\<close>

theorem ProducerConfig_calls_valid:
  "list_all producer_call_ok (cProducerConfig (fst (flow_state (ProducerConfig N cfg))))"
  using producer.run_inv [of initial_producer N cfg]
  by (simp add: ProducerConfig_def initial_producer_def)

text \<open>
  The custom router is installed exactly when the routing mode asks for it and a function
  is given; then the C client was told to use the custom mode, and the member that keeps the
  JavaScript function alive holds the function the C client was given.
\<close>

theorem message_router_installed:
  assumes "ProducerConfig N cfg = Continue (c, b)"
  shows "(messageRouter c = Some f \<longleftrightarrow>
      get_string cfg ''messageRoutingMode'' = Some ''CustomPartition'' \<and> get_function cfg ''messageRouter'' = Some f) \<and>
    (PSet_message_router f \<in> set (cProducerConfig c) \<longleftrightarrow> messageRouter c = Some f) \<and>
    (messageRouter c = Some f \<longrightarrow> PSet_partitions_routing_mode CustomPartition \<in> set (cProducerConfig c))"
  using assms by (rule ProducerConfig_router)

definition example_producer :: js_value where
  "example_producer = JObject [(''topic'', JString ''t''), (''messageRoutingMode'', JString ''CustomPartition''),
     (''messageRouter'', JFunction 7)]"

theorem message_router_installed_witness:
  "\<exists>c b. ProducerConfig napi_ref example_producer = Continue (c, b) \<and> messageRouter c = Some 7 \<and>
     PSet_message_router 7 \<in> set (cProducerConfig c)"
proof -
  have "schema_verdict example_producer = Accepted" "key_reader_verdict napi_ref example_producer = Accepted"
    by (simp_all add: schema_verdict_def key_reader_verdict_def example_producer_def getter_defs Has_def)
  then obtain c b where c: "ProducerConfig napi_ref example_producer = Continue (c, b)"
    using producer_options.run_meets [of napi_ref example_producer initial_producer]
    by (auto simp: ProducerConfig_def producer_verdicts_def numeral_eq_Suc meets_def)
  from message_router_installed [OF this, of 7] have "messageRouter c = Some 7"
    by (simp add: example_producer_def getter_defs is_defs Has_def Get_def)
  with message_router_installed [OF c, of 7] c show ?thesis by auto
qed

text \<open>
  C23. The partition a router chooses: an integer it returns is taken as it is where it fits
  32 bits; a router that throws selects no partition of the topic, so that the send fails; a
  router that returns nothing, however, selects partition 0.
\<close>

theorem choosePartition_outcomes:
  fixes N router msg n
  defines "p \<equiv> choosePartition N router msg n"
    and "result \<equiv> router [JNative (N_Message (Some msg)) [],
      JObject [(''numPartitions'', JNumber (Finite (of_int (sint n))))]]"
  shows "(\<forall>e. result = Inl e \<longrightarrow> \<not> (0 \<le> sint p \<and> sint p < sint n)) \<and>
    (\<forall>i. result = Inr (JNumber (Finite (of_int i))) \<and> - (2 ^ 31) \<le> i \<and> i < 2 ^ 31 \<longrightarrow> sint p = i) \<and>
    (result = Inr JUndefined \<longrightarrow> p = 0)"
  unfolding p_def result_def
  by (auto simp: choosePartition_def ToNumber_def Int32Value_def sint_word_of_int_32)

theorem choosePartition_outcomes_witness:
  "sint (choosePartition napi_ref (\<lambda>args. Inr (JNumber (Finite (of_int 2)))) 5 3) = 2 \<and>
   \<not> sint (choosePartition napi_ref (\<lambda>args. Inl ''boom'') 5 3) < sint (3 :: int32) \<and>
   choosePartition napi_ref (\<lambda>args. Inr JUndefined) 5 3 = 0"
proof (intro conjI)
  show "sint (choosePartition napi_ref (\<lambda>args. Inr (JNumber (Finite (of_int 2)))) 5 3) = 2"
    using choosePartition_outcomes [of "\<lambda>args. Inr (JNumber (Finite (of_int 2)))" 5 3 napi_ref] by simp
  have "0 \<le> sint (choosePartition napi_ref (\<lambda>args. Inl ''boom'') 5 3)"
    by (simp add: choosePartition_def)
  then show "\<not> sint (choosePartition napi_ref (\<lambda>args. Inl ''boom'') 5 3) < sint (3 :: int32)"
    using choosePartition_outcomes [of "\<lambda>args. Inl ''boom''" 5 3 napi_ref] by blast
  show "choosePartition napi_ref (\<lambda>args. Inr JUndefined) 5 3 = 0"
    using choosePartition_outcomes [of "\<lambda>args. Inr JUndefined" 5 3 napi_ref] by simp
qed

text \<open>
  Only the options the source names matter: objects that agree on those keys make the same
  configuration.
\<close>

theorem ProducerConfig_reads_only_its_keys:
  assumes "agree_on producer_keys cfg cfg'"
  shows "ProducerConfig N cfg = ProducerConfig N cfg'"
  by (simp only: ProducerConfig_def agree_on_producer [OF assms])

theorem ProducerConfig_reads_only_its_keys_witness:
  "ProducerConfig napi_ref example_producer =
   ProducerConfig napi_ref (JObject ((''other'', JNull) # props example_producer))"
  by (rule ProducerConfig_reads_only_its_keys) (simp add: agree_on_def producer_keys_def example_producer_def)

end
