(* ===== verification/Reader_Config.thy ===== *)
theory Reader_Config
  imports Config_Common
begin

section \<open>ReaderConfig\<close>

text \<open>
  \<open>src/ReaderConfig.h\<close>, \<open>src/ReaderConfig.cc\<close>: the configuration object of
  \<open>createReader\<close>, a constructor of the same shape as the producer's, with a listener whose
  thread-safe function the object owns until \<open>GetListenerCallback\<close> moves it out. The lemmas
  say when the constructor throws and that it then owns no listener, that every call is valid,
  that the failure action depends on the private key, and that only the named keys matter.
\<close>

datatype reader_call =
    RSet_receiver_queue_size int32
  | RSet_reader_name string
  | RSet_subscription_role_prefix string
  | RSet_read_compacted bool
  | RSet_reader_listener nat
  | RSet_default_crypto_key_reader string string
  | RSet_crypto_failure_action consumer_crypto_failure_action

record reader_config =
  cReaderConfig :: "reader_call list"
  reader_topic :: string
  cStartMessageId :: "ptr option"
  reader_listener :: "nat option"

type_synonym reader_step = "reader_config \<Rightarrow> reader_config flow"

definition initial_reader :: reader_config where
  "initial_reader = \<lparr>cReaderConfig = [], reader_topic = '''', cStartMessageId = None, reader_listener = None\<rparr>"

definition reader_keys :: "string list" where
  "reader_keys = [''topic'', ''startMessageId'', ''receiverQueueSize'', ''readerName'',
     ''subscriptionRolePrefix'', ''readCompacted'', ''listener'', ''privateKeyPath'', ''cryptoFailureAction'']"

definition remit :: "reader_call list \<Rightarrow> reader_step" where
  "remit xs c = Continue (c\<lparr>cReaderConfig := cReaderConfig c @ xs\<rparr>)"

subsection \<open>The blocks of the constructor\<close>

definition reader_init_topic :: "js_value \<Rightarrow> reader_step" where [steps_def]:
  "reader_init_topic cfg c = Continue (case get_string cfg ''topic'' of
       None \<Rightarrow> c
     | Some t \<Rightarrow> c\<lparr>reader_topic := t\<rparr>)"

definition reader_init_start :: "napi \<Rightarrow> js_value \<Rightarrow> reader_step" where [steps_def]:
  "reader_init_start N cfg c = (case get_object cfg ''startMessageId'' of
       None \<Rightarrow> Continue c
     | Some v \<Rightarrow> (case MessageId_Unwrap N v of
           Inl e \<Rightarrow> Throw e c
         | Inr cMessageId \<Rightarrow> Continue (c\<lparr>cStartMessageId := cMessageId\<rparr>)))"

definition reader_init_queue :: "js_value \<Rightarrow> reader_step" where [steps_def]:
  "reader_init_queue cfg = remit (nonneg_calls RSet_receiver_queue_size (get_number cfg ''receiverQueueSize''))"

definition reader_init_name :: "js_value \<Rightarrow> reader_step" where [steps_def]:
  "reader_init_name cfg = remit (nonempty_calls RSet_reader_name (get_string cfg ''readerName''))"

definition reader_init_role_prefix :: "js_value \<Rightarrow> reader_step" where [steps_def]:
  "reader_init_role_prefix cfg =
     remit (nonempty_calls RSet_subscription_role_prefix (get_string cfg ''subscriptionRolePrefix''))"

definition reader_init_read_compacted :: "js_value \<Rightarrow> reader_step" where [steps_def]:
  "reader_init_read_compacted cfg = remit (case get_boolean cfg ''readCompacted'' of
       None \<Rightarrow> []
     | Some b \<Rightarrow> (if b then [RSet_read_compacted True] else []))"

definition reader_init_listener :: "js_value \<Rightarrow> reader_step" where [steps_def]:
  "reader_init_listener cfg c = (case get_function cfg ''listener'' of
       None \<Rightarrow> Continue c
     | Some f \<Rightarrow> remit [RSet_reader_listener f] (c\<lparr>reader_listener := Some f\<rparr>))"

definition reader_init_private_key :: "js_value \<Rightarrow> reader_step" where [steps_def]:
  "reader_init_private_key cfg = remit (case get_string cfg ''privateKeyPath'' of
       None \<Rightarrow> []
     | Some p \<Rightarrow> RSet_default_crypto_key_reader '''' (c_str p) #
         enum_calls CONSUMER_CRYPTO_FAILURE_ACTION RSet_crypto_failure_action
           (get_string cfg ''cryptoFailureAction''))"

definition reader_steps :: "napi \<Rightarrow> js_value \<Rightarrow> reader_step list" where
  "reader_steps N cfg = [reader_init_topic cfg, reader_init_start N cfg, reader_init_queue cfg,
     reader_init_name cfg, reader_init_role_prefix cfg, reader_init_read_compacted cfg,
     reader_init_listener cfg, reader_init_private_key cfg]"

definition ReaderConfig :: "napi \<Rightarrow> js_value \<Rightarrow> reader_config flow" where
  "ReaderConfig N cfg = run_steps (reader_steps N cfg) initial_reader"

subsection \<open>Accessors\<close>

definition reader_GetListenerCallback :: "reader_config \<Rightarrow> nat option \<times> reader_config" where
  "reader_GetListenerCallback c = (reader_listener c, c\<lparr>reader_listener := None\<rparr>)"

text \<open>The destructor: the listener whose thread-safe function it releases.\<close>

definition destroy_ReaderConfig :: "reader_config \<Rightarrow> nat option" where
  "destroy_ReaderConfig c = reader_listener c"

subsection \<open>Lemmas on the blocks\<close>

lemma remit_simps [simp]: "remit xs c = Continue (c\<lparr>cReaderConfig := cReaderConfig c @ xs\<rparr>)"
  by (simp add: remit_def)

lemmas reader_emit_defs = reader_init_queue_def reader_init_name_def reader_init_role_prefix_def
  reader_init_read_compacted_def reader_init_private_key_def

definition start_verdict :: "napi \<Rightarrow> js_value \<Rightarrow> verdict" where
  "start_verdict N cfg = (case get_object cfg ''startMessageId'' of
       None \<Rightarrow> Accepted
     | Some v \<Rightarrow> (case MessageId_Unwrap N v of Inl e \<Rightarrow> Thrown e | Inr _ \<Rightarrow> Accepted))"

text \<open>The constructor throws before it creates a listener, so a failed construction leaks none.\<close>

interpretation reader_start: judged_pipeline "take 2 (reader_steps N cfg)" "[Accepted, start_verdict N cfg]"
    "\<lambda>c. reader_listener c = None" "\<lambda>_ _. False"
  for N cfg
  by unfold_locales
    (simp add: reader_steps_def numeral_eq_Suc meets_def steps_def start_verdict_def split: option.split sum.split)

interpretation reader_options: judged_pipeline "drop 2 (reader_steps N cfg)" "replicate 6 Accepted"
    "\<lambda>_. True" "\<lambda>_ _. False"
  for N cfg
  by unfold_locales (simp add: reader_steps_def numeral_eq_Suc meets_def steps_def split: option.split)

fun reader_call_ok :: "reader_call \<Rightarrow> bool" where
  "reader_call_ok (RSet_receiver_queue_size n) \<longleftrightarrow> 0 \<le> sint n"
| "reader_call_ok (RSet_reader_name s) \<longleftrightarrow> CHR 0x00 \<notin> set s"
| "reader_call_ok (RSet_subscription_role_prefix s) \<longleftrightarrow> CHR 0x00 \<notin> set s"
| "reader_call_ok (RSet_read_compacted b) \<longleftrightarrow> b"
| "reader_call_ok (RSet_default_crypto_key_reader pub priv) \<longleftrightarrow> pub = [] \<and> CHR 0x00 \<notin> set priv"
| "reader_call_ok _ \<longleftrightarrow> True"

lemma appends_remit: "list_all ok xs \<Longrightarrow> appends cReaderConfig ok (remit xs)"
  by (rule appendsI) auto

lemma reader_steps_ok: "f \<in> set (reader_steps N cfg) \<Longrightarrow> appends cReaderConfig reader_call_ok f"
proof -
  have "list_all (appends cReaderConfig reader_call_ok) [reader_init_queue cfg, reader_init_name cfg,
      reader_init_role_prefix cfg, reader_init_read_compacted cfg, reader_init_private_key cfg]"
    unfolding reader_emit_defs list_all_iff list.set ball_simps
    by (intro conjI TrueI; rule appends_remit; simp add: option_calls_ok split: option.split)
  moreover have "list_all (appends cReaderConfig reader_call_ok) [reader_init_topic cfg, reader_init_start N cfg,
      reader_init_listener cfg]"
    unfolding list_all_iff list.set ball_simps
    by (intro conjI TrueI; rule appends_oneI; simp add: steps_def split: option.split sum.split)
  moreover assume "f \<in> set (reader_steps N cfg)"
  ultimately show ?thesis by (auto simp: reader_steps_def)
qed

interpretation reader: logged_pipeline "reader_steps N cfg" cReaderConfig reader_call_ok for N cfg
  by unfold_locales (rule reader_steps_ok)

lemma agree_on_reader:
  assumes "agree_on reader_keys cfg cfg'"
  shows "reader_steps N cfg = reader_steps N cfg'"
proof -
  note g = agree_on_getters [OF assms]
  show ?thesis
    unfolding reader_steps_def steps_def by (simp add: g reader_keys_def cong: option.case_cong)
qed

lemma ReaderConfig_split:
  "ReaderConfig N cfg = (case run_steps (take 2 (reader_steps N cfg)) initial_reader of
       Continue s \<Rightarrow> run_steps (drop 2 (reader_steps N cfg)) s | Return s \<Rightarrow> Return s | Throw e s \<Rightarrow> Throw e s)"
  unfolding ReaderConfig_def by (subst run_steps_append [symmetric]) simp

lemma ReaderConfig_fields:
  assumes "start_verdict N cfg = Accepted"
  shows "ReaderConfig N cfg = Continue \<lparr>
      cReaderConfig = nonneg_calls RSet_receiver_queue_size (get_number cfg ''receiverQueueSize'') @
        nonempty_calls RSet_reader_name (get_string cfg ''readerName'') @
        nonempty_calls RSet_subscription_role_prefix (get_string cfg ''subscriptionRolePrefix'') @
        (if get_boolean cfg ''readCompacted'' = Some True then [RSet_read_compacted True] else []) @
        (case get_function cfg ''listener'' of None \<Rightarrow> [] | Some f \<Rightarrow> [RSet_reader_listener f]) @
        (case get_string cfg ''privateKeyPath'' of None \<Rightarrow> []
         | Some p \<Rightarrow> RSet_default_crypto_key_reader '''' (c_str p) # enum_calls CONSUMER_CRYPTO_FAILURE_ACTION
             RSet_crypto_failure_action (get_string cfg ''cryptoFailureAction'')),
      reader_topic = text_of cfg ''topic'',
      cStartMessageId = (case get_object cfg ''startMessageId'' of None \<Rightarrow> None
         | Some v \<Rightarrow> (case MessageId_Unwrap N v of Inl e \<Rightarrow> None | Inr p \<Rightarrow> p)),
      reader_listener = get_function cfg ''listener''\<rparr>"
  using assms
  by (auto simp: ReaderConfig_def reader_steps_def steps_def initial_reader_def start_verdict_def text_of_def
      split: option.splits sum.splits)

subsection \<open>Properties\<close>

text \<open>
  The constructor of a reader's configuration throws exactly when the start message id is
  an object that is not a message id; it has then created no listener and made no call, so the
  abandoned object leaves nothing behind although its destructor does not run.
\<close>

theorem ReaderConfig_decides:
  "(case ReaderConfig N cfg of
      Continue c \<Rightarrow> start_verdict N cfg = Accepted
    | Return c \<Rightarrow> False
    | Throw e c \<Rightarrow> start_verdict N cfg = Thrown e \<and> reader_listener c = None \<and> cReaderConfig c = [])"
  by (simp add: ReaderConfig_def reader_steps_def steps_def initial_reader_def start_verdict_def
      split: option.split sum.split)

text \<open>
  However the constructor ends, its calls are valid: no negative queue size, no empty or
  truncated name.
\<close>

theorem ReaderConfig_calls_valid:
  "list_all reader_call_ok (cReaderConfig (flow_state (ReaderConfig N cfg)))"
  using reader.run_inv [of initial_reader N cfg] by (simp add: ReaderConfig_def initial_reader_def)

text \<open>
  The listener has one owner: the configuration owns the function given as \<open>listener\<close>
  and passed to the C client; \<open>GetListenerCallback\<close> hands it over, after which neither the
  destructor nor a second call finds it.
\<close>

theorem reader_listener_moved_once:
  assumes "ReaderConfig N cfg = Continue c"
  shows "fst (reader_GetListenerCallback c) = get_function cfg ''listener'' \<and>
    (RSet_reader_listener f \<in> set (cReaderConfig c) \<longleftrightarrow> get_function cfg ''listener'' = Some f) \<and>
    destroy_ReaderConfig c = get_function cfg ''listener'' \<and>
    destroy_ReaderConfig (snd (reader_GetListenerCallback c)) = None \<and>
    fst (reader_GetListenerCallback (snd (reader_GetListenerCallback c))) = None"
proof -
  have "start_verdict N cfg = Accepted"
    using assms by (cases "start_verdict N cfg")
      (auto simp: ReaderConfig_def reader_steps_def steps_def start_verdict_def split: option.splits sum.splits)
  from ReaderConfig_fields [OF this] assms
  have l: "reader_listener c = get_function cfg ''listener''" by simp
  have "RSet_reader_listener f \<notin> set (nonneg_calls RSet_receiver_queue_size x)"
    "RSet_reader_listener f \<notin> set (nonempty_calls RSet_reader_name y)"
    "RSet_reader_listener f \<notin> set (nonempty_calls RSet_subscription_role_prefix y)"
    "RSet_reader_listener f \<notin> set (enum_calls t RSet_crypto_failure_action y)" for x y t
    by (simp_all add: nonneg_calls_def nonempty_calls_def enum_calls_def Let_def split: option.split)
  with ReaderConfig_fields [OF \<open>start_verdict N cfg = Accepted\<close>] assms
  have "RSet_reader_listener f \<in> set (cReaderConfig c) \<longleftrightarrow> get_function cfg ''listener'' = Some f"
    by (auto split: option.split)
  with l show ?thesis by (simp add: reader_GetListenerCallback_def destroy_ReaderConfig_def)
qed

definition example_reader :: js_value where
  "example_reader = JObject [(''topic'', JString ''t''), (''startMessageId'', JNative (N_MessageId (Some 3)) []),
     (''listener'', JFunction 9)]"

theorem reader_listener_moved_once_witness:
  "\<exists>c. ReaderConfig napi_ref example_reader = Continue c \<and> fst (reader_GetListenerCallback c) = Some 9 \<and>
     destroy_ReaderConfig (snd (reader_GetListenerCallback c)) = None"
proof -
  have "start_verdict napi_ref example_reader = Accepted"
    by (simp add: start_verdict_def example_reader_def getter_defs is_defs Has_def Get_def MessageId_Unwrap_def
        unwrap_as_def)
  then obtain c where c: "ReaderConfig napi_ref example_reader = Continue c"
    using ReaderConfig_fields by blast
  have "get_function example_reader ''listener'' = Some 9"
    by (simp add: example_reader_def getter_defs is_defs Has_def Get_def)
  with reader_listener_moved_once [OF c] c show ?thesis by auto
qed

end
