(* ===== verification/Operations.thy ===== *)
theory Operations
  imports Async Consumer_Config Producer_Config Reader_Config Listener
begin

section \<open>The operations of clients, producers, consumers and readers\<close>

text \<open>
  \<open>src/Client.cc\<close>, \<open>src/Producer.cc\<close>, \<open>src/Consumer.cc\<close>, \<open>src/Reader.cc\<close>: every
  method JavaScript can call and every completion callback the C client runs. A method raises an
  exception, refuses by a rejected promise, or starts an asynchronous operation with the requests it
  makes of the C client; the callback then decides the deferred. The callbacks together are the
  handler of the machine of \<open>Async\<close>, and the interpretation of its locale on them carries
  over that no context is used after it was freed, that no promise is decided twice and that
  every answered call settles.
\<close>

subsection \<open>What a promise is resolved with\<close>

text \<open>
  The closures given to \<open>Resolve\<close>, by what they capture. \<open>run_resolver\<close> is what they
  compute on the JavaScript thread; \<open>copy\<close> stands for \<open>pulsar_message_create\<close> followed by
  \<open>pulsar_message_copy\<close>.
\<close>

datatype resolver =
    RNull
  | RMessageId ptr
  | RMessage ptr
  | RMessages "ptr list"
  | RStrings "string list"
  | RSchema string schema_info
  | RProducer ptr producer_config
  | RConsumer ptr "nat option"
  | RReader ptr reader_config

primrec run_resolver :: "(ptr \<Rightarrow> ptr) \<Rightarrow> resolver \<Rightarrow> js_value" where
  "run_resolver copy RNull = JNull"
| "run_resolver copy (RMessageId p) = JNative (N_MessageId (Some p)) []"
| "run_resolver copy (RMessage p) = Message_NewInstance p"
| "run_resolver copy (RMessages ps) = JArray (map (\<lambda>p. Message_NewInstance (copy p)) ps)"
| "run_resolver copy (RStrings ss) = JArray (map (\<lambda>s. JString (c_str s)) ss)"
| "run_resolver copy (RSchema name s) = NewObject name s"
| "run_resolver copy (RProducer p cfg) = JNative (N_Producer p) []"
| "run_resolver copy (RConsumer p l) = JNative (N_Consumer p (obj_listener (SetListenerCallback l (new_object p)))) []"
| "run_resolver copy (RReader p cfg) =
     JNative (N_Reader p (obj_listener (reader_SetListenerCallback (fst (reader_GetListenerCallback cfg)) (new_object p)))) []"

subsection \<open>Completion callbacks\<close>

text \<open>What the C client passes to a callback besides the result; each callback reads its part.\<close>

record payload =
  pl_object :: ptr
  pl_messageId :: ptr
  pl_message :: ptr
  pl_messages :: "ptr list"
  pl_topics :: "string list option"
  pl_schema :: schema_info

type_synonym completion = "pulsar_result \<Rightarrow> payload \<Rightarrow> resolver deferred \<Rightarrow> exn + resolver deferred"

text \<open>\<open>if (result != pulsar_result_Ok) Reject(pre + str) else Resolve(...)\<close>\<close>

definition complete_with :: "result_str \<Rightarrow> string \<Rightarrow> (payload \<Rightarrow> resolver) \<Rightarrow> completion" where
  "complete_with rs pre value result p d =
     (if result \<noteq> pulsar_result_Ok then Reject (pre @ rs result) d else Resolve (value p) d)"

definition createProducer_callback :: "result_str \<Rightarrow> producer_config \<Rightarrow> completion" where [handler_def]:
  "createProducer_callback rs cfg = complete_with rs ''Failed to create producer: '' (\<lambda>p. RProducer (pl_object p) cfg)"

definition send_callback :: "result_str \<Rightarrow> completion" where [handler_def]:
  "send_callback rs = complete_with rs ''Failed to send message: '' (\<lambda>p. RMessageId (pl_messageId p))"

definition flush_callback :: "result_str \<Rightarrow> completion" where [handler_def]:
  "flush_callback rs = complete_with rs ''Failed to flush producer: '' (\<lambda>p. RNull)"

definition producerClose_callback :: "result_str \<Rightarrow> completion" where [handler_def]:
  "producerClose_callback rs = complete_with rs ''Failed to close producer: '' (\<lambda>p. RNull)"

text \<open>The listener is moved out of the configuration when the subscription succeeded.\<close>

definition subscribeCallback :: "result_str \<Rightarrow> consumer_config \<Rightarrow> completion" where [handler_def]:
  "subscribeCallback rs cfg = complete_with rs ''Failed to create consumer: ''
     (\<lambda>p. RConsumer (pl_object p) (fst (GetListenerCallback cfg)))"

definition batchReceive_callback :: "result_str \<Rightarrow> completion" where [handler_def]:
  "batchReceive_callback rs = complete_with rs ''Failed to batch receive message: '' (\<lambda>p. RMessages (pl_messages p))"

definition receive_callback :: "result_str \<Rightarrow> completion" where [handler_def]:
  "receive_callback rs = complete_with rs ''Failed to receive message: '' (\<lambda>p. RMessage (pl_message p))"

definition acknowledge_callback :: "result_str \<Rightarrow> completion" where [handler_def]:
  "acknowledge_callback rs = complete_with rs ''Failed to acknowledge: '' (\<lambda>p. RNull)"

definition acknowledgeId_callback :: "result_str \<Rightarrow> completion" where [handler_def]:
  "acknowledgeId_callback rs = complete_with rs ''Failed to acknowledge id: '' (\<lambda>p. RNull)"

definition acknowledgeCumulative_callback :: "result_str \<Rightarrow> completion" where [handler_def]:
  "acknowledgeCumulative_callback rs = complete_with rs ''Failed to acknowledge cumulatively: '' (\<lambda>p. RNull)"

definition acknowledgeCumulativeId_callback :: "result_str \<Rightarrow> completion" where [handler_def]:
  "acknowledgeCumulativeId_callback rs = complete_with rs ''Failed to acknowledge cumulatively by id: '' (\<lambda>p. RNull)"

definition seek_callback :: "result_str \<Rightarrow> completion" where [handler_def]:
  "seek_callback rs = complete_with rs ''Failed to seek message by id: '' (\<lambda>p. RNull)"

definition seekTimestamp_callback :: "result_str \<Rightarrow> completion" where [handler_def]:
  "seekTimestamp_callback rs = complete_with rs ''Failed to seek message by timestamp: '' (\<lambda>p. RNull)"

definition consumerClose_callback :: "result_str \<Rightarrow> completion" where [handler_def]:
  "consumerClose_callback rs = complete_with rs ''Failed to close consumer: '' (\<lambda>p. RNull)"

definition unsubscribe_callback :: "result_str \<Rightarrow> completion" where [handler_def]:
  "unsubscribe_callback rs = complete_with rs ''Failed to unsubscribe consumer: '' (\<lambda>p. RNull)"

definition createReaderCallback :: "result_str \<Rightarrow> reader_config \<Rightarrow> completion" where [handler_def]:
  "createReaderCallback rs cfg = complete_with rs ''Failed to create reader: '' (\<lambda>p. RReader (pl_object p) cfg)"

definition readerSeek_callback :: "result_str \<Rightarrow> completion" where [handler_def]:
  "readerSeek_callback rs = complete_with rs ''Failed to seek message by id: '' (\<lambda>p. RNull)"

definition readerSeekTimestamp_callback :: "result_str \<Rightarrow> completion" where [handler_def]:
  "readerSeekTimestamp_callback rs = complete_with rs ''Failed to seek message by timestamp: '' (\<lambda>p. RNull)"

definition readerClose_callback :: "result_str \<Rightarrow> completion" where [handler_def]:
  "readerClose_callback rs = complete_with rs ''Failed to close reader: '' (\<lambda>p. RNull)"

definition clientClose_callback :: "result_str \<Rightarrow> completion" where [handler_def]:
  "clientClose_callback rs = complete_with rs ''Failed to close client: '' (\<lambda>p. RNull)"

definition getPartitions_callback :: "result_str \<Rightarrow> completion" where [handler_def]:
  "getPartitions_callback rs result p d =
     (if result = pulsar_result_Ok \<and> pl_topics p \<noteq> None
      then Resolve (RStrings (case pl_topics p of None \<Rightarrow> [] | Some ts \<Rightarrow> ts)) d
      else Reject (''Failed to GetPartitionsForTopic: '' @ rs result) d)"

definition getSchemaInfo_callback :: "result_str \<Rightarrow> completion" where [handler_def]:
  "getSchemaInfo_callback rs result p d =
     (if result \<noteq> pulsar_result_Ok then Reject (''Failed to get schema info: '' @ rs result) d
      else (case GetSchemaTypeName (schemaType (pl_schema p)) of
          None \<Rightarrow> Reject (''Failed to get schema info: unsupported schema type '' @ to_string (schemaType (pl_schema p))) d
        | Some schemaTypeName \<Rightarrow> Resolve (RSchema schemaTypeName (pl_schema p)) d))"

subsection \<open>All operations as one handler\<close>

datatype operation =
    Op_createProducer producer_config | Op_send | Op_flush | Op_producerClose
  | Op_subscribe consumer_config | Op_batchReceive | Op_receive | Op_acknowledge | Op_acknowledgeId
  | Op_acknowledgeCumulative | Op_acknowledgeCumulativeId | Op_seek | Op_seekTimestamp
  | Op_consumerClose | Op_unsubscribe
  | Op_createReader reader_config | Op_readerSeek | Op_readerSeekTimestamp | Op_readerClose
  | Op_getPartitionsForTopic | Op_getSchemaInfo | Op_clientClose

primrec on_result :: "result_str \<Rightarrow> (operation, payload, resolver) handler" where
  "on_result rs (Op_createProducer cfg) = createProducer_callback rs cfg"
| "on_result rs Op_send = send_callback rs"
| "on_result rs Op_flush = flush_callback rs"
| "on_result rs Op_producerClose = producerClose_callback rs"
| "on_result rs (Op_subscribe cfg) = subscribeCallback rs cfg"
| "on_result rs Op_batchReceive = batchReceive_callback rs"
| "on_result rs Op_receive = receive_callback rs"
| "on_result rs Op_acknowledge = acknowledge_callback rs"
| "on_result rs Op_acknowledgeId = acknowledgeId_callback rs"
| "on_result rs Op_acknowledgeCumulative = acknowledgeCumulative_callback rs"
| "on_result rs Op_acknowledgeCumulativeId = acknowledgeCumulativeId_callback rs"
| "on_result rs Op_seek = seek_callback rs"
| "on_result rs Op_seekTimestamp = seekTimestamp_callback rs"
| "on_result rs Op_consumerClose = consumerClose_callback rs"
| "on_result rs Op_unsubscribe = unsubscribe_callback rs"
| "on_result rs (Op_createReader cfg) = createReaderCallback rs cfg"
| "on_result rs Op_readerSeek = readerSeek_callback rs"
| "on_result rs Op_readerSeekTimestamp = readerSeekTimestamp_callback rs"
| "on_result rs Op_readerClose = readerClose_callback rs"
| "on_result rs Op_getPartitionsForTopic = getPartitions_callback rs"
| "on_result rs Op_getSchemaInfo = getSchemaInfo_callback rs"
| "on_result rs Op_clientClose = clientClose_callback rs"

lemma complete_with_decides:
  "(\<exists>cb. complete_with rs pre value r p d = Resolve cb d) \<or> (\<exists>msg. complete_with rs pre value r p d = Reject msg d)"
  by (auto simp: complete_with_def)

lemma on_result_decides:
  "(\<exists>cb. on_result rs op r p d = Resolve cb d) \<or> (\<exists>msg. on_result rs op r p d = Reject msg d)"
  by (cases op) (simp_all only: on_result.simps handler_def complete_with_decides, auto split: option.split)

interpretation ops: async_handlers "on_result rs" for rs
  by unfold_locales (rule on_result_decides)

subsection \<open>Requests to the C client\<close>

datatype c_request =
    C_create_producer_async string "producer_call list"
  | C_send_async ptr "message_call list"
  | C_flush_async ptr
  | C_producer_close_async ptr
  | C_subscribe_async string string "consumer_call list"
  | C_subscribe_multi_topics_async "string list" string "consumer_call list"
  | C_subscribe_pattern_async string string "consumer_call list"
  | C_batch_receive_async ptr
  | C_receive_async ptr
  | C_acknowledge_async ptr "ptr option"
  | C_acknowledge_async_id ptr "ptr option"
  | C_negative_acknowledge ptr "ptr option"
  | C_negative_acknowledge_id ptr "ptr option"
  | C_acknowledge_cumulative_async ptr "ptr option"
  | C_acknowledge_cumulative_async_id ptr "ptr option"
  | C_seek_async ptr "ptr option"
  | C_seek_by_timestamp_async ptr int64
  | C_pause_message_listener ptr
  | C_consumer_close_async ptr
  | C_unsubscribe_async ptr
  | C_create_reader_async string ptr "reader_call list"
  | C_reader_seek_async ptr "ptr option"
  | C_reader_seek_by_timestamp_async ptr int64
  | C_reader_close_async ptr
  | C_get_topic_partitions_async string
  | C_get_schema_info_async string int64
  | C_client_close_async

text \<open>
  How a method ends on the JavaScript thread. \<open>Raised e n\<close>: an exception, with \<open>n\<close>
  deferreds created before that nobody will decide; \<open>Refused d\<close>: a promise already rejected;
  \<open>Started op rs\<close>: a pending promise and the requests made; \<open>Performed rs\<close>: requests
  that have no answer.
\<close>

datatype method_end =
    Raised exn nat
  | Refused "resolver deferred"
  | Started operation "c_request list"
  | Performed "c_request list"

definition info_arg :: "js_value list \<Rightarrow> nat \<Rightarrow> js_value" where
  "info_arg info i = (if i < length info then info ! i else JUndefined)"

definition refuse :: "string \<Rightarrow> method_end" where
  "refuse msg = (case Reject msg New of Inl e \<Rightarrow> Raised e 1 | Inr d \<Rightarrow> Refused d)"

subsubsection \<open>Producer\<close>

definition Producer_NewInstance :: "napi \<Rightarrow> js_value list \<Rightarrow> method_end" where
  "Producer_NewInstance N info = (case ProducerConfig N (info_arg info 0) of
       Throw e s \<Rightarrow> Raised e 1
     | Return s \<Rightarrow> Raised (UndefinedBehaviour ''a constructor does not return early'') 1
     | Continue (cfg, useCustom) \<Rightarrow>
         (if prod_topic cfg = []
          then refuse ''Topic is required and must be specified as a string when creating producer''
          else Started (Op_createProducer cfg) [C_create_producer_async (c_str (prod_topic cfg)) (cProducerConfig cfg)]))"

text \<open>\<open>Send\<close> builds the message before it creates the deferred.\<close>

definition Producer_Send :: "napi \<Rightarrow> c_heap \<Rightarrow> ptr \<Rightarrow> js_value list \<Rightarrow> method_end \<times> c_heap" where
  "Producer_Send N h cProducer info = (case BuildMessage N (info_arg info 0) h of
       Throw e s \<Rightarrow> (Raised e 0, snd s)
     | Return s \<Rightarrow> (Started Op_send [C_send_async cProducer (fst s)], snd s)
     | Continue s \<Rightarrow> (Started Op_send [C_send_async cProducer (fst s)], snd s))"

definition Producer_Flush :: "ptr \<Rightarrow> method_end" where
  "Producer_Flush cProducer = Started Op_flush [C_flush_async cProducer]"

definition Producer_Close :: "ptr \<Rightarrow> method_end" where
  "Producer_Close cProducer = Started Op_producerClose [C_producer_close_async cProducer]"

text \<open>The accessors pass on what the C client answers, a C string or an \<open>int\<close>.\<close>

definition Producer_GetProducerName :: "string \<Rightarrow> js_value" where
  "Producer_GetProducerName s = JString (c_str s)"

definition Producer_GetTopic :: "string \<Rightarrow> js_value" where
  "Producer_GetTopic s = JString (c_str s)"

definition Producer_IsConnected :: "int32 \<Rightarrow> js_value" where
  "Producer_IsConnected answer' = JBoolean (answer' \<noteq> 0)"

subsubsection \<open>Consumer\<close>

definition subscribe_request :: "consumer_config \<Rightarrow> c_request" where
  "subscribe_request c =
     (if cons_topicsPattern c \<noteq> []
      then C_subscribe_pattern_async (c_str (cons_topicsPattern c)) (c_str (cons_subscription c)) (cConsumerConfig c)
      else if 0 < length (cons_topics c)
      then C_subscribe_multi_topics_async (map c_str (cons_topics c)) (c_str (cons_subscription c)) (cConsumerConfig c)
      else C_subscribe_async (c_str (cons_topic c)) (c_str (cons_subscription c)) (cConsumerConfig c))"

definition Consumer_NewInstance :: "napi \<Rightarrow> (batch_receive_policy \<Rightarrow> int) \<Rightarrow> js_value list \<Rightarrow> method_end" where
  "Consumer_NewInstance N setPolicy info =
     (let finish = (\<lambda>(d, c). if IsDone d then Refused d else Started (Op_subscribe c) [subscribe_request c]) in
      case InitConfig N setPolicy (info_arg info 0) (New, ConsumerConfig) of
        Throw e s \<Rightarrow> Raised e 1
      | Return s \<Rightarrow> finish s
      | Continue s \<Rightarrow> finish s)"

definition Consumer_BatchReceive :: "ptr \<Rightarrow> method_end" where
  "Consumer_BatchReceive cConsumer = Started Op_batchReceive [C_batch_receive_async cConsumer]"

text \<open>A method on a message or a message id: unwrapping comes first, the deferred after it.\<close>

definition with_unwrapped :: "exn + ptr option \<Rightarrow> (ptr option \<Rightarrow> method_end) \<Rightarrow> method_end" where
  "with_unwrapped u f = (case u of Inl e \<Rightarrow> Raised e 0 | Inr p \<Rightarrow> f p)"

definition Consumer_Acknowledge :: "napi \<Rightarrow> ptr \<Rightarrow> js_value list \<Rightarrow> method_end" where
  "Consumer_Acknowledge N cConsumer info = with_unwrapped (Message_Unwrap N (info_arg info 0))
     (\<lambda>msg. Started Op_acknowledge [C_acknowledge_async cConsumer msg])"

definition Consumer_AcknowledgeId :: "napi \<Rightarrow> ptr \<Rightarrow> js_value list \<Rightarrow> method_end" where
  "Consumer_AcknowledgeId N cConsumer info = with_unwrapped (MessageId_Unwrap N (info_arg info 0))
     (\<lambda>msgId. Started Op_acknowledgeId [C_acknowledge_async_id cConsumer msgId])"

definition Consumer_NegativeAcknowledge :: "napi \<Rightarrow> ptr \<Rightarrow> js_value list \<Rightarrow> method_end" where
  "Consumer_NegativeAcknowledge N cConsumer info = with_unwrapped (Message_Unwrap N (info_arg info 0))
     (\<lambda>msg. Performed [C_negative_acknowledge cConsumer msg])"

definition Consumer_NegativeAcknowledgeId :: "napi \<Rightarrow> ptr \<Rightarrow> js_value list \<Rightarrow> method_end" where
  "Consumer_NegativeAcknowledgeId N cConsumer info = with_unwrapped (MessageId_Unwrap N (info_arg info 0))
     (\<lambda>msgId. Performed [C_negative_acknowledge_id cConsumer msgId])"

definition Consumer_AcknowledgeCumulative :: "napi \<Rightarrow> ptr \<Rightarrow> js_value list \<Rightarrow> method_end" where
  "Consumer_AcknowledgeCumulative N cConsumer info = with_unwrapped (Message_Unwrap N (info_arg info 0))
     (\<lambda>msg. Started Op_acknowledgeCumulative [C_acknowledge_cumulative_async cConsumer msg])"

definition Consumer_AcknowledgeCumulativeId :: "napi \<Rightarrow> ptr \<Rightarrow> js_value list \<Rightarrow> method_end" where
  "Consumer_AcknowledgeCumulativeId N cConsumer info = with_unwrapped (MessageId_Unwrap N (info_arg info 0))
     (\<lambda>msgId. Started Op_acknowledgeCumulativeId [C_acknowledge_cumulative_async_id cConsumer msgId])"

definition Consumer_Seek :: "napi \<Rightarrow> ptr \<Rightarrow> js_value list \<Rightarrow> method_end" where
  "Consumer_Seek N cConsumer info = with_unwrapped (MessageId_Unwrap N (info_arg info 0))
     (\<lambda>msgId. Started Op_seek [C_seek_async cConsumer msgId])"

definition Consumer_SeekTimestamp :: "napi \<Rightarrow> ptr \<Rightarrow> js_value list \<Rightarrow> method_end" where
  "Consumer_SeekTimestamp N cConsumer info = Started Op_seekTimestamp
     [C_seek_by_timestamp_async cConsumer (Int64Value N (ToNumber N (info_arg info 0)))]"

text \<open>Closing cleans up first; its requests are the pause, if there is a listener, and the close.\<close>

definition Consumer_Close :: "ptr \<Rightarrow> client_object \<Rightarrow> method_end \<times> client_object" where
  "Consumer_Close cConsumer this =
     (let pause = (case obj_listener this of None \<Rightarrow> [] | Some l \<Rightarrow> [C_pause_message_listener cConsumer]) in
      (Started Op_consumerClose (pause @ [C_consumer_close_async cConsumer]), consumer_Cleanup this))"

definition Consumer_Unsubscribe :: "ptr \<Rightarrow> method_end" where
  "Consumer_Unsubscribe cConsumer =
     Started Op_unsubscribe [C_pause_message_listener cConsumer, C_unsubscribe_async cConsumer]"

definition Consumer_IsConnected :: "int32 \<Rightarrow> js_value" where
  "Consumer_IsConnected answer' = JBoolean (answer' \<noteq> 0)"

subsubsection \<open>Reader\<close>

definition Reader_NewInstance :: "napi \<Rightarrow> js_value list \<Rightarrow> method_end" where
  "Reader_NewInstance N info = (case ReaderConfig N (info_arg info 0) of
       Throw e c \<Rightarrow> Raised e 1
     | Return c \<Rightarrow> Raised (UndefinedBehaviour ''a constructor does not return early'') 1
     | Continue c \<Rightarrow>
         (if reader_topic c = []
          then refuse ''Topic is required and must be specified as a string when creating reader''
          else (case cStartMessageId c of
              None \<Rightarrow> refuse ''StartMessageId is required and must be specified as a MessageId object when creating reader''
            | Some start \<Rightarrow> Started (Op_createReader c)
                [C_create_reader_async (c_str (reader_topic c)) start (cReaderConfig c)])))"

definition Reader_Seek :: "napi \<Rightarrow> ptr \<Rightarrow> js_value list \<Rightarrow> method_end" where
  "Reader_Seek N cReader info = with_unwrapped (MessageId_Unwrap N (info_arg info 0))
     (\<lambda>msgId. Started Op_readerSeek [C_reader_seek_async cReader msgId])"

definition Reader_SeekTimestamp :: "napi \<Rightarrow> ptr \<Rightarrow> js_value list \<Rightarrow> method_end" where
  "Reader_SeekTimestamp N cReader info = Started Op_readerSeekTimestamp
     [C_reader_seek_by_timestamp_async cReader (Int64Value N (ToNumber N (info_arg info 0)))]"

definition Reader_Close :: "ptr \<Rightarrow> client_object \<Rightarrow> method_end \<times> client_object" where
  "Reader_Close cReader this = (Started Op_readerClose [C_reader_close_async cReader], reader_Cleanup this)"

text \<open>\<open>hasNext\<close> is synchronous: \<open>result\<close> and \<open>value\<close> are the C client's answer.\<close>

definition Reader_HasNext :: "result_str \<Rightarrow> pulsar_result \<Rightarrow> int32 \<Rightarrow> exn + js_value" where
  "Reader_HasNext rs result value =
     (if result \<noteq> pulsar_result_Ok
      then Inl (JsError (''Failed to check if next message is available: '' @ rs result))
      else if value = 1 then Inr (JBoolean True) else Inr (JBoolean False))"

definition Reader_IsConnected :: "int32 \<Rightarrow> js_value" where
  "Reader_IsConnected answer' = JBoolean (answer' \<noteq> 0)"

subsubsection \<open>Client\<close>

definition Client_GetPartitionsForTopic :: "napi \<Rightarrow> js_value list \<Rightarrow> method_end" where
  "Client_GetPartitionsForTopic N info = (case info_arg info 0 of
       JString topic \<Rightarrow> Started Op_getPartitionsForTopic [C_get_topic_partitions_async (c_str topic)]
     | _ \<Rightarrow> Raised (JsError (stringExpected N)) 0)"

definition maxSafeInteger :: int where
  "maxSafeInteger = 9007199254740991"

definition valid_version :: "js_value list \<Rightarrow> rat option" where
  "valid_version info =
     (if 2 \<le> length info then
        (case info_arg info 1 of
           JNumber (Finite version) \<Rightarrow>
             (if 0 \<le> version \<and> version \<le> of_int maxSafeInteger \<and> of_int (trunc version) = version
              then Some version else None)
         | _ \<Rightarrow> None)
      else None)"

definition Client_GetSchemaInfo :: "js_value list \<Rightarrow> method_end" where
  "Client_GetSchemaInfo info = (case (info_arg info 0, valid_version info) of
       (JString topic, Some version) \<Rightarrow>
         Started Op_getSchemaInfo [C_get_schema_info_async topic (word_of_int (trunc version))]
     | _ \<Rightarrow> Raised (JsTypeError
         ''getSchemaInfo expects a topic (string) and a schema version (non-negative integer)'') 0)"

definition Client_Close :: method_end where
  "Client_Close = Started Op_clientClose [C_client_close_async]"

text \<open>\<open>CreateProducer\<close>, \<open>Subscribe\<close> and \<open>CreateReader\<close> forward their arguments.\<close>

definition Client_CreateProducer :: "napi \<Rightarrow> js_value list \<Rightarrow> method_end" where
  "Client_CreateProducer N info = Producer_NewInstance N info"

definition Client_Subscribe :: "napi \<Rightarrow> (batch_receive_policy \<Rightarrow> int) \<Rightarrow> js_value list \<Rightarrow> method_end" where
  "Client_Subscribe N setPolicy info = Consumer_NewInstance N setPolicy info"

definition Client_CreateReader :: "napi \<Rightarrow> js_value list \<Rightarrow> method_end" where
  "Client_CreateReader N info = Reader_NewInstance N info"

subsection \<open>Workers\<close>

text \<open>
  The operations without an asynchronous function in the C client run on a worker thread.
  \<open>rawMessage\<close> is \<open>None\<close> where the C client leaves the uninitialised pointer unset.
  The result of \<open>Execute\<close> is the error set or the message kept; the consumer keeps a message
  only on success, the reader wraps the pointer in any case, and the wrapper frees it.
\<close>

datatype receive_call = Receive_with_timeout int64 | Receive_blocking

definition receive_call_of :: "int64 \<Rightarrow> receive_call" where
  "receive_call_of timeout = (if 0 < sint timeout then Receive_with_timeout timeout else Receive_blocking)"

record worker =
  worker_error :: "string option"
  cMessage :: "ptr option"

definition fresh_worker :: worker where
  "fresh_worker = \<lparr>worker_error = None, cMessage = None\<rparr>"

definition wrap_message :: "ptr option \<Rightarrow> worker \<Rightarrow> exn + worker" where
  "wrap_message raw w = (case raw of
       None \<Rightarrow> Inl (UndefinedBehaviour ''an uninitialised pointer is owned and freed'')
     | Some p \<Rightarrow> Inr (w\<lparr>cMessage := Some p\<rparr>))"

definition ConsumerReceiveWorker_Execute :: "result_str \<Rightarrow> pulsar_result \<Rightarrow> ptr option \<Rightarrow> exn + worker" where
  "ConsumerReceiveWorker_Execute rs result rawMessage =
     (if result \<noteq> pulsar_result_Ok
      then Inr (fresh_worker\<lparr>worker_error := Some (''Failed to receive message: '' @ rs result)\<rparr>)
      else wrap_message rawMessage fresh_worker)"

definition ReaderReadNextWorker_Execute :: "result_str \<Rightarrow> pulsar_result \<Rightarrow> ptr option \<Rightarrow> exn + worker" where
  "ReaderReadNextWorker_Execute rs result rawMessage =
     (let w = (if result \<noteq> pulsar_result_Ok
        then fresh_worker\<lparr>worker_error := Some (''Failed to receive message: '' @ rs result)\<rparr> else fresh_worker)
      in wrap_message rawMessage w)"

text \<open>\<open>OnOK\<close> and \<open>OnError\<close>: Node runs the latter when an error was set.\<close>

definition worker_promise :: "worker \<Rightarrow> promise" where
  "worker_promise w = (case worker_error w of
       Some e \<Rightarrow> Rejected e
     | None \<Rightarrow> Fulfilled (JNative (N_Message (cMessage w)) []))"

text \<open>\<open>Receive\<close> with a timeout and \<open>ReadNext\<close> queue a worker; \<open>Receive\<close> without one does not.\<close>

definition Consumer_Receive :: "napi \<Rightarrow> ptr \<Rightarrow> js_value list \<Rightarrow> method_end + receive_call" where
  "Consumer_Receive N cConsumer info =
     (if IsUndefined (info_arg info 0) then Inl (Started Op_receive [C_receive_async cConsumer])
      else Inr (receive_call_of (Int64Value N (ToNumber N (info_arg info 0)))))"

definition Reader_ReadNext :: "napi \<Rightarrow> js_value list \<Rightarrow> receive_call" where
  "Reader_ReadNext N info =
     (if IsUndefined (info_arg info 0) then receive_call_of (- 1)
      else receive_call_of (Int64Value N (ToNumber N (info_arg info 0))))"

subsection \<open>Lemmas\<close>

text \<open>The specification of the answers: what each operation's promise settles with.\<close>

primrec failure_prefix :: "operation \<Rightarrow> string" where
  "failure_prefix (Op_createProducer cfg) = ''Failed to create producer: ''"
| "failure_prefix Op_send = ''Failed to send message: ''"
| "failure_prefix Op_flush = ''Failed to flush producer: ''"
| "failure_prefix Op_producerClose = ''Failed to close producer: ''"
| "failure_prefix (Op_subscribe cfg) = ''Failed to create consumer: ''"
| "failure_prefix Op_batchReceive = ''Failed to batch receive message: ''"
| "failure_prefix Op_receive = ''Failed to receive message: ''"
| "failure_prefix Op_acknowledge = ''Failed to acknowledge: ''"
| "failure_prefix Op_acknowledgeId = ''Failed to acknowledge id: ''"
| "failure_prefix Op_acknowledgeCumulative = ''Failed to acknowledge cumulatively: ''"
| "failure_prefix Op_acknowledgeCumulativeId = ''Failed to acknowledge cumulatively by id: ''"
| "failure_prefix Op_seek = ''Failed to seek message by id: ''"
| "failure_prefix Op_seekTimestamp = ''Failed to seek message by timestamp: ''"
| "failure_prefix Op_consumerClose = ''Failed to close consumer: ''"
| "failure_prefix Op_unsubscribe = ''Failed to unsubscribe consumer: ''"
| "failure_prefix (Op_createReader cfg) = ''Failed to create reader: ''"
| "failure_prefix Op_readerSeek = ''Failed to seek message by id: ''"
| "failure_prefix Op_readerSeekTimestamp = ''Failed to seek message by timestamp: ''"
| "failure_prefix Op_readerClose = ''Failed to close reader: ''"
| "failure_prefix Op_getPartitionsForTopic = ''Failed to GetPartitionsForTopic: ''"
| "failure_prefix Op_getSchemaInfo = ''Failed to get schema info: ''"
| "failure_prefix Op_clientClose = ''Failed to close client: ''"

definition success_value :: "(ptr \<Rightarrow> ptr) \<Rightarrow> operation \<Rightarrow> payload \<Rightarrow> string + js_value" where
  "success_value copy op p = (case op of
       Op_createProducer cfg \<Rightarrow> Inr (JNative (N_Producer (pl_object p)) [])
     | Op_send \<Rightarrow> Inr (JNative (N_MessageId (Some (pl_messageId p))) [])
     | Op_subscribe cfg \<Rightarrow> Inr (JNative (N_Consumer (pl_object p) (cons_listener cfg)) [])
     | Op_createReader cfg \<Rightarrow> Inr (JNative (N_Reader (pl_object p) (reader_listener cfg)) [])
     | Op_batchReceive \<Rightarrow> Inr (JArray (map (\<lambda>m. JNative (N_Message (Some (copy m))) []) (pl_messages p)))
     | Op_receive \<Rightarrow> Inr (JNative (N_Message (Some (pl_message p))) [])
     | Op_getPartitionsForTopic \<Rightarrow> (case pl_topics p of
           None \<Rightarrow> Inl (failure_prefix op)
         | Some ts \<Rightarrow> Inr (JArray (map (\<lambda>t. JString (c_str t)) ts)))
     | Op_getSchemaInfo \<Rightarrow> (case GetSchemaTypeName (schemaType (pl_schema p)) of
           None \<Rightarrow> Inl (failure_prefix op @ ''unsupported schema type '' @ to_string (schemaType (pl_schema p)))
         | Some n \<Rightarrow> Inr (NewObject n (pl_schema p)))
     | _ \<Rightarrow> Inr JNull)"

definition answer :: "(ptr \<Rightarrow> ptr) \<Rightarrow> resolver deferred \<Rightarrow> promise" where
  "answer copy d = promise (finalizer (run_resolver copy) d)"

lemma answer_Resolve: "fate d = UNRESOLVED \<Longrightarrow> map_sum id (answer copy) (Resolve cb d) = Inr (Fulfilled (run_resolver copy cb))"
  by (simp add: answer_def deferred_defs)

lemma answer_Reject: "fate d = UNRESOLVED \<Longrightarrow> map_sum id (answer copy) (Reject msg d) = Inr (Rejected msg)"
  by (simp add: answer_def deferred_defs)

lemma answer_complete_with:
  "fate d = UNRESOLVED \<Longrightarrow> map_sum id (answer copy) (complete_with rs pre v r p d) =
     Inr (if r = pulsar_result_Ok then Fulfilled (run_resolver copy (v p)) else Rejected (pre @ rs r))"
  by (simp add: complete_with_def answer_Resolve answer_Reject)

lemma listener_of_new [simp]: "obj_listener (SetListenerCallback l (new_object p)) = l"
  by (simp add: SetListenerCallback_def new_object_def split: option.split)

definition settled_answer :: "(ptr \<Rightarrow> ptr) \<Rightarrow> result_str \<Rightarrow> operation \<Rightarrow> pulsar_result \<Rightarrow> payload \<Rightarrow> promise" where
  "settled_answer copy rs op r p =
     (if r \<noteq> pulsar_result_Ok then Rejected (failure_prefix op @ rs r)
      else (case success_value copy op p of
          Inr v \<Rightarrow> Fulfilled v
        | Inl msg \<Rightarrow> Rejected (if op = Op_getPartitionsForTopic then msg @ rs r else msg)))"

lemma on_result_answer:
  assumes "fate d = UNRESOLVED"
  shows "map_sum id (answer copy) (on_result rs op r p d) = Inr (settled_answer copy rs op r p)"
proof (cases op)
  case Op_getPartitionsForTopic
  then show ?thesis
    by (cases "pl_topics p") (simp_all add: settled_answer_def success_value_def getPartitions_callback_def
        answer_Resolve [OF assms] answer_Reject [OF assms])
next
  case Op_getSchemaInfo
  then show ?thesis
    by (cases "GetSchemaTypeName (schemaType (pl_schema p))")
      (simp_all add: settled_answer_def success_value_def getSchemaInfo_callback_def
        answer_Resolve [OF assms] answer_Reject [OF assms])
qed (simp_all add: settled_answer_def success_value_def createProducer_callback_def send_callback_def flush_callback_def
    producerClose_callback_def subscribeCallback_def batchReceive_callback_def receive_callback_def
    acknowledge_callback_def acknowledgeId_callback_def acknowledgeCumulative_callback_def
    acknowledgeCumulativeId_callback_def seek_callback_def seekTimestamp_callback_def consumerClose_callback_def
    unsubscribe_callback_def createReaderCallback_def readerSeek_callback_def readerSeekTimestamp_callback_def
    readerClose_callback_def clientClose_callback_def answer_complete_with [OF assms] GetListenerCallback_def
    reader_GetListenerCallback_def)

text \<open>The options of a consumer after the topics and the subscription leave those alone.\<close>

definition same_names :: "'cb consumer_state \<Rightarrow> 'cb consumer_state \<Rightarrow> bool" where
  "same_names s t \<longleftrightarrow> cons_topic (snd t) = cons_topic (snd s) \<and> cons_topics (snd t) = cons_topics (snd s) \<and>
     cons_topicsPattern (snd t) = cons_topicsPattern (snd s) \<and> cons_subscription (snd t) = cons_subscription (snd s)"

lemma option_steps_names:
  assumes "f \<in> set (option_steps N setPolicy cfg)"
  shows "same_names s (flow_state (f s))"
proof -
  have "same_names s (flow_state (emit xs s))" for xs by (simp add: same_names_def)
  moreover have "same_names s (flow_state (init_ack_timeout N cfg s))"
    "same_names s (flow_state (init_nack_timeout N cfg s))"
    "same_names s (flow_state (init_schema N cfg s))"
    "same_names s (flow_state (init_listener cfg s))"
    "same_names s (flow_state (init_crypto_key_reader N cfg s))"
    "same_names s (flow_state (init_batch_receive_policy N setPolicy cfg s))"
    "same_names s (flow_state (init_key_shared_policy N cfg s))"
    by (auto simp: same_names_def init_ack_timeout_def init_nack_timeout_def init_schema_def init_listener_def
        init_crypto_key_reader_def init_batch_receive_policy_def init_key_shared_policy_def Let_def split_beta
        split: option.split sum.split)
  ultimately show ?thesis
    using assms
    unfolding option_steps_def init_subscription_type_def init_position_def init_regex_mode_def
      init_consumer_name_def init_receiver_queue_def init_receiver_queue_across_def init_properties_def
      init_read_compacted_def init_private_key_def init_crypto_failure_action_def
      init_max_pending_chunked_def init_auto_ack_oldest_def init_batch_index_ack_def
      init_dead_letter_policy_def init_replicate_state_def
    by (simp only: list.set insert_iff empty_iff) (elim disjE; simp only:)
qed

interpretation consumer_names: step_pipeline "option_steps N setPolicy cfg" "\<lambda>_. True" same_names
  for N setPolicy cfg
  by unfold_locales (auto simp: option_steps_names, auto simp: same_names_def)

lemma InitConfig_names:
  assumes "InitConfig N setPolicy cfg (New :: 'cb deferred, ConsumerConfig) = Continue (d, c)"
  shows "cons_topic c = text_of cfg ''topic'' \<and> cons_topics c = topics_of cfg \<and>
    cons_topicsPattern c = text_of cfg ''topicsPattern'' \<and> cons_subscription c = text_of cfg ''subscription''"
proof -
  have "consumer_verdict N setPolicy cfg = Accepted"
    using InitConfig_meets [of N setPolicy cfg, where ?'cb = 'cb] assms
    by (cases "consumer_verdict N setPolicy cfg") auto
  then have "topic_verdict cfg = Accepted" "subscription_verdict cfg = Accepted"
    by (auto simp: consumer_verdict_def split: if_splits)
  then have "run_steps (option_steps N setPolicy cfg) (New :: 'cb deferred, named_config cfg) = Continue (d, c)"
    using assms by (simp add: InitConfig_def run_steps_append topic_steps_run)
  with consumer_names.run_ext [of "(New :: 'cb deferred, named_config cfg)" N setPolicy cfg] show ?thesis
    by (simp add: same_names_def named_config_def)
qed

lemma producer_topic_step:
  assumes "f \<in> set (tl (producer_steps N cfg))"
  shows "prod_topic (fst (flow_state (f s))) = prod_topic (fst s)"
proof -
  have "prod_topic (fst (flow_state (pemit xs s))) = prod_topic (fst s)" for xs by simp
  moreover have "prod_topic (fst (flow_state (prod_init_routing cfg s))) = prod_topic (fst s)"
    "prod_topic (fst (flow_state (prod_init_schema N cfg s))) = prod_topic (fst s)"
    "prod_topic (fst (flow_state (prod_init_crypto_key_reader N cfg s))) = prod_topic (fst s)"
    "prod_topic (fst (flow_state (prod_init_router cfg s))) = prod_topic (fst s)"
    by (auto simp: producer_other_defs split: option.split sum.split prod.split js_value.split)
  ultimately show ?thesis
    using assms unfolding producer_steps_def producer_emit_defs list.sel
    by (simp only: list.set insert_iff empty_iff) (elim disjE; simp only:)
qed

interpretation producer_topic: step_pipeline "tl (producer_steps N cfg)" "\<lambda>_. True"
    "\<lambda>s t. prod_topic (fst t) = prod_topic (fst s)"
  for N cfg
  by unfold_locales (auto intro: producer_topic_step)

lemma ProducerConfig_topic:
  assumes "ProducerConfig N cfg = Continue s"
  shows "prod_topic (fst s) = text_of cfg ''topic''"
proof -
  let ?s0 = "(\<lparr>cProducerConfig = [], prod_topic = text_of cfg ''topic'', messageRouter = None\<rparr>, False)"
  have "producer_steps N cfg = prod_init_topic cfg # tl (producer_steps N cfg)" by (simp add: producer_steps_def)
  moreover have "prod_init_topic cfg initial_producer = Continue ?s0"
    by (simp add: prod_init_topic_def initial_producer_def text_of_def split: option.split)
  ultimately have "run_steps (tl (producer_steps N cfg)) ?s0 = Continue s"
    using assms unfolding ProducerConfig_def by (metis flow.simps(10) run_steps.simps(2))
  with producer_topic.run_ext [of N cfg ?s0] show ?thesis by simp
qed

lemma info_arg_Cons [simp]: "info_arg (v # vs) 0 = v"
  by (simp add: info_arg_def)

definition start_id :: "napi \<Rightarrow> js_value \<Rightarrow> ptr option" where
  "start_id N cfg = (case get_object cfg ''startMessageId'' of None \<Rightarrow> None
     | Some v \<Rightarrow> (case MessageId_Unwrap N v of Inl e \<Rightarrow> None | Inr p \<Rightarrow> p))"

lemma refuse_simp [simp]: "refuse msg = Refused (New\<lparr>errorMsg := msg, fate := REJECTED, tsf := 0\<rparr>)"
  by (simp add: refuse_def)

subsection \<open>Properties\<close>

text \<open>
  C1. Any number of operations of any kinds, interleaved in any order with the answers of the C
  client and the finalizers: no step ever fails. In particular no callback reads a context that was
  freed, and no promise is decided a second time.
\<close>

theorem operations_never_fail:
  assumes "async_reachable (on_result rs) run w"
  shows "\<not> async_step (on_result rs) run w (Inl e)"
  using assms by (rule ops.no_failure)

theorem operations_never_fail_witness:
  "async_reachable (on_result (\<lambda>r. ''TimeOut'')) (run_resolver id) [ExtDeferredContext Op_send] \<and>
   \<not> async_step (on_result (\<lambda>r. ''TimeOut'')) (run_resolver id) [ExtDeferredContext Op_send]
      (Inl (UndefinedBehaviour ''context used after free''))"
proof -
  have "async_reachable (on_result (\<lambda>r. ''TimeOut'')) (run_resolver id) ([] @ [ExtDeferredContext Op_send])"
    by (rule async_reachable.step [OF async_reachable.init async_step.start_call])
  then have "async_reachable (on_result (\<lambda>r. ''TimeOut'')) (run_resolver id) [ExtDeferredContext Op_send]" by simp
  with operations_never_fail [OF this] show ?thesis by blast
qed

text \<open>
  C7. The operations in flight come to an end: as long as a callback or a finalizer is
  outstanding there is a step to take, each step that starts no new operation leaves less to do, and
  when nothing is left every promise handed out is settled, every context is freed and no deferred
  keeps itself alive: nothing leaks.
\<close>

theorem operations_drain:
  assumes "async_reachable (on_result rs) run w"
  shows "(\<forall>w'. async_step (on_result rs) run w (Inr w') \<and> length w' = length w \<longrightarrow> work w' < work w) \<and>
    (work w \<noteq> 0 \<longrightarrow> (\<exists>w'. async_step (on_result rs) run w (Inr w') \<and> length w' = length w)) \<and>
    (work w = 0 \<longrightarrow> (\<forall>c \<in> set w. promise (call_deferred c) \<noteq> Pending \<and> \<not> ctx_alive c \<and> \<not> self (call_deferred c)))"
  using ops.step_takes_work [OF assms] ops.work_can_proceed [OF assms] ops.no_work_complete [OF assms] by blast

theorem operations_drain_witness:
  "\<exists>w'. async_step (on_result (\<lambda>r. ''TimeOut'')) (run_resolver id) [ExtDeferredContext Op_flush] (Inr w') \<and>
     length w' = 1 \<and> work w' < 2"
proof -
  let ?H = "on_result (\<lambda>r. ''TimeOut'')" and ?w = "[ExtDeferredContext Op_flush :: (operation, resolver) call]"
  have "async_reachable ?H (run_resolver id) ([] @ ?w)"
    by (rule async_reachable.step [OF async_reachable.init async_step.start_call])
  then have w: "async_reachable ?H (run_resolver id) ?w" by simp
  have "work ?w = 2" by (simp add: work_def work_of_def ExtDeferredContext_def deferred_defs)
  then have "work ?w \<noteq> 0" by simp
  with operations_drain [OF w] obtain w' where "async_step ?H (run_resolver id) ?w (Inr w')" "length w' = length ?w" by blast
  moreover from operations_drain [OF w] calculation have "work w' < work ?w" by blast
  ultimately show ?thesis using \<open>work ?w = 2\<close> by auto
qed

text \<open>
  C3. What each of the operations answers: a failure of the C client rejects the promise with
  the operation's message followed by the result's description; success fulfils it with the value
  the operation is for. The two exceptions are a missing list of partitions and a schema of a type
  without a name, which reject. The context is freed in every case.
\<close>

theorem operation_answers:
  "\<exists>c. fire (on_result rs) r p (ExtDeferredContext op) = Inr c \<and> \<not> ctx_alive c \<and>
     answer copy (call_deferred c) = settled_answer copy rs op r p"
proof -
  have "map_sum id (answer copy) (on_result rs op r p New) = Inr (settled_answer copy rs op r p)"
    by (rule on_result_answer) simp
  then obtain d where "on_result rs op r p New = Inr d" "answer copy d = settled_answer copy rs op r p"
    by (cases "on_result rs op r p New") auto
  then show ?thesis by (simp add: fire_def ExtDeferredContext_def)
qed

text \<open>
  C29. The version given to \<open>getSchemaInfo\<close> is the one requested: the call is made exactly
  for a string and a non-negative safe integer, with this integer; everything else is a
  \<open>TypeError\<close>, raised before a promise is created.
\<close>

theorem schema_version_exact:
  "(case Client_GetSchemaInfo info of
      Started op reqs \<Rightarrow> op = Op_getSchemaInfo \<and> (\<exists>topic i w. info_arg info 0 = JString topic \<and>
        info_arg info 1 = JNumber (Finite (of_int i)) \<and> 0 \<le> i \<and> i \<le> 9007199254740991 \<and>
        reqs = [C_get_schema_info_async topic w] \<and> sint w = i)
    | Raised e n \<Rightarrow> n = 0 \<and> (\<exists>msg. e = JsTypeError msg) \<and>
        (\<nexists>topic i. info_arg info 0 = JString topic \<and> info_arg info 1 = JNumber (Finite (of_int i)) \<and>
           0 \<le> i \<and> i \<le> 9007199254740991)
    | _ \<Rightarrow> False)"
proof (cases "valid_version info")
  case None
  have "\<not> (0 \<le> i \<and> i \<le> 9007199254740991)" if "info_arg info 1 = JNumber (Finite (of_int i))" for i
  proof -
    from that have "2 \<le> length info" by (auto simp: info_arg_def split: if_splits)
    with that have "valid_version info \<noteq> None" if "0 \<le> i" "i \<le> 9007199254740991"
      using that by (simp add: valid_version_def maxSafeInteger_def)
    with None show ?thesis by blast
  qed
  with None show ?thesis by (auto simp: Client_GetSchemaInfo_def split: js_value.split)
next
  case (Some v)
  then have v: "info_arg info 1 = JNumber (Finite v)" "0 \<le> v" "v \<le> of_int maxSafeInteger" "of_int (trunc v) = v"
    by (auto simp: valid_version_def split: if_splits js_value.splits js_number.splits)
  let ?i = "trunc v"
  have i: "0 \<le> ?i" "?i \<le> 9007199254740991"
    using v(2-4) by (metis of_int_0_le_iff, metis maxSafeInteger_def of_int_le_iff)
  then have "sint (word_of_int ?i :: int64) = ?i" by (intro sint_word_of_int_64) simp_all
  with Some v i show ?thesis
    by (cases "info_arg info 0") (auto simp: Client_GetSchemaInfo_def intro!: exI [of _ ?i])
qed



text \<open>
  C30. A reader's worker owns the message pointer whatever the result, a consumer's only on
  success: where the C client leaves the pointer unset on failure, the consumer's promise is
  rejected with the error, while the reader frees an uninitialised pointer. On success both
  fulfil the promise with the message.
\<close>

theorem reader_worker_owns_unset_pointer:
  "(\<exists>w. ConsumerReceiveWorker_Execute rs (pulsar_result_Failure k) None = Inr w \<and>
      worker_promise w = Rejected (''Failed to receive message: '' @ rs (pulsar_result_Failure k))) \<and>
   (\<exists>what. ReaderReadNextWorker_Execute rs (pulsar_result_Failure k) None = Inl (UndefinedBehaviour what)) \<and>
   (\<exists>w. ReaderReadNextWorker_Execute rs pulsar_result_Ok (Some m) = Inr w \<and>
      ConsumerReceiveWorker_Execute rs pulsar_result_Ok (Some m) = Inr w \<and>
      worker_promise w = Fulfilled (JNative (N_Message (Some m)) []))"
  by (simp add: ConsumerReceiveWorker_Execute_def ReaderReadNextWorker_Execute_def wrap_message_def fresh_worker_def
      worker_promise_def)



text \<open>
  Closing a consumer that has a listener pauses the C client's listener before it asks for
  the close and releases the listener; closing it again only asks for the close.
\<close>

theorem consumer_close_pauses_once:
  assumes "Consumer_Close p this = (r, this')"
  shows "r = Started Op_consumerClose ((if obj_listener this = None then [] else [C_pause_message_listener p]) @
      [C_consumer_close_async p]) \<and>
    released this' = released this @ (case obj_listener this of None \<Rightarrow> [] | Some l \<Rightarrow> [l]) \<and>
    Consumer_Close p this' = (Started Op_consumerClose [C_consumer_close_async p], this')"
  using assms by (auto simp: Consumer_Close_def consumer_Cleanup_def split: option.splits)

theorem consumer_close_pauses_once_witness:
  "fst (Consumer_Close 3 (SetListenerCallback (Some 8) (new_object 3))) =
     Started Op_consumerClose [C_pause_message_listener 3, C_consumer_close_async 3]"
  using consumer_close_pauses_once [of 3 "SetListenerCallback (Some 8) (new_object 3)"]
  by (cases "Consumer_Close 3 (SetListenerCallback (Some 8) (new_object 3))") (simp add: SetListenerCallback_def new_object_def)


end
