(* ===== verification/Handles.thy ===== *)
theory Handles
  imports Operations
begin

section \<open>Who holds the messages and ids of the C client\<close>

text \<open>
  Messages and ids are structures of the C client. The binding keeps them in \<open>std::shared_ptr\<close>s:
  in its JavaScript objects, in the contexts of its requests, in closures that resolve a promise, in
  workers and in the data of a listener's call. Below, a block is the control block of a
  \<open>shared_ptr\<close> with its pointer and whether its deleter frees it, and a holder is one
  \<open>shared_ptr\<close>; each operation is the sequence of pointers it creates, copies, uses and drops.
  The deleters do nothing for the two ids that the C client owns for ever, \<open>earliest\<close> and
  \<open>latest\<close>, and for the message that is passed to a message router, which the C client destroys
  after the call. The theorems show that no structure is used or freed after it was freed and that none
  is left over, as long as the application does not keep a message it was given to route, and
  that keeping one is enough to read freed memory.
\<close>

subsection \<open>State\<close>

datatype holder = Local | Js_Object | Send_Context | Id_Resolver | Worker | Listener_Local | Listener_Data | Start_Id | Gone

text \<open>
  Pointers are numbered as the C client allocates them; 0 and 1 are its ids \<open>earliest\<close> and
  \<open>latest\<close>. \<open>hs_raw\<close> are pointers that the C client has handed over and that a closure
  keeps as they are; \<open>hs_lent\<close> are the messages of calls of a router that have not returned.
\<close>

record handles =
  hs_next :: nat
  hs_freed :: "nat list"
  hs_blocks :: "(nat \<times> bool) list"
  hs_holders :: "(holder \<times> nat option) list"
  hs_raw :: "nat list"
  hs_lent :: "nat list"

definition no_handles :: handles where
  "no_handles = \<lparr>hs_next = 2, hs_freed = [], hs_blocks = [], hs_holders = [], hs_raw = [], hs_lent = []\<rparr>"

definition live :: "handles \<Rightarrow> nat \<Rightarrow> bool" where
  "live s p \<longleftrightarrow> p < hs_next s \<and> p \<notin> set (hs_freed s)"

definition freed_twice :: exn where
  "freed_twice = UndefinedBehaviour ''structure freed twice''"

definition used_after_free :: exn where
  "used_after_free = UndefinedBehaviour ''structure used after it was freed''"

subsection \<open>Shared pointers\<close>

definition free_pointer :: "nat \<Rightarrow> handles \<Rightarrow> exn + handles" where
  "free_pointer p s = (if live s p then Inr (s\<lparr>hs_freed := hs_freed s @ [p]\<rparr>) else Inl freed_twice)"

definition held_block :: "handles \<Rightarrow> nat \<Rightarrow> nat option" where
  "held_block s h = (if h < length (hs_holders s) then snd (hs_holders s ! h) else None)"

definition holder_kind :: "handles \<Rightarrow> nat \<Rightarrow> holder" where
  "holder_kind s h = (if h < length (hs_holders s) then fst (hs_holders s ! h) else Gone)"

definition held :: "handles \<Rightarrow> nat \<Rightarrow> bool" where
  "held s b \<longleftrightarrow> Some b \<in> snd ` set (hs_holders s)"

definition hold :: "holder \<Rightarrow> nat option \<Rightarrow> handles \<Rightarrow> handles" where
  "hold k b s = s\<lparr>hs_holders := hs_holders s @ [(k, b)]\<rparr>"

definition make_shared :: "holder \<Rightarrow> nat \<Rightarrow> bool \<Rightarrow> handles \<Rightarrow> handles" where
  "make_shared k p frees_it s = hold k (Some (length (hs_blocks s))) (s\<lparr>hs_blocks := hs_blocks s @ [(p, frees_it)]\<rparr>)"

definition copy_shared :: "holder \<Rightarrow> nat \<Rightarrow> handles \<Rightarrow> handles" where
  "copy_shared k h s = hold k (held_block s h) s"

text \<open>Dropping the last pointer of a block runs its deleter.\<close>

definition drop_shared :: "nat \<Rightarrow> handles \<Rightarrow> exn + handles" where
  "drop_shared h s =
     (let s' = s\<lparr>hs_holders := (hs_holders s)[h := (Gone, None)]\<rparr> in
      case held_block s h of
        None \<Rightarrow> Inr s'
      | Some b \<Rightarrow> (if held s' b \<or> \<not> snd (hs_blocks s ! b) then Inr s' else free_pointer (fst (hs_blocks s ! b)) s'))"

text \<open>The C client reads through the pointer; a null pointer is refused before or by the caller.\<close>

definition use_shared :: "nat \<Rightarrow> handles \<Rightarrow> exn + handles" where
  "use_shared h s = (case held_block s h of
       None \<Rightarrow> Inr s
     | Some b \<Rightarrow> (if live s (fst (hs_blocks s ! b)) then Inr s else Inl used_after_free))"

text \<open>A structure that the C client has just made, owned by a new pointer.\<close>

definition own_new :: "holder \<Rightarrow> handles \<Rightarrow> handles" where
  "own_new k s = make_shared k (hs_next s) True (s\<lparr>hs_next := Suc (hs_next s)\<rparr>)"

definition next_holder :: "handles \<Rightarrow> nat" where
  "next_holder s = length (hs_holders s)"

fun in_turn :: "(handles \<Rightarrow> exn + handles) list \<Rightarrow> handles \<Rightarrow> exn + handles" where
  "in_turn [] s = Inr s"
| "in_turn (f # fs) s = (case f s of Inl e \<Rightarrow> Inl e | Inr s' \<Rightarrow> in_turn fs s')"

subsection \<open>Ids and messages\<close>

text \<open>
  \<open>NewInstance\<close> of both classes: the parameter, which is the holder \<open>l\<close>, is copied into the
  new object and dropped. \<open>Earliest\<close>, \<open>Latest\<close> and \<open>Deserialize\<close> do the same
  with a local variable. A buffer is checked by \<open>Deserialize\<close> before anything is allocated.
\<close>

definition h_NewInstance :: "nat \<Rightarrow> handles \<Rightarrow> exn + handles" where
  "h_NewInstance l s = in_turn [Inr \<circ> copy_shared Js_Object l, drop_shared l] s"

definition h_Earliest :: "handles \<Rightarrow> exn + handles" where
  "h_Earliest s = h_NewInstance (next_holder s) (make_shared Local 0 False s)"

definition h_Latest :: "handles \<Rightarrow> exn + handles" where
  "h_Latest s = h_NewInstance (next_holder s) (make_shared Local 1 False s)"

definition h_Deserialize :: "handles \<Rightarrow> exn + handles" where
  "h_Deserialize s = h_NewInstance (next_holder s) (own_new Local s)"

text \<open>The parameter \<open>cMessage\<close> is passed by value.\<close>

definition h_NewInstanceFromMessage :: "nat \<Rightarrow> handles \<Rightarrow> exn + handles" where
  "h_NewInstanceFromMessage h s =
     (let l = next_holder s in
      in_turn [Inr \<circ> copy_shared Local h, use_shared l, Inr \<circ> own_new Local, h_NewInstance (Suc l), drop_shared l] s)"

text \<open>\<open>GetCMessage().get()\<close> and \<open>GetCMessageId().get()\<close> as the argument of a call.\<close>

definition h_through_getter :: "nat \<Rightarrow> handles \<Rightarrow> exn + handles" where
  "h_through_getter h s =
     (let l = next_holder s in in_turn [Inr \<circ> copy_shared Local h, use_shared l, drop_shared l] s)"

text \<open>The memory of the buffer returned is freed by \<open>serializeFinalizeCallback\<close>.\<close>

definition h_Serialize :: "nat \<Rightarrow> handles \<Rightarrow> exn + handles" where
  "h_Serialize h s = in_turn [h_through_getter h, Inr \<circ> own_new Js_Object] s"

text \<open>\<open>ToString\<close> frees the text it is given, \<open>GetProperties\<close> the map.\<close>

definition h_with_result :: "nat \<Rightarrow> handles \<Rightarrow> exn + handles" where
  "h_with_result h s =
     (let l = next_holder s in in_turn [use_shared h, Inr \<circ> own_new Local, use_shared l, drop_shared l] s)"

subsection \<open>Sending\<close>

text \<open>If \<open>BuildMessage\<close> throws, its local pointer is dropped.\<close>

definition h_Send :: "bool \<Rightarrow> handles \<Rightarrow> exn + handles" where
  "h_Send built s =
     (let l = next_holder s in
      in_turn ([Inr \<circ> own_new Local] @
        (if built then [Inr \<circ> copy_shared Send_Context l, use_shared l] else []) @ [drop_shared l]) s)"

definition h_send_callback :: "nat \<Rightarrow> bool \<Rightarrow> handles \<Rightarrow> exn + handles" where
  "h_send_callback ctx ok s =
     (let l = next_holder s; cMessageId = Suc l in
      in_turn ([Inr \<circ> copy_shared Local ctx, drop_shared ctx, Inr \<circ> own_new Local] @
        (if ok then [Inr \<circ> copy_shared Id_Resolver cMessageId] else []) @
        [drop_shared cMessageId, drop_shared l]) s)"

definition h_send_resolver :: "nat \<Rightarrow> handles \<Rightarrow> exn + handles" where
  "h_send_resolver k s = (let l = next_holder s in in_turn [Inr \<circ> copy_shared Local k, h_NewInstance l] s)"

subsection \<open>Receiving\<close>

definition h_receive_callback :: "handles \<Rightarrow> handles" where
  "h_receive_callback s = s\<lparr>hs_next := Suc (hs_next s), hs_raw := hs_raw s @ [hs_next s]\<rparr>"

definition take_raw :: "nat \<Rightarrow> handles \<Rightarrow> handles" where
  "take_raw p s = s\<lparr>hs_raw := remove1 p (hs_raw s)\<rparr>"

definition h_receive_resolver :: "nat \<Rightarrow> handles \<Rightarrow> exn + handles" where
  "h_receive_resolver p s = h_NewInstance (next_holder s) (make_shared Local p True (take_raw p s))"

fun h_batch_loop :: "nat \<Rightarrow> nat \<Rightarrow> handles \<Rightarrow> exn + handles" where
  "h_batch_loop p 0 s = Inr s"
| "h_batch_loop p (Suc n) s =
     (if live s p then in_turn [Inr \<circ> own_new Local, h_NewInstance (next_holder s), h_batch_loop p n] s
      else Inl used_after_free)"

definition h_batch_resolver :: "nat \<Rightarrow> nat \<Rightarrow> handles \<Rightarrow> exn + handles" where
  "h_batch_resolver p listSize s = in_turn [h_batch_loop p listSize, free_pointer p, Inr \<circ> take_raw p] s"

text \<open>
  The worker of \<open>receive\<close> with a timeout. That of a reader differs on failure, as a property of
  \<open>Operations\<close> shows.
\<close>

definition h_worker_Execute :: "bool \<Rightarrow> handles \<Rightarrow> handles" where
  "h_worker_Execute ok s = (if ok then own_new Worker s else hold Worker None s)"

text \<open>The worker destroys itself after \<open>OnOK\<close> or \<open>OnError\<close>.\<close>

definition h_worker_OnOK :: "nat \<Rightarrow> handles \<Rightarrow> exn + handles" where
  "h_worker_OnOK w s =
     (let l = next_holder s in in_turn [Inr \<circ> copy_shared Local w, h_NewInstance l, drop_shared w] s)"

definition h_MessageListener :: "bool \<Rightarrow> handles \<Rightarrow> exn + handles" where
  "h_MessageListener acquired s =
     (let l = next_holder s in
      in_turn [Inr \<circ> own_new Listener_Local, if acquired then Inr \<circ> copy_shared Listener_Data l else drop_shared l] s)"

definition h_MessageListenerProxy :: "nat \<Rightarrow> handles \<Rightarrow> exn + handles" where
  "h_MessageListenerProxy d s = (let l = next_holder s in in_turn [Inr \<circ> copy_shared Local d, h_NewInstance l] s)"

definition h_listener_end :: "nat \<Rightarrow> handles \<Rightarrow> exn + handles" where
  "h_listener_end l s = in_turn [drop_shared (Suc l), drop_shared l] s"

subsection \<open>Routing\<close>

text \<open>The C client makes a message for the call and destroys it afterwards.\<close>

definition h_choosePartition :: "handles \<Rightarrow> exn + handles" where
  "h_choosePartition s =
     (let msg = hs_next s in
      h_NewInstance (next_holder s)
        (make_shared Local msg False (s\<lparr>hs_next := Suc msg, hs_lent := hs_lent s @ [msg]\<rparr>)))"

definition h_router_returned :: "nat \<Rightarrow> handles \<Rightarrow> exn + handles" where
  "h_router_returned p s = free_pointer p (s\<lparr>hs_lent := remove1 p (hs_lent s)\<rparr>)"

subsection \<open>The machine\<close>

text \<open>The message of a router's call that has returned.\<close>

definition expired :: "handles \<Rightarrow> nat \<Rightarrow> bool" where
  "expired s h = (case held_block s h of
       None \<Rightarrow> False
     | Some b \<Rightarrow> \<not> snd (hs_blocks s ! b) \<and> fst (hs_blocks s ! b) \<notin> {0, 1} \<union> set (hs_lent s))"

text \<open>
  The methods use the pointer of a JavaScript object; \<open>keeps\<close> is whether the application may use
  a message it was given to route after the router returned. Objects are finalized, workers,
  configurations and closures destroyed at any time after their last use.
\<close>

inductive handle_step :: "bool \<Rightarrow> handles \<Rightarrow> exn + handles \<Rightarrow> bool" for keeps where
  earliest: "handle_step keeps s (h_Earliest s)"
| latest: "handle_step keeps s (h_Latest s)"
| deserialize: "handle_step keeps s (h_Deserialize s)"
| on_object: "f \<in> {use_shared, h_through_getter, h_with_result, h_Serialize, h_NewInstanceFromMessage} \<Longrightarrow>
    holder_kind s h = Js_Object \<Longrightarrow> keeps \<or> \<not> expired s h \<Longrightarrow> handle_step keeps s (f h s)"
| start_id: "holder_kind s h = Js_Object \<Longrightarrow> handle_step keeps s (Inr (copy_shared Start_Id h s))"
| send: "handle_step keeps s (h_Send built s)"
| sent: "holder_kind s c = Send_Context \<Longrightarrow> handle_step keeps s (h_send_callback c ok s)"
| send_resolver: "holder_kind s k = Id_Resolver \<Longrightarrow> handle_step keeps s (h_send_resolver k s)"
| received: "handle_step keeps s (Inr (h_receive_callback s))"
| receive_resolver: "p \<in> set (hs_raw s) \<Longrightarrow> handle_step keeps s (h_receive_resolver p s)"
| batch_resolver: "p \<in> set (hs_raw s) \<Longrightarrow> handle_step keeps s (h_batch_resolver p n s)"
| execute: "handle_step keeps s (Inr (h_worker_Execute ok s))"
| on_ok: "holder_kind s w = Worker \<Longrightarrow> handle_step keeps s (h_worker_OnOK w s)"
| listener: "handle_step keeps s (h_MessageListener acquired s)"
| proxy: "holder_kind s d = Listener_Data \<Longrightarrow> handle_step keeps s (h_MessageListenerProxy d s)"
| listener_end: "holder_kind s l = Listener_Local \<Longrightarrow> holder_kind s (Suc l) = Listener_Data \<Longrightarrow>
    handle_step keeps s (h_listener_end l s)"
| route: "handle_step keeps s (h_choosePartition s)"
| routed: "p \<in> set (hs_lent s) \<Longrightarrow> handle_step keeps s (h_router_returned p s)"
| destroy: "holder_kind s h \<in> {Js_Object, Id_Resolver, Worker, Start_Id} \<Longrightarrow> handle_step keeps s (drop_shared h s)"

inductive handle_reachable :: "bool \<Rightarrow> handles \<Rightarrow> bool" for keeps where
  start: "handle_reachable keeps no_handles"
| step: "handle_reachable keeps s \<Longrightarrow> handle_step keeps s (Inr s') \<Longrightarrow> handle_reachable keeps s'"

subsection \<open>Invariant\<close>

definition frees :: "handles \<Rightarrow> nat \<Rightarrow> nat \<Rightarrow> bool" where
  "frees s b p \<longleftrightarrow> b < length (hs_blocks s) \<and> hs_blocks s ! b = (p, True)"

text \<open>Structures that nobody has to free: the static ids, and those that are not in a pointer yet.\<close>

definition outside :: "handles \<Rightarrow> nat list" where
  "outside s = [0, 1] @ hs_raw s @ hs_lent s"

definition blocks_ok :: "handles \<Rightarrow> bool" where
  "blocks_ok s \<longleftrightarrow> (\<forall>b. held s b \<longrightarrow> b < length (hs_blocks s)) \<and>
     (\<forall>b < length (hs_blocks s). fst (hs_blocks s ! b) < hs_next s) \<and>
     (\<forall>b c p. frees s b p \<and> frees s c p \<longrightarrow> b = c) \<and> (\<forall>b p. frees s b p \<longrightarrow> p \<notin> set (outside s))"

definition memory_ok :: "handles \<Rightarrow> bool" where
  "memory_ok s \<longleftrightarrow> distinct (outside s) \<and> (\<forall>p \<in> set (outside s). p < hs_next s) \<and>
     distinct (hs_freed s) \<and> (\<forall>p \<in> set (hs_freed s). p < hs_next s) \<and>
     (\<forall>p < hs_next s. p \<in> set (hs_freed s) \<longleftrightarrow> p \<notin> set (outside s) \<and> (\<forall>b. frees s b p \<longrightarrow> \<not> held s b))"

definition handles_inv :: "handles \<Rightarrow> bool" where
  "handles_inv s \<longleftrightarrow> blocks_ok s \<and> memory_ok s"

lemmas handles_inv_defs = handles_inv_def blocks_ok_def memory_ok_def

lemma handles_inv_start: "handles_inv no_handles"
  by (auto simp: handles_inv_defs no_handles_def held_def frees_def outside_def)

lemma held_hold [simp]: "held (hold k b s) c \<longleftrightarrow> held s c \<or> b = Some c"
  by (auto simp: held_def hold_def)

lemma hold_simps [simp]:
  "hs_next (hold k b s) = hs_next s" "hs_freed (hold k b s) = hs_freed s" "hs_blocks (hold k b s) = hs_blocks s"
  "hs_raw (hold k b s) = hs_raw s" "hs_lent (hold k b s) = hs_lent s" "outside (hold k b s) = outside s"
  "frees (hold k b s) = frees s"
  by (simp_all add: hold_def outside_def frees_def fun_eq_iff)

lemma held_block_held: "held_block s h = Some b \<Longrightarrow> held s b"
  by (auto simp: held_block_def held_def image_iff split: if_splits intro: nth_mem) (metis nth_mem snd_conv surj_pair)

lemma copy_inv: "handles_inv s \<Longrightarrow> handles_inv (copy_shared k h s)"
  using held_block_held [of s h] by (auto simp: handles_inv_defs copy_shared_def)

lemma hold_none_inv: "handles_inv s \<Longrightarrow> handles_inv (hold k None s)"
  by (simp add: handles_inv_defs)

lemma handles_invI:
  assumes "\<And>b. held s b \<Longrightarrow> b < length (hs_blocks s)"
    and "\<And>b. b < length (hs_blocks s) \<Longrightarrow> fst (hs_blocks s ! b) < hs_next s"
    and "\<And>b c p. frees s b p \<Longrightarrow> frees s c p \<Longrightarrow> b = c" and "\<And>b p. frees s b p \<Longrightarrow> p \<notin> set (outside s)"
    and "distinct (outside s)" and "\<And>p. p \<in> set (outside s) \<Longrightarrow> p < hs_next s"
    and "distinct (hs_freed s)" and "\<And>p. p \<in> set (hs_freed s) \<Longrightarrow> p < hs_next s"
    and "\<And>p. p < hs_next s \<Longrightarrow> p \<in> set (hs_freed s) \<longleftrightarrow> p \<notin> set (outside s) \<and> (\<forall>b. frees s b p \<longrightarrow> \<not> held s b)"
  shows "handles_inv s"
  using assms unfolding handles_inv_defs by blast

lemma handles_invD:
  assumes "handles_inv s"
  shows "held s b \<Longrightarrow> b < length (hs_blocks s)"
    and "b < length (hs_blocks s) \<Longrightarrow> fst (hs_blocks s ! b) < hs_next s"
    and "frees s b p \<Longrightarrow> frees s c p \<Longrightarrow> b = c" and "frees s b p \<Longrightarrow> p \<notin> set (outside s)"
    and "distinct (outside s)" and "p \<in> set (outside s) \<Longrightarrow> p < hs_next s"
    and "distinct (hs_freed s)" and "p \<in> set (hs_freed s) \<Longrightarrow> p < hs_next s"
    and "p < hs_next s \<Longrightarrow> p \<in> set (hs_freed s) \<longleftrightarrow> p \<notin> set (outside s) \<and> (\<forall>b. frees s b p \<longrightarrow> \<not> held s b)"
  using assms unfolding handles_inv_defs by (simp_all) blast

text \<open>A new block that frees a structure outside of all blocks, which then is outside no more.\<close>

lemma own_inv:
  assumes inv: "handles_inv s" and p: "p \<notin> set (outside s')" "p < hs_next s'" "\<And>b. \<not> frees s b p" "p \<notin> set (hs_freed s)"
    and same: "hs_freed s' = hs_freed s" "hs_blocks s' = hs_blocks s" "hs_holders s' = hs_holders s"
    and "distinct (outside s')" and grown: "hs_next s \<le> hs_next s'" "\<And>q. q < hs_next s' \<Longrightarrow> q = p \<or> q < hs_next s"
    and rest: "\<And>q. q \<noteq> p \<Longrightarrow> q \<in> set (outside s') \<longleftrightarrow> q \<in> set (outside s)"
  shows "handles_inv (make_shared k p True s')"
proof -
  let ?t = "make_shared k p True s'"
  have frees: "frees ?t b q \<longleftrightarrow> frees s b q \<or> (b = length (hs_blocks s) \<and> q = p)" for b q
    using same by (auto simp: make_shared_def frees_def nth_append)
  have held: "held ?t b \<longleftrightarrow> held s b \<or> b = length (hs_blocks s)" for b
    using same by (auto simp: make_shared_def held_def hold_def)
  have t: "outside ?t = outside s'" "hs_next ?t = hs_next s'" "hs_freed ?t = hs_freed s" "hs_blocks ?t = hs_blocks s @ [(p, True)]"
    using same by (simp_all add: make_shared_def outside_def)
  note D = handles_invD [OF inv]
  show ?thesis
  proof (rule handles_invI)
    fix q assume q: "q < hs_next ?t"
    show "q \<in> set (hs_freed ?t) \<longleftrightarrow> q \<notin> set (outside ?t) \<and> (\<forall>b. frees ?t b q \<longrightarrow> \<not> held ?t b)"
    proof (cases "q = p")
      case False
      then have "\<And>b. frees s b q \<Longrightarrow> b < length (hs_blocks s)" by (simp add: frees_def)
      with False q grown(2) [of q] rest t D(9) [of q] show ?thesis by (auto simp: frees held)
    qed (use p frees held t in auto)
  next
    fix b assume "b < length (hs_blocks ?t)"
    then show "fst (hs_blocks ?t ! b) < hs_next ?t"
      using D(2) [of b] p(2) grown(1) t by (auto simp: nth_append less_Suc_eq)
  next
    fix q assume "q \<in> set (outside ?t)"
    then show "q < hs_next ?t" using p(1) rest [of q] D(6) [of q] grown(1) t by (cases "q = p") auto
  next
    fix q assume "q \<in> set (hs_freed ?t)"
    then show "q < hs_next ?t" using D(8) [of q] grown(1) t by auto
  next
    fix b c q assume "frees ?t b q" "frees ?t c q"
    then show "b = c" using D(3) [of b q c] p(3) frees by auto
  next
    fix b q assume "frees ?t b q"
    then show "q \<notin> set (outside ?t)" using D(4) [of b q] p(1) rest [of q] t frees by (cases "q = p") auto
  next
    fix b assume "held ?t b"
    then show "b < length (hs_blocks ?t)" using D(1) [of b] held t by auto
  qed (use assms D(7) t in simp_all)
qed


lemma frees_bound: "handles_inv s \<Longrightarrow> frees s b p \<Longrightarrow> p < hs_next s"
  using handles_invD(2) [of s b] by (simp add: frees_def)

lemma outside_next [simp]: "outside (s\<lparr>hs_next := n\<rparr>) = outside s"
  by (simp add: outside_def)

lemma own_new_inv: "handles_inv s \<Longrightarrow> handles_inv (own_new k s)"
  unfolding own_new_def
  by (rule own_inv [where s = s]) (auto dest: frees_bound handles_invD(6,8) intro: handles_invD(5))

lemma own_raw_inv:
  assumes "handles_inv s" and "p \<in> set (hs_raw s)"
  shows "handles_inv (make_shared k p True (take_raw p s))"
proof (rule own_inv [OF assms(1)])
  have d: "distinct (hs_raw s)" using handles_invD(5) [OF assms(1)] by (simp add: outside_def)
  have p: "p \<in> set (outside s)" using assms(2) by (simp add: outside_def)
  show "p \<notin> set (outside (take_raw p s))" "distinct (outside (take_raw p s))"
    using handles_invD(5) [OF assms(1)] assms(2) by (auto simp: outside_def take_raw_def set_remove1_eq dest: notin_set_remove1)
  show "p < hs_next (take_raw p s)" using handles_invD(6) [OF assms(1) p] by (simp add: take_raw_def)
  show "\<not> frees s b p" for b using handles_invD(4) [OF assms(1)] p by blast
  show "p \<notin> set (hs_freed s)" using handles_invD(9,6) [OF assms(1)] p by blast
  show "q \<in> set (outside (take_raw p s)) \<longleftrightarrow> q \<in> set (outside s)" if "q \<noteq> p" for q
    using that d by (simp add: outside_def take_raw_def)
qed (simp_all add: take_raw_def)

text \<open>A block that does not free.\<close>

lemma borrow_inv:
  assumes inv: "handles_inv s" and p: "p < hs_next s"
  shows "handles_inv (make_shared k p False s)"
proof -
  let ?t = "make_shared k p False s"
  have frees: "frees ?t = frees s" by (auto simp: make_shared_def frees_def nth_append fun_eq_iff less_Suc_eq)
  have held: "held ?t b \<longleftrightarrow> held s b \<or> b = length (hs_blocks s)" for b
    by (auto simp: make_shared_def held_def hold_def)
  have "\<not> frees s (length (hs_blocks s)) q" for q by (simp add: frees_def)
  with inv p show ?thesis
    unfolding handles_inv_defs frees held by (auto simp: make_shared_def outside_def nth_append less_Suc_eq)
qed

text \<open>Dropping a pointer: either the block is still held, or its structure is freed.\<close>

definition gone :: "nat \<Rightarrow> handles \<Rightarrow> handles" where
  "gone h s = s\<lparr>hs_holders := (hs_holders s)[h := (Gone, None)]\<rparr>"

lemma gone_simps [simp]:
  "hs_next (gone h s) = hs_next s" "hs_freed (gone h s) = hs_freed s" "hs_blocks (gone h s) = hs_blocks s"
  "hs_raw (gone h s) = hs_raw s" "hs_lent (gone h s) = hs_lent s" "outside (gone h s) = outside s" "frees (gone h s) = frees s"
  by (simp_all add: gone_def outside_def frees_def fun_eq_iff)

lemma held_nth: "held s b \<longleftrightarrow> (\<exists>i < length (hs_holders s). snd (hs_holders s ! i) = Some b)"
  unfolding held_def set_conv_nth image_Collect by auto (metis nth_mem snd_conv surj_pair)+

lemma gone_nth: "i < length (hs_holders s) \<Longrightarrow> snd ((hs_holders s)[h := (Gone, None)] ! i) = Some c \<longleftrightarrow> i \<noteq> h \<and> snd (hs_holders s ! i) = Some c"
  by (cases "i = h") simp_all

lemma held_gone: "held_block s h \<noteq> Some c \<Longrightarrow> held (gone h s) c \<longleftrightarrow> held s c"
  by (auto simp: held_nth gone_def held_block_def gone_nth cong: conj_cong split: if_splits)

lemma held_gone_le: "held (gone h s) c \<Longrightarrow> held s c"
  by (auto simp: held_nth gone_def gone_nth)


lemma gone_inv:
  assumes "handles_inv s" and "\<And>b p. held_block s h = Some b \<Longrightarrow> frees s b p \<Longrightarrow> held (gone h s) b"
  shows "handles_inv (gone h s)"
proof (rule handles_invI)
  note D = handles_invD [OF assms(1)]
  fix p assume "p < hs_next (gone h s)"
  then have "p \<in> set (hs_freed s) \<longleftrightarrow> p \<notin> set (outside s) \<and> (\<forall>b. frees s b p \<longrightarrow> \<not> held s b)" using D(9) by simp
  moreover have "held (gone h s) b \<longleftrightarrow> held s b" if "frees s b p" for b
    using assms(2) [OF _ that] held_gone [of s h b] held_gone_le [of h s b] by blast
  ultimately show "p \<in> set (hs_freed (gone h s)) \<longleftrightarrow> p \<notin> set (outside (gone h s)) \<and> (\<forall>b. frees (gone h s) b p \<longrightarrow> \<not> held (gone h s) b)"
    by auto
qed (use handles_invD [OF assms(1)] in \<open>auto dest: held_gone_le\<close>)

lemma gone_freed_inv:
  assumes "handles_inv s" and b: "held_block s h = Some b" and p: "frees s b p" and "\<not> held (gone h s) b"
  shows "live (gone h s) p" and "handles_inv (gone h s\<lparr>hs_freed := hs_freed s @ [p]\<rparr>)"
proof -
  note D = handles_invD [OF assms(1)]
  have held: "held s b" by (rule held_block_held [OF b])
  have new: "p < hs_next s" "p \<notin> set (hs_freed s)" using frees_bound [OF assms(1) p] D(9) [of p] p held by auto
  then show "live (gone h s) p" by (simp add: live_def)
  let ?t = "gone h s\<lparr>hs_freed := hs_freed s @ [p]\<rparr>"
  have t: "frees ?t = frees s" "outside ?t = outside s" "held ?t = held (gone h s)"
    by (simp_all add: frees_def outside_def held_def fun_eq_iff)
  show "handles_inv ?t"
  proof (rule handles_invI)
    fix q assume "q < hs_next ?t"
    then have q: "q \<in> set (hs_freed s) \<longleftrightarrow> q \<notin> set (outside s) \<and> (\<forall>c. frees s c q \<longrightarrow> \<not> held s c)" using D(9) by simp
    show "q \<in> set (hs_freed ?t) \<longleftrightarrow> q \<notin> set (outside ?t) \<and> (\<forall>c. frees ?t c q \<longrightarrow> \<not> held ?t c)"
    proof (cases "q = p")
      case True
      then show ?thesis using D(3) [OF p] D(4) [OF p] assms(4) by (auto simp: t)
    next
      case False
      then have "frees s c q \<Longrightarrow> c \<noteq> b" for c using p by (auto simp: frees_def)
      then have "frees s c q \<Longrightarrow> held (gone h s) c \<longleftrightarrow> held s c" for c using held_gone [of s h c] b by auto
      with False q show ?thesis by (auto simp: t)
    qed
  qed (use D new in \<open>auto simp: t dest: held_gone_le\<close>)
qed

definition keeps_inv :: "(handles \<Rightarrow> exn + handles) \<Rightarrow> bool" where
  "keeps_inv f \<longleftrightarrow> (\<forall>s. handles_inv s \<longrightarrow> (\<exists>s'. f s = Inr s' \<and> handles_inv s'))"

lemma drop_inv: "keeps_inv (drop_shared h)"
  unfolding keeps_inv_def
proof (intro allI impI)
  fix s assume inv: "handles_inv s"
  show "\<exists>s'. drop_shared h s = Inr s' \<and> handles_inv s'"
  proof (cases "held_block s h")
    case None
    then show ?thesis using gone_inv [OF inv, of h] by (simp add: drop_shared_def gone_def [symmetric])
  next
    case (Some b)
    obtain p d where bp: "hs_blocks s ! b = (p, d)" by fastforce
    have "b < length (hs_blocks s)" using handles_invD(1) [OF inv held_block_held [OF Some]] .
    with bp have frees: "frees s b q \<longleftrightarrow> d \<and> q = p" for q by (auto simp: frees_def)
    show ?thesis
    proof (cases "held (gone h s) b \<or> \<not> d")
      case True
      then have "handles_inv (gone h s)" using gone_inv [OF inv, of h] Some frees by auto
      with True Some bp show ?thesis by (simp add: drop_shared_def Let_def gone_def [symmetric])
    next
      case False
      then show ?thesis using gone_freed_inv [OF inv Some, of p] frees Some bp
        by (simp add: drop_shared_def Let_def gone_def [symmetric] free_pointer_def)
    qed
  qed
qed


subsection \<open>The operations keep it\<close>

lemma keeps_inv_pure: "(\<And>s. handles_inv s \<Longrightarrow> handles_inv (f s)) \<Longrightarrow> keeps_inv (Inr \<circ> f)"
  by (simp add: keeps_inv_def)

lemmas keeps_inv_basic = drop_inv keeps_inv_pure [OF copy_inv] keeps_inv_pure [OF own_new_inv]

lemma keeps_inv_in_turn: "list_all keeps_inv fs \<Longrightarrow> keeps_inv (in_turn fs)"
proof (induction fs)
  case (Cons f fs)
  then have f: "keeps_inv f" and fs: "keeps_inv (in_turn fs)" by simp_all
  show ?case unfolding keeps_inv_def
  proof (intro allI impI)
    fix s assume "handles_inv s"
    with f obtain t where "f s = Inr t" "handles_inv t" unfolding keeps_inv_def by blast
    with fs show "\<exists>s'. in_turn (f # fs) s = Inr s' \<and> handles_inv s'" unfolding keeps_inv_def by simp
  qed
qed (simp add: keeps_inv_def)

lemma keeps_invD: "keeps_inv f \<Longrightarrow> handles_inv s \<Longrightarrow> \<exists>s'. f s = Inr s' \<and> handles_inv s'"
  by (simp add: keeps_inv_def)

lemma NewInstance_inv: "keeps_inv (h_NewInstance l)"
  unfolding h_NewInstance_def by (rule keeps_inv_in_turn) (simp add: keeps_inv_basic)

text \<open>What a pointer that is not that of an expired message leads to is live.\<close>

lemma usable:
  assumes "handles_inv s" and "held_block s h = Some b" and "\<not> expired s h"
  shows "live s (fst (hs_blocks s ! b))"
proof -
  note D = handles_invD [OF assms(1)]
  have held: "held s b" by (rule held_block_held [OF assms(2)])
  obtain p d where b: "hs_blocks s ! b = (p, d)" by fastforce
  have p: "p < hs_next s" using D(2) [OF D(1) [OF held]] b by simp
  show ?thesis
  proof (cases d)
    case True
    then have "frees s b p" using b D(1) [OF held] by (simp add: frees_def)
    then show ?thesis using D(9) [OF p] held p b by (auto simp: live_def)
  next
    case False
    then have "p \<in> set (outside s)" using assms b by (auto simp: expired_def outside_def)
    then show ?thesis using D(9) [OF p] p b by (auto simp: live_def)
  qed
qed

lemma use_ok: "handles_inv s \<Longrightarrow> \<not> expired s h \<Longrightarrow> use_shared h s = Inr s"
  using usable [of s h] by (auto simp: use_shared_def split: option.split)

lemma held_block_copy: "held_block (copy_shared k h s) (next_holder s) = held_block s h"
  by (simp add: held_block_def copy_shared_def hold_def next_holder_def)

lemma expired_copy: "expired (copy_shared k h s) (next_holder s) = expired s h"
  unfolding expired_def held_block_copy by (simp add: copy_shared_def split: option.split)

lemma held_block_later: "h < next_holder s \<Longrightarrow> held_block (copy_shared k l s) h = held_block s h"
  by (simp add: held_block_def copy_shared_def hold_def next_holder_def nth_append)

lemma expired_own: "\<not> expired (own_new k s) (next_holder s)"
  by (simp add: expired_def own_new_def make_shared_def held_block_def hold_def next_holder_def)

lemma expired_own_copy: "\<not> expired (copy_shared k l (own_new k' s)) (next_holder s)"
proof -
  have "next_holder s < next_holder (own_new k' s)" by (simp add: own_new_def make_shared_def hold_def next_holder_def)
  from held_block_later [OF this] expired_own [of k' s] show ?thesis
    unfolding expired_def by (simp add: copy_shared_def split: option.splits)
qed

lemma copy_used: "handles_inv s \<Longrightarrow> \<not> expired s h \<Longrightarrow> use_shared (next_holder s) (copy_shared k h s) = Inr (copy_shared k h s)"
  using use_ok [OF copy_inv [of s k h], of "next_holder s"] by (simp add: expired_copy)

lemma methods_inv:
  assumes inv: "handles_inv s" and "\<not> expired s h"
    and "f \<in> {use_shared, h_through_getter, h_with_result, h_Serialize, h_NewInstanceFromMessage}"
  shows "\<exists>s'. f h s = Inr s' \<and> handles_inv s'"
proof -
  note used = copy_used [OF assms(1,2)] and copied = copy_inv [OF inv, of Local h]
  have getter: "\<exists>s'. h_through_getter h s = Inr s' \<and> handles_inv s'"
    using keeps_invD [OF keeps_inv_in_turn, of "[drop_shared (next_holder s)]" "copy_shared Local h s"] copied
    by (simp add: h_through_getter_def Let_def used keeps_inv_basic)
  then have "\<exists>s'. h_Serialize h s = Inr s' \<and> handles_inv s'"
    by (auto simp: h_Serialize_def own_new_inv)
  moreover have "\<exists>s'. h_with_result h s = Inr s' \<and> handles_inv s'"
    using keeps_invD [OF drop_inv own_new_inv [OF inv, of Local], of "next_holder s"]
    by (auto simp: h_with_result_def Let_def use_ok [OF assms(1,2)] use_ok [OF own_new_inv [OF inv] expired_own])
  moreover have "\<exists>s'. h_NewInstanceFromMessage h s = Inr s' \<and> handles_inv s'"
    using keeps_invD [OF keeps_inv_in_turn copied, of "[Inr \<circ> own_new Local, h_NewInstance (Suc (next_holder s)), drop_shared (next_holder s)]"]
    by (simp add: h_NewInstanceFromMessage_def Let_def used keeps_inv_basic NewInstance_inv)
  ultimately show ?thesis using assms(3) getter use_ok [OF assms(1,2)] inv by auto
qed

lemma constructors_inv:
  assumes inv: "handles_inv s"
  shows "\<exists>s'. h_Earliest s = Inr s' \<and> handles_inv s'" and "\<exists>s'. h_Latest s = Inr s' \<and> handles_inv s'"
    and "\<exists>s'. h_Deserialize s = Inr s' \<and> handles_inv s'"
    and "p \<in> set (hs_raw s) \<Longrightarrow> \<exists>s'. h_receive_resolver p s = Inr s' \<and> handles_inv s'"
proof -
  note new = keeps_invD [OF NewInstance_inv]
  have "0 < hs_next s" "1 < hs_next s" using handles_invD(6) [OF inv] by (simp_all add: outside_def)
  then show "\<exists>s'. h_Earliest s = Inr s' \<and> handles_inv s'" "\<exists>s'. h_Latest s = Inr s' \<and> handles_inv s'"
    unfolding h_Earliest_def h_Latest_def by (blast intro: new borrow_inv inv)+
  show "\<exists>s'. h_Deserialize s = Inr s' \<and> handles_inv s'"
    unfolding h_Deserialize_def by (rule new [OF own_new_inv [OF inv]])
  show "\<exists>s'. h_receive_resolver p s = Inr s' \<and> handles_inv s'" if "p \<in> set (hs_raw s)"
    unfolding h_receive_resolver_def by (rule new [OF own_raw_inv [OF inv that]])
qed

lemma sending_inv:
  assumes inv: "handles_inv s"
  shows "\<exists>s'. h_Send built s = Inr s' \<and> handles_inv s'" and "\<exists>s'. h_send_callback c ok s = Inr s' \<and> handles_inv s'"
    and "\<exists>s'. h_send_resolver k s = Inr s' \<and> handles_inv s'"
proof -
  show "\<exists>s'. h_Send built s = Inr s' \<and> handles_inv s'"
    using keeps_invD [OF drop_inv copy_inv [OF own_new_inv [OF inv, of Local], of Send_Context "next_holder s"], of "next_holder s"]
      keeps_invD [OF drop_inv own_new_inv [OF inv, of Local], of "next_holder s"]
    by (auto simp: h_Send_def Let_def use_ok [OF copy_inv [OF own_new_inv [OF inv]] expired_own_copy])
  show "\<exists>s'. h_send_callback c ok s = Inr s' \<and> handles_inv s'" "\<exists>s'. h_send_resolver k s = Inr s' \<and> handles_inv s'"
    unfolding h_send_callback_def h_send_resolver_def Let_def
    by (intro keeps_invD [OF keeps_inv_in_turn] inv; simp add: keeps_inv_basic NewInstance_inv)+
qed

lemma receiving_inv:
  assumes inv: "handles_inv s"
  shows "\<exists>s'. h_worker_OnOK w s = Inr s' \<and> handles_inv s'" and "\<exists>s'. h_MessageListener acquired s = Inr s' \<and> handles_inv s'"
    and "\<exists>s'. h_MessageListenerProxy d s = Inr s' \<and> handles_inv s'" and "\<exists>s'. h_listener_end l s = Inr s' \<and> handles_inv s'"
    and "handles_inv (h_worker_Execute ok s)"
proof -
  show "\<exists>s'. h_worker_OnOK w s = Inr s' \<and> handles_inv s'" "\<exists>s'. h_MessageListener acquired s = Inr s' \<and> handles_inv s'"
    "\<exists>s'. h_MessageListenerProxy d s = Inr s' \<and> handles_inv s'" "\<exists>s'. h_listener_end l s = Inr s' \<and> handles_inv s'"
    unfolding h_worker_OnOK_def h_MessageListener_def h_MessageListenerProxy_def h_listener_end_def Let_def
    by (intro keeps_invD [OF keeps_inv_in_turn] inv; simp add: keeps_inv_basic NewInstance_inv)+
  show "handles_inv (h_worker_Execute ok s)" using own_new_inv [OF inv] hold_none_inv [OF inv] by (simp add: h_worker_Execute_def)
qed


text \<open>Structures that come from the C client and go back to it.\<close>

lemma remove1_outside:
  assumes "handles_inv s"
  shows "p \<in> set (hs_raw s) \<Longrightarrow> distinct (outside (take_raw p s)) \<and> set (outside (take_raw p s)) = set (outside s) - {p}"
    and "p \<in> set (hs_lent s) \<Longrightarrow> distinct (outside (s\<lparr>hs_lent := remove1 p (hs_lent s)\<rparr>)) \<and>
      set (outside (s\<lparr>hs_lent := remove1 p (hs_lent s)\<rparr>)) = set (outside s) - {p}"
  using handles_invD(5) [OF assms] by (auto simp: outside_def take_raw_def)

lemma outside_freed_inv:
  assumes inv: "handles_inv s" and p: "p \<in> set (outside s)"
    and t: "distinct (outside t)" "set (outside t) = set (outside s) - {p}" "hs_next t = hs_next s" "hs_blocks t = hs_blocks s"
      "hs_holders t = hs_holders s" "hs_freed t = hs_freed s @ [p]"
  shows "handles_inv t"
proof (rule handles_invI)
  note D = handles_invD [OF inv]
  have same: "frees t = frees s" "held t = held s" using t by (simp_all add: frees_def held_def fun_eq_iff)
  have fresh: "p \<notin> set (hs_freed s)" "p < hs_next s" "\<And>b. \<not> frees s b p" using D(9) [of p] D(6) [OF p] D(4) p by auto
  fix q assume "q < hs_next t"
  then show "q \<in> set (hs_freed t) \<longleftrightarrow> q \<notin> set (outside t) \<and> (\<forall>b. frees t b q \<longrightarrow> \<not> held t b)"
    using D(9) [of q] fresh t same by (cases "q = p") auto
qed (use handles_invD [OF inv] handles_invD(9) [OF inv, of p] p t in \<open>auto simp: frees_def held_def\<close>)

lemma outside_new_inv:
  assumes inv: "handles_inv s"
    and t: "distinct (outside t)" "set (outside t) = insert (hs_next s) (set (outside s))" "hs_next t = Suc (hs_next s)"
      "hs_blocks t = hs_blocks s" "hs_holders t = hs_holders s" "hs_freed t = hs_freed s"
  shows "handles_inv t"
proof (rule handles_invI)
  note D = handles_invD [OF inv]
  have same: "frees t = frees s" "held t = held s" using t by (simp_all add: frees_def held_def fun_eq_iff)
  show "distinct (outside t)" "distinct (hs_freed t)" using t D(7) by simp_all
  show "q < hs_next t" if "q \<in> set (hs_freed t)" for q using that D(8) [of q] t by simp
  show "q < hs_next t" if "q \<in> set (outside t)" for q using that D(6) [of q] t by auto
  show "b < length (hs_blocks t)" if "held t b" for b using that D(1) [of b] t same by simp
  show "fst (hs_blocks t ! b) < hs_next t" if "b < length (hs_blocks t)" for b using that D(2) [of b] t by simp
  show "b = c" if "frees t b q" "frees t c q" for b c q using that D(3) same by simp
  show "q \<notin> set (outside t)" if "frees t b q" for b q using that D(4) [of b q] frees_bound [OF inv, of b q] t same by auto
  fix q assume "q < hs_next t"
  then show "q \<in> set (hs_freed t) \<longleftrightarrow> q \<notin> set (outside t) \<and> (\<forall>b. frees t b q \<longrightarrow> \<not> held t b)"
    using D(8) [of q] D(9) [of q] t same by (cases "q = hs_next s") auto
qed

lemma outside_fresh: "handles_inv s \<Longrightarrow> distinct (hs_next s # outside s)"
  using handles_invD(5,6) [of s] by auto

lemma received_inv: "handles_inv s \<Longrightarrow> handles_inv (h_receive_callback s)"
  by (rule outside_new_inv, assumption) (auto simp: h_receive_callback_def outside_def dest!: outside_fresh)

lemma routing_inv:
  assumes inv: "handles_inv s"
  shows "\<exists>s'. h_choosePartition s = Inr s' \<and> handles_inv s'"
    and "p \<in> set (hs_lent s) \<Longrightarrow> \<exists>s'. h_router_returned p s = Inr s' \<and> handles_inv s'"
proof -
  have "handles_inv (s\<lparr>hs_next := Suc (hs_next s), hs_lent := hs_lent s @ [hs_next s]\<rparr>)"
    using outside_fresh [OF inv] by (intro outside_new_inv [OF inv]) (auto simp: outside_def)
  then show "\<exists>s'. h_choosePartition s = Inr s' \<and> handles_inv s'"
    unfolding h_choosePartition_def Let_def by (intro keeps_invD [OF NewInstance_inv] borrow_inv) simp_all
  assume p: "p \<in> set (hs_lent s)"
  then have "p \<in> set (outside s)" by (simp add: outside_def)
  moreover from this have "p < hs_next s" "p \<notin> set (hs_freed s)" using handles_invD(6,9) [OF inv, of p] by auto
  ultimately show "\<exists>s'. h_router_returned p s = Inr s' \<and> handles_inv s'"
    using remove1_outside(2) [OF inv p] outside_freed_inv [OF inv, of p "s\<lparr>hs_lent := remove1 p (hs_lent s), hs_freed := hs_freed s @ [p]\<rparr>"]
    by (auto simp: h_router_returned_def free_pointer_def live_def outside_def)
qed

lemma raw_kept: "h_NewInstance l s = Inr s' \<Longrightarrow> hs_raw s' = hs_raw s"
  by (auto simp: h_NewInstance_def copy_shared_def drop_shared_def free_pointer_def Let_def split: option.splits if_splits)

lemma raw_live: "handles_inv s \<Longrightarrow> p \<in> set (hs_raw s) \<Longrightarrow> live s p"
  using handles_invD(6,9) [of s p] by (auto simp: live_def outside_def)

lemma batch_loop_inv:
  "handles_inv s \<Longrightarrow> p \<in> set (hs_raw s) \<Longrightarrow> \<exists>s'. h_batch_loop p n s = Inr s' \<and> handles_inv s' \<and> hs_raw s' = hs_raw s"
proof (induction n arbitrary: s)
  case (Suc n)
  obtain t where t: "h_NewInstance (next_holder s) (own_new Local s) = Inr t" "handles_inv t"
    using keeps_invD [OF NewInstance_inv own_new_inv [OF Suc.prems(1)]] by blast
  then have "hs_raw t = hs_raw s" using raw_kept by (fastforce simp: own_new_def make_shared_def)
  with Suc.IH [OF t(2)] Suc.prems t(1) raw_live show ?case by auto
qed simp

lemma batch_inv:
  assumes inv: "handles_inv s" and p: "p \<in> set (hs_raw s)"
  shows "\<exists>s'. h_batch_resolver p n s = Inr s' \<and> handles_inv s'"
proof -
  obtain t where t: "h_batch_loop p n s = Inr t" "handles_inv t" "p \<in> set (hs_raw t)"
    using batch_loop_inv [OF inv p] p by force
  then have "p \<in> set (outside t)" by (simp add: outside_def)
  with t remove1_outside(1) [OF t(2,3)] have "handles_inv (take_raw p (t\<lparr>hs_freed := hs_freed t @ [p]\<rparr>))"
    by (intro outside_freed_inv [OF t(2), of p]) (auto simp: take_raw_def outside_def)
  with t raw_live [OF t(2,3)] show ?thesis by (simp add: h_batch_resolver_def free_pointer_def)
qed

lemma handle_step_safe:
  assumes "handle_step False s r" and "handles_inv s"
  shows "\<exists>s'. r = Inr s' \<and> handles_inv s'"
  using assms(1)
proof cases
  case (on_object f h)
  with methods_inv [OF assms(2), of h f] show ?thesis by simp
next
  case (destroy h)
  with keeps_invD [OF drop_inv assms(2)] show ?thesis by simp
qed (use constructors_inv [OF assms(2)] sending_inv [OF assms(2)] receiving_inv [OF assms(2)] routing_inv [OF assms(2)]
    batch_inv [OF assms(2)] copy_inv [OF assms(2)] received_inv [OF assms(2)] in auto)

lemma handle_reachable_inv: "handle_reachable False s \<Longrightarrow> handles_inv s"
proof (induction rule: handle_reachable.induct)
  case start
  show ?case by (rule handles_inv_start)
next
  case (step s s')
  then show ?case using handle_step_safe by blast
qed


subsection \<open>Properties\<close>

lemma live_iff:
  "handles_inv s \<Longrightarrow> live s p \<longleftrightarrow> p \<in> set (outside s) \<or> (\<exists>b. frees s b p \<and> held s b)"
  using handles_invD(6,9) [of s p] frees_bound [of s _ p] by (auto simp: live_def)

definition all_dropped :: "handles \<Rightarrow> bool" where
  "all_dropped s \<longleftrightarrow> list_all (\<lambda>x. snd x = None) (hs_holders s) \<and> hs_raw s = [] \<and> hs_lent s = []"

lemma all_dropped_freed:
  assumes "handles_inv s" and "all_dropped s"
  shows "set (hs_freed s) = {2..<hs_next s}"
proof -
  have "\<not> held s b" for b using assms(2) by (auto simp: all_dropped_def held_def list_all_iff)
  moreover have "set (outside s) = {0, 1}" using assms(2) by (simp add: all_dropped_def outside_def)
  ultimately show ?thesis using handles_invD(8,9) [OF assms(1)] by (fastforce simp: set_eq_iff)
qed



end
