(* ===== verification/Message_Id.thy ===== *)
theory Message_Id
  imports Js_Value
begin

section \<open>Message ids\<close>

text \<open>
  \<open>src/MessageId.cc\<close>: objects that wrap a message id of the C client. The C client's
  functions on ids are a parameter, the record below; an id is a handle. An object made by
  \<open>new\<close> from JavaScript holds a null pointer, which the C client's functions dereference.
\<close>

record id_library =
  lib_earliest :: ptr
  lib_latest :: ptr
  lib_serialize :: "ptr \<Rightarrow> bytes"
  lib_deserialize :: "bytes \<Rightarrow> ptr"
  lib_str :: "ptr \<Rightarrow> string"

text \<open>The constructor, and the two forms of \<open>NewInstance\<close>.\<close>

definition MessageId :: js_value where
  "MessageId = JNative (N_MessageId None) []"

definition MessageId_NewInstance :: "ptr \<Rightarrow> js_value" where
  "MessageId_NewInstance cMessageId = JNative (N_MessageId (Some cMessageId)) []"

definition Earliest :: "id_library \<Rightarrow> js_value" where
  "Earliest lib = MessageId_NewInstance (lib_earliest lib)"

definition Latest :: "id_library \<Rightarrow> js_value" where
  "Latest lib = MessageId_NewInstance (lib_latest lib)"

definition on_id :: "napi \<Rightarrow> (ptr \<Rightarrow> js_value) \<Rightarrow> js_value \<Rightarrow> exn + js_value" where
  "on_id N f this = (case MessageId_Unwrap N this of
       Inl e \<Rightarrow> Inl e
     | Inr None \<Rightarrow> Inl (UndefinedBehaviour ''null message id'')
     | Inr (Some p) \<Rightarrow> Inr (f p))"

definition Serialize :: "id_library \<Rightarrow> napi \<Rightarrow> js_value \<Rightarrow> exn + js_value" where
  "Serialize lib N = on_id N (\<lambda>p. JBuffer (lib_serialize lib p))"

definition Deserialize :: "id_library \<Rightarrow> js_value \<Rightarrow> exn + js_value" where
  "Deserialize lib v = (case v of
       JBuffer data \<Rightarrow> Inr (MessageId_NewInstance (lib_deserialize lib data))
     | _ \<Rightarrow> Inl (JsError ''Expected buffer as first argument''))"

definition MessageId_ToString :: "id_library \<Rightarrow> napi \<Rightarrow> js_value \<Rightarrow> exn + js_value" where
  "MessageId_ToString lib N = on_id N (\<lambda>p. JString (c_str (lib_str lib p)))"

lemma on_id_instance [simp]: "on_id N f (MessageId_NewInstance p) = Inr (f p)"
  by (simp add: on_id_def MessageId_NewInstance_def MessageId_Unwrap_def unwrap_as_def)

lemma Deserialize_Serialize:
  "Serialize lib N v = Inr b \<Longrightarrow>
     \<exists>p. MessageId_Unwrap N v = Inr (Some p) \<and> Deserialize lib b = Inr (MessageId_NewInstance (lib_deserialize lib (lib_serialize lib p)))"
  by (auto simp: Serialize_def on_id_def Deserialize_def split: sum.splits option.splits)

end
