(* ===== verification/Client_Config.thy ===== *)
theory Client_Config
  imports Config_Common
begin

section \<open>The client's configuration\<close>

text \<open>
  \<open>src/Client.h\<close>, \<open>src/Client.cc\<close>: the constructor of the client with the service URL or
  the failover provider, the authentication, the options of the C client's configuration and the
  process-wide log handler. As for the other configurations the C client's object is the log of the
  calls made on it. What the library prescribes stays a parameter: the defaults of the failover
  configuration and whether creating the client throws.
  The lemmas give the exact conditions under which a client is made and the message otherwise,
  what a failover provider consists of, and that log handlers are released once.
\<close>

subsection \<open>Services\<close>

text \<open>
  An authentication is a handle; \<open>None\<close> is \<open>AuthFactory::Disabled()\<close>.
\<close>

record service_info =
  service_url :: string
  service_auth :: "ptr option"
  service_tls :: "string option"

record failover_config =
  primary :: service_info
  secondary :: "service_info list"
  checkIntervalMs :: uint32
  failoverThreshold :: uint32
  switchBackThreshold :: uint32

text \<open>The defaults the library gives a failover configuration.\<close>

record failover_defaults =
  default_checkInterval :: int64
  default_failoverThreshold :: uint32
  default_switchBackThreshold :: uint32

definition IsPresent :: "js_value \<Rightarrow> bool" where
  "IsPresent v \<longleftrightarrow> \<not> IsUndefined v \<and> \<not> IsNull v"

text \<open>
  The second component is the list of references that keep the authentication objects alive;
  a reference is added before the object is unwrapped.
\<close>

definition BuildAuthenticationPtr :: "napi \<Rightarrow> js_value \<Rightarrow> js_value list \<Rightarrow> (exn + ptr) \<times> js_value list" where
  "BuildAuthenticationPtr N authObject authRefs = (case get_object authObject ''binding'' of
       None \<Rightarrow> (Inl (JsError ''Authentication must be a Pulsar authentication object''), authRefs)
     | Some binding \<Rightarrow>
         (case Authentication_Unwrap N binding of
            Inl e \<Rightarrow> (Inl e, authRefs @ [binding])
          | Inr None \<Rightarrow> (Inl (JsError ''Authentication must be a Pulsar authentication object''), authRefs @ [binding])
          | Inr (Some auth) \<Rightarrow> (Inr auth, authRefs @ [binding])))"

definition service_auth_of :: "napi \<Rightarrow> js_value \<Rightarrow> string \<Rightarrow> ptr option \<Rightarrow> js_value list \<Rightarrow>
    (exn + ptr option) \<times> js_value list" where
  "service_auth_of N serviceInfo fieldName defaultAuth authRefs =
     (if Has serviceInfo ''authentication'' \<and> IsPresent (Get serviceInfo ''authentication'') then
        (if \<not> IsObject (Get serviceInfo ''authentication'')
         then (Inl (JsError (fieldName @ ''.authentication must be a Pulsar authentication object'')), authRefs)
         else apfst (map_sum id Some) (BuildAuthenticationPtr N (Get serviceInfo ''authentication'') authRefs))
      else (Inr defaultAuth, authRefs))"

definition service_tls_of :: "js_value \<Rightarrow> string \<Rightarrow> string option \<Rightarrow> exn + string option" where
  "service_tls_of serviceInfo fieldName defaultTls =
     (if Has serviceInfo ''tlsTrustCertsFilePath'' \<and> IsPresent (Get serviceInfo ''tlsTrustCertsFilePath'') then
        (case Get serviceInfo ''tlsTrustCertsFilePath'' of
           JString p \<Rightarrow> Inr (Some p)
         | _ \<Rightarrow> Inl (JsError (fieldName @ ''.tlsTrustCertsFilePath must be a string'')))
      else Inr defaultTls)"

definition BuildServiceInfo :: "napi \<Rightarrow> js_value \<Rightarrow> string \<Rightarrow> ptr option \<Rightarrow> string option \<Rightarrow> js_value list \<Rightarrow>
    (exn + service_info) \<times> js_value list" where
  "BuildServiceInfo N value fieldName defaultAuth defaultTls authRefs =
     (case value of
        JString serviceUrl \<Rightarrow>
          (if serviceUrl = [] then (Inl (JsError (fieldName @ '' service URL must be a non-empty string'')), authRefs)
           else (Inr \<lparr>service_url = serviceUrl, service_auth = defaultAuth, service_tls = defaultTls\<rparr>, authRefs))
      | _ \<Rightarrow>
          (if \<not> IsObject value
           then (Inl (JsError (fieldName @ '' must be a service URL string or service info object'')), authRefs)
           else (case get_string value ''serviceUrl'' of
               None \<Rightarrow> (Inl (JsError (fieldName @ ''.serviceUrl is required and must be a non-empty string'')), authRefs)
             | Some serviceUrl \<Rightarrow>
                 (if serviceUrl = []
                  then (Inl (JsError (fieldName @ ''.serviceUrl is required and must be a non-empty string'')), authRefs)
                  else (case service_auth_of N value fieldName defaultAuth authRefs of
                      (Inl e, refs) \<Rightarrow> (Inl e, refs)
                    | (Inr authentication, refs) \<Rightarrow>
                        (case service_tls_of value fieldName defaultTls of
                           Inl e \<Rightarrow> (Inl e, refs)
                         | Inr tls \<Rightarrow> (Inr \<lparr>service_url = serviceUrl, service_auth = authentication, service_tls = tls\<rparr>, refs)))))))"

text \<open>The loop over the secondary services, from index \<open>i\<close>.\<close>

definition secondary_field :: "nat \<Rightarrow> string" where
  "secondary_field i = ''serviceUrlProvider.secondary['' @ show_nat i @ '']''"

fun build_secondary :: "napi \<Rightarrow> nat \<Rightarrow> js_value list \<Rightarrow> ptr option \<Rightarrow> string option \<Rightarrow> js_value list \<Rightarrow>
    (exn + service_info list) \<times> js_value list" where
  "build_secondary N i [] defaultAuth defaultTls authRefs = (Inr [], authRefs)"
| "build_secondary N i (v # vs) defaultAuth defaultTls authRefs =
     (case BuildServiceInfo N v (secondary_field i) defaultAuth defaultTls authRefs of
        (Inl e, refs) \<Rightarrow> (Inl e, refs)
      | (Inr s, refs) \<Rightarrow>
          (case build_secondary N (Suc i) vs defaultAuth defaultTls refs of
             (Inl e, refs') \<Rightarrow> (Inl e, refs')
           | (Inr ss, refs') \<Rightarrow> (Inr (s # ss), refs')))"

definition SetPositiveUint32 :: "napi \<Rightarrow> js_value \<Rightarrow> string \<Rightarrow> uint32 \<Rightarrow> exn + uint32" where
  "SetPositiveUint32 N config fieldName target =
     (if \<not> Has config fieldName \<or> \<not> IsPresent (Get config fieldName) then Inr target
      else (case Get config fieldName of
          JNumber n \<Rightarrow>
            (let value = Int64Value N n in
             if sint value \<le> 0 \<or> sint value > 4294967295
             then Inl (JsError (''serviceUrlProvider.'' @ fieldName @ '' must be a positive number''))
             else Inr (ucast value))
        | _ \<Rightarrow> Inl (JsError (''serviceUrlProvider.'' @ fieldName @ '' must be a positive number''))))"

text \<open>The three numbers, in the order in which they are read; the default interval is cast to 32 bits.\<close>

definition set_thresholds :: "napi \<Rightarrow> failover_defaults \<Rightarrow> js_value \<Rightarrow> service_info \<Rightarrow> service_info list \<Rightarrow>
    exn + failover_config" where
  "set_thresholds N D providerConfig p ss =
     (case SetPositiveUint32 N providerConfig ''checkIntervalMs'' (ucast (default_checkInterval D)) of
        Inl e \<Rightarrow> Inl e
      | Inr interval \<Rightarrow>
          (case SetPositiveUint32 N providerConfig ''failoverThreshold'' (default_failoverThreshold D) of
             Inl e \<Rightarrow> Inl e
           | Inr over \<Rightarrow>
               (case SetPositiveUint32 N providerConfig ''switchBackThreshold'' (default_switchBackThreshold D) of
                  Inl e \<Rightarrow> Inl e
                | Inr back \<Rightarrow> Inr \<lparr>primary = p, secondary = ss, checkIntervalMs = interval, failoverThreshold = over,
                    switchBackThreshold = back\<rparr>)))"

definition BuildServiceInfoProvider :: "napi \<Rightarrow> failover_defaults \<Rightarrow> js_value \<Rightarrow> ptr option \<Rightarrow> string option \<Rightarrow>
    js_value list \<Rightarrow> (exn + failover_config) \<times> js_value list" where
  "BuildServiceInfoProvider N D clientConfig defaultAuth defaultTls authRefs =
     (let providerConfig = Get clientConfig ''serviceUrlProvider'' in
      if \<not> IsObject providerConfig then (Inl (JsError ''serviceUrlProvider must be an object''), authRefs)
      else if \<not> Has providerConfig ''primary'' \<or> \<not> IsPresent (Get providerConfig ''primary'')
      then (Inl (JsError ''serviceUrlProvider.primary is required''), authRefs)
      else (case BuildServiceInfo N (Get providerConfig ''primary'') ''serviceUrlProvider.primary'' defaultAuth
            defaultTls authRefs of
          (Inl e, refs) \<Rightarrow> (Inl e, refs)
        | (Inr p, refs) \<Rightarrow>
            (case get_array providerConfig ''secondary'' of
               None \<Rightarrow> (Inl (JsError ''serviceUrlProvider.secondary is required and must be an array''), refs)
             | Some vs \<Rightarrow>
                 (if length vs = 0
                  then (Inl (JsError ''serviceUrlProvider.secondary must contain at least one service''), refs)
                  else (case build_secondary N 0 vs defaultAuth defaultTls refs of
                      (Inl e, refs') \<Rightarrow> (Inl e, refs')
                    | (Inr ss, refs') \<Rightarrow> (set_thresholds N D providerConfig p ss, refs'))))))"

subsection \<open>The log handler\<close>

text \<open>
  \<open>Client::logCallback\<close> is shared by all clients of the process: the function installed, if any,
  and the functions released so far.
\<close>

record log_state =
  log_handler :: "nat option"
  log_released :: "nat list"

definition release_handler :: "log_state \<Rightarrow> log_state" where
  "release_handler L = (case log_handler L of
       None \<Rightarrow> L
     | Some f \<Rightarrow> L\<lparr>log_released := log_released L @ [f], log_handler := None\<rparr>)"

definition install_handler :: "nat \<Rightarrow> log_state \<Rightarrow> log_state" where
  "install_handler f L = (release_handler L)\<lparr>log_handler := Some f\<rparr>"

definition SetLogHandler :: "js_value \<Rightarrow> log_state \<Rightarrow> log_state flow" where
  "SetLogHandler jsFunction L = (case jsFunction of
       JNull \<Rightarrow> Continue (release_handler L)
     | JFunction f \<Rightarrow> Continue (install_handler f L)
     | _ \<Rightarrow> Throw (JsError ''Client log handler must be a function or null'') L)"

text \<open>
  A message of the C client: dropped without a handler or when the handler's function is
  closing, else passed on; the result is the call made on the JavaScript thread.
\<close>

definition LogMessageProxy :: "nat \<Rightarrow> int32 \<Rightarrow> string \<Rightarrow> int32 \<Rightarrow> string \<Rightarrow> nat \<times> js_value list" where
  "LogMessageProxy f level file line message =
     (f, [Number_New (sint level), JString file, Number_New (sint line), JString message])"

definition LogMessage :: "bool \<Rightarrow> log_state \<Rightarrow> int32 \<Rightarrow> string \<Rightarrow> int32 \<Rightarrow> string \<Rightarrow> (nat \<times> js_value list) option" where
  "LogMessage acquired L level file line message = (case log_handler L of
       None \<Rightarrow> None
     | Some f \<Rightarrow> (if acquired then Some (LogMessageProxy f level file line message) else None))"

definition is_enabled :: "int32 \<Rightarrow> int32 \<Rightarrow> bool" where
  "is_enabled logLevel level \<longleftrightarrow> sint logLevel \<le> sint level"

subsection \<open>The constructor\<close>

datatype client_call =
    CSet_logger
  | CSet_auth ptr
  | CSet_operation_timeout_seconds int32
  | CSet_io_threads int32
  | CSet_connection_timeout int32
  | CSet_message_listener_threads int32
  | CSet_concurrent_lookup_request int32
  | CSet_tls_trust_certs_file_path string
  | CSet_tls_certificate_file_path string
  | CSet_tls_private_key_file_path string
  | CSet_validate_hostname bool
  | CSet_tls_allow_insecure_connection bool
  | CSet_stats_interval_in_seconds uint32
  | CSet_listener_name string

datatype service = Direct string | Failover failover_config

text \<open>
  The members of the client, the shared log handler, and the two local variables with the
  defaults for the services of a provider; \<open>cClient\<close> is what the client was created for.
\<close>

record client =
  cClientConfig :: "client_call list"
  logLevel :: int32
  authRefs :: "js_value list"
  log_shared :: log_state
  defaultAuthentication :: "ptr option"
  defaultTls :: "string option"
  cClient :: "service option"

type_synonym client_step = "client \<Rightarrow> client flow"

definition initial_client :: "log_state \<Rightarrow> client" where
  "initial_client L = \<lparr>cClientConfig = [], logLevel = 1, authRefs = [], log_shared = L,
     defaultAuthentication = None, defaultTls = None, cClient = None\<rparr>"

definition client_keys :: "string list" where
  "client_keys = [''serviceUrl'', ''serviceUrlProvider'', ''authentication'', ''operationTimeoutSeconds'', ''ioThreads'',
     ''messageListenerThreads'', ''concurrentLookupRequest'', ''tlsTrustCertsFilePath'', ''tlsValidateHostname'',
     ''tlsAllowInsecureConnection'', ''tlsCertificateFilePath'', ''tlsPrivateKeyFilePath'', ''statsIntervalInSeconds'',
     ''log'', ''logLevel'', ''listenerName'', ''connectionTimeoutMs'']"

definition cemit :: "client_call list \<Rightarrow> client_step" where
  "cemit xs c = Continue (c\<lparr>cClientConfig := cClientConfig c @ xs\<rparr>)"

definition hasField :: "js_value \<Rightarrow> string \<Rightarrow> bool" where
  "hasField cfg k \<longleftrightarrow> Has cfg k \<and> IsPresent (Get cfg k)"

definition client_check_url :: "js_value \<Rightarrow> client_step" where [steps_def]:
  "client_check_url cfg c =
     (if hasField cfg ''serviceUrlProvider'' \<and> hasField cfg ''serviceUrl''
      then Throw (JsError ''Only one of serviceUrl or serviceUrlProvider can be configured'') c
      else if \<not> hasField cfg ''serviceUrlProvider'' \<and> \<not> hasField cfg ''serviceUrl''
      then Throw (JsError ''Service URL is required and must be specified as a string unless serviceUrlProvider is configured'') c
      else if hasField cfg ''serviceUrl'' \<and>
        (\<not> IsString (Get cfg ''serviceUrl'') \<or> get_string cfg ''serviceUrl'' = Some '''')
      then Throw (JsError ''Service URL is required and must be specified as a string'') c
      else Continue c)"

definition client_log_level :: "js_value \<Rightarrow> client_step" where [steps_def]:
  "client_log_level cfg c = (case get_number cfg ''logLevel'' of
       None \<Rightarrow> cemit [CSet_logger] c
     | Some n \<Rightarrow> cemit [CSet_logger] (c\<lparr>logLevel := Int32Value n\<rparr>))"

definition client_log :: "js_value \<Rightarrow> client_step" where [steps_def]:
  "client_log cfg c = Continue (case get_function cfg ''log'' of
       None \<Rightarrow> c
     | Some f \<Rightarrow> c\<lparr>log_shared := install_handler f (log_shared c)\<rparr>)"

definition client_auth :: "napi \<Rightarrow> js_value \<Rightarrow> client_step" where [steps_def]:
  "client_auth N cfg c = (case get_object cfg ''authentication'' of
       None \<Rightarrow> Continue c
     | Some obj \<Rightarrow>
         (if Has obj ''binding'' \<and> IsObject (Get obj ''binding'') then
            (case BuildAuthenticationPtr N obj (authRefs c) of
               (Inl e, refs) \<Rightarrow> Throw e (c\<lparr>authRefs := refs\<rparr>)
             | (Inr auth, refs) \<Rightarrow> cemit [CSet_auth auth] (c\<lparr>authRefs := refs, defaultAuthentication := Some auth\<rparr>))
          else Continue c))"

definition client_op_timeout :: "js_value \<Rightarrow> client_step" where [steps_def]:
  "client_op_timeout cfg =
     cemit (positive32_calls CSet_operation_timeout_seconds (get_number cfg ''operationTimeoutSeconds''))"

definition client_io_threads :: "js_value \<Rightarrow> client_step" where [steps_def]:
  "client_io_threads cfg = cemit (positive32_calls CSet_io_threads (get_number cfg ''ioThreads''))"

definition client_connection_timeout :: "js_value \<Rightarrow> client_step" where [steps_def]:
  "client_connection_timeout cfg =
     cemit (positive32_calls CSet_connection_timeout (get_number cfg ''connectionTimeoutMs''))"

definition client_listener_threads :: "js_value \<Rightarrow> client_step" where [steps_def]:
  "client_listener_threads cfg =
     cemit (positive32_calls CSet_message_listener_threads (get_number cfg ''messageListenerThreads''))"

definition client_lookups :: "js_value \<Rightarrow> client_step" where [steps_def]:
  "client_lookups cfg =
     cemit (positive32_calls CSet_concurrent_lookup_request (get_number cfg ''concurrentLookupRequest''))"

definition client_tls_trust :: "js_value \<Rightarrow> client_step" where [steps_def]:
  "client_tls_trust cfg c = (case get_string cfg ''tlsTrustCertsFilePath'' of
       None \<Rightarrow> Continue c
     | Some p \<Rightarrow> cemit [CSet_tls_trust_certs_file_path (c_str p)] (c\<lparr>defaultTls := Some p\<rparr>))"

text \<open>An optional string passed on as a C string, also when empty.\<close>

definition cstring_calls :: "(string \<Rightarrow> client_call) \<Rightarrow> string option \<Rightarrow> client_call list" where
  "cstring_calls setter x = (case x of None \<Rightarrow> [] | Some s \<Rightarrow> [setter (c_str s)])"

definition client_tls_cert :: "js_value \<Rightarrow> client_step" where [steps_def]:
  "client_tls_cert cfg =
     cemit (cstring_calls CSet_tls_certificate_file_path (get_string cfg ''tlsCertificateFilePath''))"

definition client_tls_key :: "js_value \<Rightarrow> client_step" where [steps_def]:
  "client_tls_key cfg =
     cemit (cstring_calls CSet_tls_private_key_file_path (get_string cfg ''tlsPrivateKeyFilePath''))"

definition client_validate_hostname :: "js_value \<Rightarrow> client_step" where [steps_def]:
  "client_validate_hostname cfg = cemit (boolean_calls CSet_validate_hostname (get_boolean cfg ''tlsValidateHostname''))"

definition client_allow_insecure :: "js_value \<Rightarrow> client_step" where [steps_def]:
  "client_allow_insecure cfg =
     cemit (boolean_calls CSet_tls_allow_insecure_connection (get_boolean cfg ''tlsAllowInsecureConnection''))"

definition client_stats :: "js_value \<Rightarrow> client_step" where [steps_def]:
  "client_stats cfg = cemit (case get_number cfg ''statsIntervalInSeconds'' of
       None \<Rightarrow> []
     | Some n \<Rightarrow> [CSet_stats_interval_in_seconds (Uint32Value n)])"

definition client_listener_name :: "js_value \<Rightarrow> client_step" where [steps_def]:
  "client_listener_name cfg = cemit (cstring_calls CSet_listener_name (get_string cfg ''listenerName''))"

text \<open>
  The last block is in a \<open>try\<close>: an exception of the library becomes a JavaScript error with its
  message. \<open>create\<close> is the library's creation of a client: the message of the exception, if any.
\<close>

definition caught :: "exn \<Rightarrow> exn" where
  "caught e = (case e of JsTypeError m \<Rightarrow> JsError m | _ \<Rightarrow> e)"

definition create_client :: "(service \<Rightarrow> client_call list \<Rightarrow> string option) \<Rightarrow> service \<Rightarrow> client_step" where
  "create_client create s c = (case create s (cClientConfig c) of
       Some what \<Rightarrow> Throw (JsError what) c
     | None \<Rightarrow> Continue (c\<lparr>cClient := Some s\<rparr>))"

definition client_create ::
  "napi \<Rightarrow> failover_defaults \<Rightarrow> (service \<Rightarrow> client_call list \<Rightarrow> string option) \<Rightarrow> js_value \<Rightarrow> client_step" where [steps_def]:
  "client_create N D create cfg c =
     (if hasField cfg ''serviceUrlProvider'' then
        (case BuildServiceInfoProvider N D cfg (defaultAuthentication c) (defaultTls c) (authRefs c) of
           (Inl e, refs) \<Rightarrow> Throw (caught e) (c\<lparr>authRefs := refs\<rparr>)
         | (Inr f, refs) \<Rightarrow> create_client create (Failover f) (c\<lparr>authRefs := refs\<rparr>))
      else create_client create (Direct (c_str (ToString N (Get cfg ''serviceUrl'')))) c)"

definition client_steps ::
  "napi \<Rightarrow> failover_defaults \<Rightarrow> (service \<Rightarrow> client_call list \<Rightarrow> string option) \<Rightarrow> js_value \<Rightarrow> client_step list" where
  "client_steps N D create cfg =
     [client_check_url cfg, client_log_level cfg, client_log cfg, client_auth N cfg, client_op_timeout cfg,
      client_io_threads cfg, client_connection_timeout cfg, client_listener_threads cfg, client_lookups cfg,
      client_tls_trust cfg, client_tls_cert cfg, client_tls_key cfg, client_validate_hostname cfg,
      client_allow_insecure cfg, client_stats cfg, client_listener_name cfg, client_create N D create cfg]"

definition Client ::
  "napi \<Rightarrow> failover_defaults \<Rightarrow> (service \<Rightarrow> client_call list \<Rightarrow> string option) \<Rightarrow> js_value \<Rightarrow> log_state \<Rightarrow> client flow" where
  "Client N D create cfg L = run_steps (client_steps N D create cfg) (initial_client L)"

subsection \<open>Lemmas on services\<close>

text \<open>
  What is built for a service does not depend on the references collected so far; neither do the
  references added depend on them.
\<close>

definition service_of :: "napi \<Rightarrow> ptr option \<Rightarrow> string option \<Rightarrow> string \<Rightarrow> js_value \<Rightarrow> exn + service_info" where
  "service_of N d t fieldName v = fst (BuildServiceInfo N v fieldName d t [])"

lemma fst_BuildAuthenticationPtr: "fst (BuildAuthenticationPtr N v refs) = fst (BuildAuthenticationPtr N v [])"
  by (simp add: BuildAuthenticationPtr_def split: option.split sum.split)

lemma fst_service_auth_of:
  "fst (service_auth_of N v field d refs) = fst (service_auth_of N v field d [])"
  by (simp add: service_auth_of_def apfst_def map_prod_def split_beta fst_BuildAuthenticationPtr [of N _ refs])

lemma fst_BuildServiceInfo: "fst (BuildServiceInfo N v field d t refs) = service_of N d t field v"
proof -
  obtain r r1 r2 where "service_auth_of N v field d refs = (r, r1)" "service_auth_of N v field d [] = (r, r2)"
    using fst_service_auth_of [of N v field d refs] by (metis prod.collapse)
  then show ?thesis
    by (cases v) (simp_all add: service_of_def BuildServiceInfo_def split: option.split sum.split)
qed

lemma service_of_url:
  assumes "service_of N d t field v = Inr s"
  shows "service_url s \<noteq> []"
  using assms
  by (auto simp: service_of_def BuildServiceInfo_def split: js_value.splits option.splits if_splits sum.splits prod.splits)

lemma build_secondary_spec:
  "(case fst (build_secondary N k vs d t refs) of
      Inr ss \<Rightarrow> length ss = length vs \<and> (\<forall>i < length vs. service_of N d t (secondary_field (k + i)) (vs ! i) = Inr (ss ! i))
    | Inl e \<Rightarrow> \<exists>i < length vs. service_of N d t (secondary_field (k + i)) (vs ! i) = Inl e \<and>
        (\<forall>j < i. \<exists>s. service_of N d t (secondary_field (k + j)) (vs ! j) = Inr s))"
proof (induction N k vs d t refs rule: build_secondary.induct)
  case (2 N k v vs d t refs)
  obtain r refs' where b: "BuildServiceInfo N v (secondary_field k) d t refs = (r, refs')" by (cases "BuildServiceInfo N v (secondary_field k) d t refs")
  with fst_BuildServiceInfo [of N v "secondary_field k" d t refs] have r: "service_of N d t (secondary_field k) v = r" by simp
  show ?case
  proof (cases r)
    case (Inl e)
    with b r show ?thesis by (auto intro!: exI [of _ 0])
  next
    case (Inr s)
    note IH = "2.IH" [OF b [symmetric] Inr]
    obtain r2 refs2 where b2: "build_secondary N (Suc k) vs d t refs' = (r2, refs2)"
      by (cases "build_secondary N (Suc k) vs d t refs'")
    show ?thesis
    proof (cases r2)
      case (Inl e)
      with IH b2 obtain i where "i < length vs" "service_of N d t (secondary_field (Suc k + i)) (vs ! i) = Inl e"
        "\<forall>j < i. \<exists>s. service_of N d t (secondary_field (Suc k + j)) (vs ! j) = Inr s" by auto
      with r Inr show ?thesis using b b2 Inl
        by simp (rule exI [of _ "Suc i"], simp add: All_less_Suc2)
    next
      case (Inr ss)
      with IH b2 have "length ss = length vs"
        "\<forall>i < length vs. service_of N d t (secondary_field (Suc k + i)) (vs ! i) = Inr (ss ! i)" by auto
      with r \<open>r = Inr s\<close> show ?thesis using b b2 Inr
        by (auto simp: All_less_Suc2)
    qed
  qed
qed simp

lemma uint_ucast_32:
  assumes "0 \<le> sint (v :: int64)" and "sint v \<le> 4294967295"
  shows "uint (ucast v :: uint32) = sint v"
proof -
  have "uint (word_of_int i :: int64) = i" if "0 \<le> i" "i < 2 ^ 63" for i
    using that by (simp add: uint_word_of_int)
  from this [of "sint v"] assms(1) sint_lt [of v] have "uint v = sint v" by simp
  with assms(2) show ?thesis using assms(1) by (simp add: unsigned_ucast_eq take_bit_eq_mod)
qed
lemma SetPositiveUint32_result:
  "(case SetPositiveUint32 N cfg f target of
      Inr v \<Rightarrow> (if hasField cfg f then \<exists>n. Get cfg f = JNumber n \<and> uint v = sint (Int64Value N n) \<and> 0 < uint v else v = target)
    | Inl e \<Rightarrow> e = JsError (''serviceUrlProvider.'' @ f @ '' must be a positive number'') \<and> hasField cfg f \<and>
        (\<forall>n. Get cfg f = JNumber n \<longrightarrow> \<not> (0 < sint (Int64Value N n) \<and> sint (Int64Value N n) < 2 ^ 32)))"
  by (auto simp: SetPositiveUint32_def hasField_def Let_def uint_ucast_32 split: js_value.split)

lemma SetPositiveUint32_positive:
  assumes "SetPositiveUint32 N cfg f target = Inr v" and "0 < target"
  shows "0 < v"
proof (cases "hasField cfg f")
  case True
  with SetPositiveUint32_result [where N=N and cfg=cfg and f=f and target=target] assms(1) have "0 < uint v" by auto
  then show ?thesis by (simp add: word_less_def)
next
  case False
  with SetPositiveUint32_result [where N=N and cfg=cfg and f=f and target=target] assms show ?thesis by auto
qed

definition failover_ok :: "failover_config \<Rightarrow> bool" where
  "failover_ok f \<longleftrightarrow> service_url (primary f) \<noteq> [] \<and> secondary f \<noteq> [] \<and>
     (\<forall>s \<in> set (secondary f). service_url s \<noteq> []) \<and>
     0 < checkIntervalMs f \<and> 0 < failoverThreshold f \<and> 0 < switchBackThreshold f"

definition defaults_ok :: "failover_defaults \<Rightarrow> bool" where
  "defaults_ok D \<longleftrightarrow> 0 < (ucast (default_checkInterval D) :: uint32) \<and> 0 < default_failoverThreshold D \<and>
     0 < default_switchBackThreshold D"

lemma set_thresholds_services:
  "set_thresholds N D cfg p ss = Inr f \<Longrightarrow> primary f = p \<and> secondary f = ss"
  by (auto simp: set_thresholds_def split: sum.splits)

lemma set_thresholds_positive:
  assumes "set_thresholds N D cfg p ss = Inr f" and "defaults_ok D"
  shows "0 < checkIntervalMs f \<and> 0 < failoverThreshold f \<and> 0 < switchBackThreshold f"
  using assms
  by (auto simp: set_thresholds_def defaults_ok_def split: sum.splits dest!: SetPositiveUint32_positive)

text \<open>What a provider that was built consists of.\<close>

lemma BuildServiceInfoProvider_services:
  assumes "fst (BuildServiceInfoProvider N D cfg d t refs) = Inr f"
  defines "P \<equiv> Get cfg ''serviceUrlProvider''"
  obtains vs where "get_array P ''secondary'' = Some vs" "vs \<noteq> []" "length (secondary f) = length vs"
    "service_of N d t ''serviceUrlProvider.primary'' (Get P ''primary'') = Inr (primary f)"
    "\<And>i. i < length vs \<Longrightarrow> service_of N d t (secondary_field i) (vs ! i) = Inr (secondary f ! i)"
    "set_thresholds N D P (primary f) (secondary f) = Inr f"
proof -
  obtain r1 refs1 where b1: "BuildServiceInfo N (Get P ''primary'') ''serviceUrlProvider.primary'' d t refs = (r1, refs1)"
    by (cases "BuildServiceInfo N (Get P ''primary'') ''serviceUrlProvider.primary'' d t refs")
  with assms(1) obtain p vs where p: "r1 = Inr p" and vs: "get_array P ''secondary'' = Some vs" "vs \<noteq> []"
    by (auto simp: BuildServiceInfoProvider_def P_def Let_def split: if_splits sum.splits option.splits)
  obtain r2 refs2 where b2: "build_secondary N 0 vs d t refs1 = (r2, refs2)" by (cases "build_secondary N 0 vs d t refs1")
  with assms(1) b1 p vs obtain ss where ss: "r2 = Inr ss" and f: "set_thresholds N D P p ss = Inr f"
    by (auto simp: BuildServiceInfoProvider_def P_def Let_def split: if_splits sum.splits)
  note pf = set_thresholds_services [OF f]
  have "service_of N d t ''serviceUrlProvider.primary'' (Get P ''primary'') = Inr p"
    using fst_BuildServiceInfo [of N "Get P ''primary''" "''serviceUrlProvider.primary''" d t refs] b1 p by simp
  moreover have "length ss = length vs" "\<forall>i < length vs. service_of N d t (secondary_field i) (vs ! i) = Inr (ss ! i)"
    using build_secondary_spec [where N=N and k=0 and vs=vs and d=d and t=t and refs=refs1] b2 ss by auto
  ultimately show ?thesis using that [of vs] vs f pf by simp
qed

lemma BuildServiceInfoProvider_ok:
  assumes "fst (BuildServiceInfoProvider N D cfg d t refs) = Inr f" and "defaults_ok D"
  shows "failover_ok f \<and> length (secondary f) = length (elements (Get (Get cfg ''serviceUrlProvider'') ''secondary''))"
proof -
  let ?P = "Get cfg ''serviceUrlProvider''"
  obtain vs where vs: "get_array ?P ''secondary'' = Some vs" "vs \<noteq> []" "length (secondary f) = length vs"
    and p: "service_of N d t ''serviceUrlProvider.primary'' (Get ?P ''primary'') = Inr (primary f)"
    and ss: "\<And>i. i < length vs \<Longrightarrow> service_of N d t (secondary_field i) (vs ! i) = Inr (secondary f ! i)"
    and f: "set_thresholds N D ?P (primary f) (secondary f) = Inr f"
    using BuildServiceInfoProvider_services [OF assms(1)] by metis
  have "\<forall>s \<in> set (secondary f). service_url s \<noteq> []" using ss vs(3) by (metis in_set_conv_nth service_of_url)
  moreover have "elements (Get ?P ''secondary'') = vs" using vs(1) by (auto simp: get_array_def split: if_splits)
  ultimately show ?thesis
    using vs(2,3) service_of_url [OF p] set_thresholds_positive [OF f assms(2)] by (auto simp: failover_ok_def)
qed

text \<open>What a service takes over from the client.\<close>

lemma service_of_object:
  assumes "service_of N d t field v = Inr s" and "\<not> IsString v"
  shows "fst (service_auth_of N v field d []) = Inr (service_auth s) \<and> service_tls_of v field t = Inr (service_tls s)"
proof -
  obtain a r where a: "service_auth_of N v field d [] = (a, r)" by (cases "service_auth_of N v field d []")
  have "IsObject v" using assms by (cases v) (simp_all add: service_of_def BuildServiceInfo_def is_defs)
  then have "service_of N d t field v = (case get_string v ''serviceUrl'' of
       None \<Rightarrow> Inl (JsError (field @ ''.serviceUrl is required and must be a non-empty string''))
     | Some url \<Rightarrow>
         (if url = [] then Inl (JsError (field @ ''.serviceUrl is required and must be a non-empty string''))
          else (case a of Inl e \<Rightarrow> Inl e | Inr auth \<Rightarrow> (case service_tls_of v field t of Inl e \<Rightarrow> Inl e
            | Inr tls \<Rightarrow> Inr \<lparr>service_url = url, service_auth = auth, service_tls = tls\<rparr>))))"
    using assms(2) a by (cases v) (simp_all add: service_of_def BuildServiceInfo_def is_defs split: option.split sum.split)
  with assms(1) a show ?thesis
    by (cases "get_string v ''serviceUrl''"; cases a; cases "service_tls_of v field t") (auto split: if_splits)
qed

lemma service_of_inherits:
  assumes "service_of N d t field v = Inr s"
  shows "\<not> hasField v ''authentication'' \<longrightarrow> service_auth s = d" and "\<not> hasField v ''tlsTrustCertsFilePath'' \<longrightarrow> service_tls s = t"
proof -
  have "(\<not> hasField v ''authentication'' \<longrightarrow> service_auth s = d) \<and> (\<not> hasField v ''tlsTrustCertsFilePath'' \<longrightarrow> service_tls s = t)"
  proof (cases "IsString v")
    case True
    with assms show ?thesis
      by (cases v) (auto simp: IsString_def service_of_def BuildServiceInfo_def split: if_splits)
  next
    case False
    from service_of_object [OF assms this] show ?thesis
      by (auto simp: service_auth_of_def service_tls_of_def hasField_def)
  qed
  then show "\<not> hasField v ''authentication'' \<longrightarrow> service_auth s = d" and "\<not> hasField v ''tlsTrustCertsFilePath'' \<longrightarrow> service_tls s = t"
    by blast+
qed

subsection \<open>Lemmas on the constructor\<close>

lemma cemit_simps [simp]: "cemit xs c = Continue (c\<lparr>cClientConfig := cClientConfig c @ xs\<rparr>)"
  by (simp add: cemit_def)

lemmas client_emit_defs = client_op_timeout_def client_io_threads_def client_connection_timeout_def
  client_listener_threads_def client_lookups_def client_tls_cert_def client_tls_key_def
  client_validate_hostname_def client_allow_insecure_def client_stats_def client_listener_name_def

fun client_call_ok :: "client_call \<Rightarrow> bool" where
  "client_call_ok (CSet_operation_timeout_seconds n) \<longleftrightarrow> 0 < sint n"
| "client_call_ok (CSet_io_threads n) \<longleftrightarrow> 0 < sint n"
| "client_call_ok (CSet_connection_timeout n) \<longleftrightarrow> 0 < sint n"
| "client_call_ok (CSet_message_listener_threads n) \<longleftrightarrow> 0 < sint n"
| "client_call_ok (CSet_concurrent_lookup_request n) \<longleftrightarrow> 0 < sint n"
| "client_call_ok (CSet_tls_trust_certs_file_path s) \<longleftrightarrow> CHR 0x00 \<notin> set s"
| "client_call_ok (CSet_tls_certificate_file_path s) \<longleftrightarrow> CHR 0x00 \<notin> set s"
| "client_call_ok (CSet_tls_private_key_file_path s) \<longleftrightarrow> CHR 0x00 \<notin> set s"
| "client_call_ok (CSet_listener_name s) \<longleftrightarrow> CHR 0x00 \<notin> set s"
| "client_call_ok _ \<longleftrightarrow> True"

lemma appends_cemit: "list_all ok xs \<Longrightarrow> appends cClientConfig ok (cemit xs)"
  by (rule appendsI) auto

lemma cstring_calls_ok: "(\<And>s. CHR 0x00 \<notin> set s \<Longrightarrow> ok (f s)) \<Longrightarrow> list_all ok (cstring_calls f x)"
  by (simp add: cstring_calls_def split: option.split)

lemma client_emits_ok:
  "list_all (appends cClientConfig client_call_ok)
     [client_op_timeout cfg, client_io_threads cfg, client_connection_timeout cfg, client_listener_threads cfg,
      client_lookups cfg, client_tls_cert cfg, client_tls_key cfg, client_validate_hostname cfg,
      client_allow_insecure cfg, client_stats cfg, client_listener_name cfg]"
  unfolding client_emit_defs list_all_iff list.set ball_simps
  by (intro conjI TrueI; rule appends_cemit; simp add: option_calls_ok cstring_calls_ok split: option.split)

lemma client_others_ok:
  "list_all (appends cClientConfig client_call_ok)
     [client_check_url cfg, client_log_level cfg, client_log cfg, client_auth N cfg, client_tls_trust cfg,
      client_create N D create cfg]"
  unfolding list_all_iff list.set ball_simps
  by (intro conjI TrueI; rule appends_oneI;
      simp add: client_check_url_def client_log_level_def client_log_def client_auth_def client_tls_trust_def
        client_create_def create_client_def split: option.split sum.split prod.split)

interpretation client: logged_pipeline "client_steps N D create cfg" cClientConfig client_call_ok for N D create cfg
  using client_emits_ok client_others_ok [of cfg N D create]
  by unfold_locales (auto simp: client_steps_def)

subsection \<open>What the constructor amounts to\<close>

text \<open>
  The specification of the constructor, without its state: the first complaint about the service
  URL, the authentication, then the service to connect to; and the calls made on the configuration.
\<close>

definition url_verdict :: "js_value \<Rightarrow> exn option" where
  "url_verdict cfg =
     (case (hasField cfg ''serviceUrlProvider'', hasField cfg ''serviceUrl'') of
        (True, True) \<Rightarrow> Some (JsError ''Only one of serviceUrl or serviceUrlProvider can be configured'')
      | (False, False) \<Rightarrow>
          Some (JsError ''Service URL is required and must be specified as a string unless serviceUrlProvider is configured'')
      | (True, False) \<Rightarrow> None
      | (False, True) \<Rightarrow> (case Get cfg ''serviceUrl'' of
            JString url \<Rightarrow> (if url = [] then Some (JsError ''Service URL is required and must be specified as a string'') else None)
          | _ \<Rightarrow> Some (JsError ''Service URL is required and must be specified as a string'')))"

definition auth_of :: "napi \<Rightarrow> js_value \<Rightarrow> exn + ptr option" where
  "auth_of N cfg = (case get_object cfg ''authentication'' of
       None \<Rightarrow> Inr None
     | Some obj \<Rightarrow> (case get_object obj ''binding'' of
         None \<Rightarrow> Inr None
       | Some binding \<Rightarrow> (case Authentication_Unwrap N binding of
           Inl e \<Rightarrow> Inl e
         | Inr None \<Rightarrow> Inl (JsError ''Authentication must be a Pulsar authentication object'')
         | Inr (Some auth) \<Rightarrow> Inr (Some auth))))"

definition provider_of :: "napi \<Rightarrow> failover_defaults \<Rightarrow> js_value \<Rightarrow> ptr option \<Rightarrow> exn + failover_config" where
  "provider_of N D cfg auth =
     fst (BuildServiceInfoProvider N D cfg auth (get_string cfg ''tlsTrustCertsFilePath'') [])"

definition target_of :: "napi \<Rightarrow> failover_defaults \<Rightarrow> js_value \<Rightarrow> exn + service" where
  "target_of N D cfg = (case url_verdict cfg of
       Some e \<Rightarrow> Inl e
     | None \<Rightarrow> (case auth_of N cfg of
         Inl e \<Rightarrow> Inl e
       | Inr auth \<Rightarrow>
           (if hasField cfg ''serviceUrlProvider'' then map_sum caught Failover (provider_of N D cfg auth)
            else (case Get cfg ''serviceUrl'' of JString url \<Rightarrow> Inr (Direct (c_str url)) | _ \<Rightarrow> Inl (JsError '''')))))"

definition client_calls :: "napi \<Rightarrow> js_value \<Rightarrow> client_call list" where
  "client_calls N cfg =
     [CSet_logger] @
     (case auth_of N cfg of Inr (Some auth) \<Rightarrow> [CSet_auth auth] | _ \<Rightarrow> []) @
     positive32_calls CSet_operation_timeout_seconds (get_number cfg ''operationTimeoutSeconds'') @
     positive32_calls CSet_io_threads (get_number cfg ''ioThreads'') @
     positive32_calls CSet_connection_timeout (get_number cfg ''connectionTimeoutMs'') @
     positive32_calls CSet_message_listener_threads (get_number cfg ''messageListenerThreads'') @
     positive32_calls CSet_concurrent_lookup_request (get_number cfg ''concurrentLookupRequest'') @
     cstring_calls CSet_tls_trust_certs_file_path (get_string cfg ''tlsTrustCertsFilePath'') @
     cstring_calls CSet_tls_certificate_file_path (get_string cfg ''tlsCertificateFilePath'') @
     cstring_calls CSet_tls_private_key_file_path (get_string cfg ''tlsPrivateKeyFilePath'') @
     boolean_calls CSet_validate_hostname (get_boolean cfg ''tlsValidateHostname'') @
     boolean_calls CSet_tls_allow_insecure_connection (get_boolean cfg ''tlsAllowInsecureConnection'') @
     (case get_number cfg ''statsIntervalInSeconds'' of
        None \<Rightarrow> [] | Some n \<Rightarrow> [CSet_stats_interval_in_seconds (Uint32Value n)]) @
     cstring_calls CSet_listener_name (get_string cfg ''listenerName'')"

text \<open>The blocks in terms of the specification.\<close>

lemma client_check_url_verdict:
  "client_check_url cfg c = (case url_verdict cfg of None \<Rightarrow> Continue c | Some e \<Rightarrow> Throw e c)"
proof (cases "hasField cfg ''serviceUrl''")
  case True
  then have "Has cfg ''serviceUrl''" by (simp add: hasField_def)
  with True show ?thesis
    by (cases "Get cfg ''serviceUrl''") (auto simp: client_check_url_def url_verdict_def get_string_def IsString_def)
qed (simp add: client_check_url_def url_verdict_def)

lemma client_auth_verdict:
  "(case auth_of N cfg of
      Inl e \<Rightarrow> \<exists>refs. client_auth N cfg c = Throw e (c\<lparr>authRefs := refs\<rparr>)
    | Inr None \<Rightarrow> client_auth N cfg c = Continue c
    | Inr (Some auth) \<Rightarrow> \<exists>refs. client_auth N cfg c =
        Continue (c\<lparr>authRefs := refs, defaultAuthentication := Some auth, cClientConfig := cClientConfig c @ [CSet_auth auth]\<rparr>))"
  by (cases "get_object cfg ''authentication''")
     (auto simp: auth_of_def client_auth_def BuildAuthenticationPtr_def get_object_def split: option.split sum.split)

lemma client_log_level_step:
  "client_log_level cfg c = Continue (c\<lparr>logLevel := (case get_number cfg ''logLevel'' of None \<Rightarrow> logLevel c | Some n \<Rightarrow> Int32Value n),
     cClientConfig := cClientConfig c @ [CSet_logger]\<rparr>)"
  by (simp add: client_log_level_def split: option.split)

lemma client_tls_trust_step:
  "client_tls_trust cfg c = Continue (c\<lparr>
     defaultTls := (case get_string cfg ''tlsTrustCertsFilePath'' of None \<Rightarrow> defaultTls c | Some p \<Rightarrow> Some p),
     cClientConfig := cClientConfig c @ cstring_calls CSet_tls_trust_certs_file_path (get_string cfg ''tlsTrustCertsFilePath'')\<rparr>)"
  by (simp add: client_tls_trust_def cstring_calls_def split: option.split)

text \<open>What the provider is made from does not depend on the references either.\<close>

lemma fst_build_secondary:
  "fst (build_secondary N k vs d t refs) = fst (build_secondary N k vs d t refs')"
proof (induction vs arbitrary: k refs refs')
  case (Cons v vs)
  obtain r r1 r2 where b: "BuildServiceInfo N v (secondary_field k) d t refs = (r, r1)"
    "BuildServiceInfo N v (secondary_field k) d t refs' = (r, r2)"
    using fst_BuildServiceInfo [of N v "secondary_field k" d t refs] fst_BuildServiceInfo [of N v "secondary_field k" d t refs']
    by (metis prod.collapse)
  show ?case
  proof (cases r)
    case (Inr s)
    obtain q q1 q2 where "build_secondary N (Suc k) vs d t r1 = (q, q1)" "build_secondary N (Suc k) vs d t r2 = (q, q2)"
      using Cons.IH [of "Suc k" r1 r2] by (metis prod.collapse)
    with b Inr show ?thesis by (cases q) simp_all
  qed (use b in simp)
qed simp

lemma fst_BuildServiceInfoProvider:
  "fst (BuildServiceInfoProvider N D cfg d t refs) = fst (BuildServiceInfoProvider N D cfg d t refs')"
proof -
  let ?B = "BuildServiceInfo N (Get (Get cfg ''serviceUrlProvider'') ''primary'') ''serviceUrlProvider.primary'' d t"
  obtain r r1 r2 where b: "?B refs = (r, r1)" "?B refs' = (r, r2)"
    by (metis fst_BuildServiceInfo prod.collapse)
  have "fst (build_secondary N 0 vs d t r1) = fst (build_secondary N 0 vs d t r2)" for vs by (rule fst_build_secondary)
  with b show ?thesis
    by (simp add: BuildServiceInfoProvider_def Let_def split_beta split: sum.split option.split)
qed

lemmas client_front = client_check_url_verdict client_log_level_step client_log_def client_tls_trust_step
  client_emit_defs

lemma Client_throws_url:
  "url_verdict cfg = Some e \<Longrightarrow> Client N D create cfg L = Throw e (initial_client L)"
  by (simp add: Client_def client_steps_def client_check_url_verdict)

text \<open>The state when the \<open>try\<close> block begins.\<close>

lemma client_before_create:
  assumes "url_verdict cfg = None" and "auth_of N cfg = Inr auth"
  obtains c where "run_steps (butlast (client_steps N D create cfg)) (initial_client L) = Continue c"
    "cClientConfig c = client_calls N cfg" "cClient c = None" "defaultAuthentication c = auth"
    "defaultTls c = get_string cfg ''tlsTrustCertsFilePath''"
proof -
  show ?thesis
  proof (cases auth)
    case None
    with assms client_auth_verdict [of N cfg] have "client_auth N cfg c = Continue c" for c by simp
    with assms None show ?thesis
      by (intro that) (auto simp: client_steps_def client_front client_calls_def initial_client_def split: option.split)
  next
    case (Some a)
    with assms client_auth_verdict [of N cfg]
    have "\<exists>refs. client_auth N cfg c = Continue (c\<lparr>authRefs := refs, defaultAuthentication := Some a,
        cClientConfig := cClientConfig c @ [CSet_auth a]\<rparr>)" for c by simp
    then obtain refs where "\<And>c. client_auth N cfg c = Continue (c\<lparr>authRefs := refs c, defaultAuthentication := Some a,
        cClientConfig := cClientConfig c @ [CSet_auth a]\<rparr>)" by metis
    with assms Some show ?thesis
      by (intro that) (auto simp: client_steps_def client_front client_calls_def initial_client_def split: option.split)
  qed
qed

lemma client_create_target:
  assumes "url_verdict cfg = None" and "auth_of N cfg = Inr auth" and "cClient c = None" and "defaultAuthentication c = auth"
    and "defaultTls c = get_string cfg ''tlsTrustCertsFilePath''"
  shows "(case target_of N D cfg of
      Inl e \<Rightarrow> \<exists>c'. client_create N D create cfg c = Throw e c' \<and> cClient c' = None
    | Inr s \<Rightarrow> (case create s (cClientConfig c) of
        None \<Rightarrow> \<exists>c'. client_create N D create cfg c = Continue c' \<and> cClient c' = Some s \<and> cClientConfig c' = cClientConfig c
      | Some what \<Rightarrow> \<exists>c'. client_create N D create cfg c = Throw (JsError what) c' \<and> cClient c' = None))"
proof (cases "hasField cfg ''serviceUrlProvider''")
  case True
  obtain r refs where b: "BuildServiceInfoProvider N D cfg auth (get_string cfg ''tlsTrustCertsFilePath'') (authRefs c) = (r, refs)"
    by (cases "BuildServiceInfoProvider N D cfg auth (get_string cfg ''tlsTrustCertsFilePath'') (authRefs c)")
  then have "provider_of N D cfg auth = r"
    unfolding provider_of_def by (metis fst_BuildServiceInfoProvider fst_conv)
  with True b assms show ?thesis
    by (cases r) (simp_all add: target_of_def client_create_def create_client_def split: option.split)
next
  case False
  with assms(1) obtain url where "Get cfg ''serviceUrl'' = JString url"
    by (auto simp: url_verdict_def split: bool.splits js_value.splits)
  with False assms show ?thesis
    by (simp add: target_of_def client_create_def create_client_def ToString_def split: option.split)
qed

lemma client_steps_split:
  "client_steps N D create cfg = butlast (client_steps N D create cfg) @ [client_create N D create cfg]"
  by (simp add: client_steps_def)

lemma Client_spec:
  "(case target_of N D cfg of
      Inl e \<Rightarrow> \<exists>c. Client N D create cfg L = Throw e c \<and> cClient c = None
    | Inr s \<Rightarrow> (case create s (client_calls N cfg) of
        None \<Rightarrow> \<exists>c. Client N D create cfg L = Continue c \<and> cClient c = Some s \<and> cClientConfig c = client_calls N cfg
      | Some what \<Rightarrow> \<exists>c. Client N D create cfg L = Throw (JsError what) c \<and> cClient c = None))"
proof (cases "url_verdict cfg")
  case (Some e)
  then show ?thesis by (simp add: target_of_def Client_throws_url) (simp add: initial_client_def)
next
  case None
  show ?thesis
  proof (cases "auth_of N cfg")
    case (Inl e)
    then have "\<forall>c. \<exists>refs. client_auth N cfg c = Throw e (c\<lparr>authRefs := refs\<rparr>)"
      using client_auth_verdict [of N cfg] by simp
    then obtain refs where "\<And>c. client_auth N cfg c = Throw e (c\<lparr>authRefs := refs c\<rparr>)" by metis
    with None have "\<exists>c. Client N D create cfg L = Throw e c \<and> cClient c = None"
      by (simp add: Client_def client_steps_def client_front initial_client_def split: option.split)
    with None Inl show ?thesis by (simp add: target_of_def)
  next
    case (Inr auth)
    obtain c where "run_steps (butlast (client_steps N D create cfg)) (initial_client L) = Continue c"
      and c: "cClientConfig c = client_calls N cfg" "cClient c = None" "defaultAuthentication c = auth"
      "defaultTls c = get_string cfg ''tlsTrustCertsFilePath''"
      using client_before_create [OF None Inr] by metis
    then have "Client N D create cfg L = run_steps [client_create N D create cfg] c"
      unfolding Client_def by (subst client_steps_split) (simp add: run_steps_append)
    then show ?thesis
      using client_create_target [OF None Inr c(2-4), of D create] c(1)
      by (auto split: sum.splits option.splits)
  qed
qed

definition example_defaults :: failover_defaults where
  "example_defaults = \<lparr>default_checkInterval = 30000, default_failoverThreshold = 1, default_switchBackThreshold = 1\<rparr>"

definition example_failover :: js_value where
  "example_failover = JObject [(''serviceUrlProvider'',
     JObject [(''primary'', JString ''pulsar://a''), (''secondary'', JArray [JString ''pulsar://b''])])]"

lemma example_target:
  "\<exists>f. target_of napi_ref example_defaults example_failover = Inr (Failover f)"
  by (simp add: target_of_def url_verdict_def auth_of_def provider_of_def BuildServiceInfoProvider_def BuildServiceInfo_def
      set_thresholds_def SetPositiveUint32_def example_failover_def hasField_def IsPresent_def getter_defs is_defs Has_def Get_def)

subsection \<open>Properties\<close>

text \<open>
  C6. The constructor of the client does what its specification says: it throws the complaint about
  the service URL, the authentication or the failover provider that comes first in this order and
  then owns no client; otherwise the options are applied in the order of the source and the client
  is created for the one service or the provider, or the library's exception is thrown.
\<close>

theorem Client_decides:
  "(case target_of N D cfg of
      Inl e \<Rightarrow> \<exists>c. Client N D create cfg L = Throw e c \<and> cClient c = None
    | Inr s \<Rightarrow> (case create s (client_calls N cfg) of
        None \<Rightarrow> \<exists>c. Client N D create cfg L = Continue c \<and> cClient c = Some s \<and> cClientConfig c = client_calls N cfg
      | Some what \<Rightarrow> \<exists>c. Client N D create cfg L = Throw (JsError what) c \<and> cClient c = None))"
  by (rule Client_spec)

text \<open>
  A failover number that is absent, undefined or null keeps the default; a number whose 64-bit
  integer part is positive and fits 32 bits is stored exactly; everything else is an error naming the
  option. No value wraps around.
\<close>

theorem positive_uint32_exact:
  "(case SetPositiveUint32 N cfg f target of
      Inr v \<Rightarrow> (if hasField cfg f then \<exists>n. Get cfg f = JNumber n \<and> uint v = sint (Int64Value N n) \<and> 0 < uint v else v = target)
    | Inl e \<Rightarrow> e = JsError (''serviceUrlProvider.'' @ f @ '' must be a positive number'') \<and> hasField cfg f \<and>
        \<not> (\<exists>n. Get cfg f = JNumber n \<and> 0 < sint (Int64Value N n) \<and> sint (Int64Value N n) < 2 ^ 32))"
  using SetPositiveUint32_result [where N=N and cfg=cfg and f=f and target=target] by (auto split: sum.splits)

lemma Client_provider:
  assumes "Client N D create cfg L = Continue c" and "cClient c = Some (Failover f)"
  obtains auth where "auth_of N cfg = Inr auth" "provider_of N D cfg auth = Inr f"
proof -
  from Client_spec [where N = N and D = D and create = create and cfg = cfg and L = L] assms
  have "target_of N D cfg = Inr (Failover f)" by (auto split: sum.splits option.splits)
  then show ?thesis
    using that by (auto simp: target_of_def map_sum_def split: option.splits sum.splits if_splits js_value.splits)
qed

lemma provider_inherits:
  assumes "Client N D create cfg L = Continue c" and "cClient c = Some (Failover f)"
  defines "P \<equiv> Get cfg ''serviceUrlProvider''"
  shows "\<forall>(s, v) \<in> set (zip (primary f # secondary f) (Get P ''primary'' # elements (Get P ''secondary''))).
    (\<not> hasField v ''authentication'' \<longrightarrow> Inr (service_auth s) = auth_of N cfg) \<and>
    (\<not> hasField v ''tlsTrustCertsFilePath'' \<longrightarrow> service_tls s = get_string cfg ''tlsTrustCertsFilePath'')"
proof -
  obtain auth where auth: "auth_of N cfg = Inr auth" and f: "provider_of N D cfg auth = Inr f"
    using Client_provider [OF assms(1,2)] by blast
  let ?T = "get_string cfg ''tlsTrustCertsFilePath''"
  obtain vs where vs: "get_array P ''secondary'' = Some vs" "length (secondary f) = length vs"
    and p: "service_of N auth ?T ''serviceUrlProvider.primary'' (Get P ''primary'') = Inr (primary f)"
    and ss: "\<And>i. i < length vs \<Longrightarrow> service_of N auth ?T (secondary_field i) (vs ! i) = Inr (secondary f ! i)"
    using BuildServiceInfoProvider_services [OF f [unfolded provider_of_def]] unfolding P_def by metis
  have "elements (Get P ''secondary'') = vs" using vs(1) by (auto simp: get_array_def split: if_splits)
  moreover have "(\<not> hasField (vs ! i) ''authentication'' \<longrightarrow> service_auth (secondary f ! i) = auth) \<and>
      (\<not> hasField (vs ! i) ''tlsTrustCertsFilePath'' \<longrightarrow> service_tls (secondary f ! i) = ?T)" if "i < length vs" for i
    using service_of_inherits [OF ss [OF that]] by blast
  ultimately show ?thesis
    using service_of_inherits [OF p] vs(2) unfolding auth by (auto simp: in_set_zip)
qed

text \<open>
  C17. Credentials do not leak between services and are not lost: of a client created for a failover
  provider, the primary service and every secondary one that does not name an authentication of its
  own uses the client's, and likewise for the trusted certificates.
\<close>

theorem services_inherit_credentials:
  assumes "Client N D create cfg L = Continue c" and "cClient c = Some (Failover f)"
  defines "P \<equiv> Get cfg ''serviceUrlProvider''"
  shows "\<forall>(s, v) \<in> set (zip (primary f # secondary f) (Get P ''primary'' # elements (Get P ''secondary''))).
    (\<not> hasField v ''authentication'' \<longrightarrow> Inr (service_auth s) = auth_of N cfg) \<and>
    (\<not> hasField v ''tlsTrustCertsFilePath'' \<longrightarrow> service_tls s = get_string cfg ''tlsTrustCertsFilePath'')"
  using provider_inherits [OF assms(1,2)] unfolding P_def .

theorem services_inherit_credentials_witness:
  "\<exists>c f. Client napi_ref example_defaults (\<lambda>_ _. None) example_failover \<lparr>log_handler = None, log_released = []\<rparr> = Continue c \<and>
     cClient c = Some (Failover f) \<and> Inr (service_auth (primary f)) = auth_of napi_ref example_failover"
proof -
  obtain c f where c: "Client napi_ref example_defaults (\<lambda>_ _. None) example_failover \<lparr>log_handler = None, log_released = []\<rparr> =
      Continue c" "cClient c = Some (Failover f)"
    using Client_spec [where N = napi_ref and D = example_defaults and create = "\<lambda>_ _. None" and cfg = example_failover and
      L = "\<lparr>log_handler = None, log_released = []\<rparr>"] example_target by auto
  with services_inherit_credentials [OF c] show ?thesis
    by (auto simp: example_failover_def hasField_def Has_def Get_def)
qed

text \<open>
  C32. A client created for a failover provider has a primary service and as many secondary services
  as the array has elements, at least one, each with a non-empty URL, and positive intervals and
  thresholds, given that the library's defaults are positive.
\<close>

theorem failover_provider_wellformed:
  assumes "Client N D create cfg L = Continue c" and "cClient c = Some (Failover f)" and "defaults_ok D"
  shows "failover_ok f \<and> length (secondary f) = length (elements (Get (Get cfg ''serviceUrlProvider'') ''secondary''))"
proof -
  from Client_provider [OF assms(1,2)] obtain auth where "provider_of N D cfg auth = Inr f" by blast
  then show ?thesis
    unfolding provider_of_def by (rule BuildServiceInfoProvider_ok) (rule assms(3))
qed

theorem failover_provider_wellformed_witness:
  "\<exists>c f. Client napi_ref example_defaults (\<lambda>_ _. None) example_failover \<lparr>log_handler = None, log_released = []\<rparr> = Continue c \<and>
     cClient c = Some (Failover f) \<and> failover_ok f \<and> length (secondary f) = 1"
proof -
  obtain c f where c: "Client napi_ref example_defaults (\<lambda>_ _. None) example_failover \<lparr>log_handler = None, log_released = []\<rparr> =
      Continue c" "cClient c = Some (Failover f)"
    using Client_spec [where N = napi_ref and D = example_defaults and create = "\<lambda>_ _. None" and cfg = example_failover and
      L = "\<lparr>log_handler = None, log_released = []\<rparr>"] example_target by auto
  moreover have "failover_ok f \<and> length (secondary f) = length (elements (Get (Get example_failover ''serviceUrlProvider'') ''secondary''))"
    by (rule failover_provider_wellformed [OF c]) (simp add: defaults_ok_def example_defaults_def)
  ultimately show ?thesis by (auto simp: example_failover_def Get_def)
qed

text \<open>
  However the constructor ends, every call made on the C client's configuration has a valid
  argument: positive timeouts and thread counts, and strings the C client reads in full.
\<close>

theorem Client_calls_valid: "list_all client_call_ok (cClientConfig (flow_state (Client N D create cfg L)))"
  unfolding Client_def by (rule client.run_inv) (simp add: initial_client_def)


subsection \<open>The shared log handler\<close>

text \<open>
  The uses of the process-wide log handler: the static method, or the constructor of a client,
  which installs its option \<open>log\<close> once the service URL was accepted.
\<close>

datatype log_use = Use_set js_value | Use_client js_value

definition use_log :: "napi \<Rightarrow> failover_defaults \<Rightarrow> (service \<Rightarrow> client_call list \<Rightarrow> string option) \<Rightarrow> log_use \<Rightarrow>
    log_state \<Rightarrow> log_state" where
  "use_log N D create u L = (case u of
       Use_set v \<Rightarrow> flow_state (SetLogHandler v L)
     | Use_client cfg \<Rightarrow> log_shared (flow_state (Client N D create cfg L)))"

definition installs :: "log_use \<Rightarrow> nat option" where
  "installs u = (case u of
       Use_set v \<Rightarrow> (case v of JFunction f \<Rightarrow> Some f | _ \<Rightarrow> None)
     | Use_client cfg \<Rightarrow> (if url_verdict cfg = None then get_function cfg ''log'' else None))"

definition handlers :: "log_state \<Rightarrow> nat list" where
  "handlers L = log_released L @ (case log_handler L of None \<Rightarrow> [] | Some f \<Rightarrow> [f])"

lemma handlers_release [simp]: "handlers (release_handler L) = handlers L"
  by (simp add: handlers_def release_handler_def split: option.split)

lemma handlers_install [simp]: "handlers (install_handler f L) = handlers L @ [f]"
  by (auto simp: handlers_def install_handler_def release_handler_def split: option.split)

text \<open>After the option was handled no block touches the handler.\<close>

lemma client_tail_keeps_log:
  "f \<in> set (drop 3 (client_steps N D create cfg)) \<Longrightarrow> log_shared (flow_state (f c)) = log_shared c"
  by (auto simp: client_steps_def client_emit_defs client_tls_trust_step client_auth_def client_create_def create_client_def
      split: option.split sum.split prod.split)

interpretation client_tail: step_pipeline "drop 3 (client_steps N D create cfg)" "\<lambda>_. True"
  "\<lambda>c c'. log_shared c' = log_shared c" for N D create cfg
  by unfold_locales (simp_all add: client_tail_keeps_log)

lemma log_shared_Client:
  "log_shared (flow_state (Client N D create cfg L)) =
     (case installs (Use_client cfg) of None \<Rightarrow> L | Some f \<Rightarrow> install_handler f L)"
proof (cases "url_verdict cfg")
  case None
  let ?c = "(initial_client L)\<lparr>logLevel := (case get_number cfg ''logLevel'' of None \<Rightarrow> 1 | Some n \<Rightarrow> Int32Value n),
      cClientConfig := [CSet_logger], log_shared := (case get_function cfg ''log'' of None \<Rightarrow> L | Some f \<Rightarrow> install_handler f L)\<rparr>"
  have "Client N D create cfg L = run_steps (drop 3 (client_steps N D create cfg)) ?c"
    using None by (simp add: Client_def client_steps_def client_front initial_client_def split: option.split)
  then show ?thesis
    using None client_tail.run_ext [where s = ?c and N = N and D = D and create = create and cfg = cfg] by (simp add: installs_def)
qed (simp add: Client_throws_url installs_def initial_client_def)

lemma handlers_use: "handlers (use_log N D create u L) = handlers L @ (case installs u of None \<Rightarrow> [] | Some f \<Rightarrow> [f])"
proof (cases u)
  case (Use_set v)
  then show ?thesis by (simp add: use_log_def installs_def SetLogHandler_def split: js_value.split)
next
  case (Use_client cfg)
  then show ?thesis by (simp add: use_log_def log_shared_Client split: option.split)
qed

text \<open>
  C33. Whatever clients are constructed and handlers are set in whatever order, failing attempts
  included, the log functions released so far followed by the one in use are exactly the functions
  installed, in order: each is released once, when it is replaced or removed, and none is lost.
\<close>

theorem log_handlers_released_once:
  "log_released (fold (use_log N D create) us \<lparr>log_handler = None, log_released = []\<rparr>) @
     (case log_handler (fold (use_log N D create) us \<lparr>log_handler = None, log_released = []\<rparr>) of None \<Rightarrow> [] | Some f \<Rightarrow> [f]) =
   List.map_filter installs us"
proof -
  have "handlers (fold (use_log N D create) us L) = handlers L @ List.map_filter installs us" for L
    by (induction us arbitrary: L) (simp_all add: handlers_use map_filter_simps split: option.split)
  from this [of "\<lparr>log_handler = None, log_released = []\<rparr>"] show ?thesis by (simp add: handlers_def)
qed

end
