(* ===== verification/Log_Thread.thy ===== *)
theory Log_Thread
  imports Client_Config
begin

section \<open>The log handler and the threads that log\<close>

text \<open>
  \<open>src/Client.cc\<close>, \<open>SetLogHandler\<close> and \<open>LogMessage\<close> at the level of the structure
  \<open>LogCallback\<close> the shared pointer \<open>Client::logCallback\<close> points to. The JavaScript thread
  allocates, reuses and deletes it; a thread of the C client first reads the pointer and then uses
  what it points to, with no lock in between. The lemmas show that this level refines the handler of
  \<open>Client_Config\<close>, and that a logging thread uses a deleted structure only if the handler was
  removed by \<open>null\<close>.
\<close>

subsection \<open>The structure in memory\<close>

text \<open>
  \<open>structs\<close> maps the address of an allocated structure to the function it holds;
  \<open>next_address\<close> is larger than all addresses used so far.
\<close>

record log_memory =
  logCallback :: "nat option"
  structs :: "nat \<rightharpoonup> nat"
  next_address :: nat
  functions_released :: "nat list"

definition log_start :: log_memory where
  "log_start = \<lparr>logCallback = None, structs = Map.empty, next_address = 0, functions_released = []\<rparr>"

text \<open>\<open>logCallback->callback.Release()\<close>\<close>

definition release_at :: "nat \<Rightarrow> log_memory \<Rightarrow> exn + log_memory" where
  "release_at a m = (case structs m a of
       None \<Rightarrow> Inl (UndefinedBehaviour ''log callback used after it was deleted'')
     | Some f \<Rightarrow> Inr (m\<lparr>functions_released := functions_released m @ [f]\<rparr>))"

definition remove_callback :: "log_memory \<Rightarrow> log_memory flow" where
  "remove_callback m = (case logCallback m of
       None \<Rightarrow> Continue m
     | Some a \<Rightarrow> (case release_at a m of
           Inl e \<Rightarrow> Throw e m
         | Inr m' \<Rightarrow> Continue (m'\<lparr>structs := (structs m')(a := None), logCallback := None\<rparr>)))"

definition replace_callback :: "nat \<Rightarrow> log_memory \<Rightarrow> log_memory flow" where
  "replace_callback f m = (case logCallback m of
       Some a \<Rightarrow> (case release_at a m of
           Inl e \<Rightarrow> Throw e m
         | Inr m' \<Rightarrow> Continue (m'\<lparr>structs := (structs m')(a \<mapsto> f)\<rparr>))
     | None \<Rightarrow> Continue (m\<lparr>logCallback := Some (next_address m), structs := (structs m)(next_address m \<mapsto> f),
         next_address := Suc (next_address m)\<rparr>))"

definition SetLogHandler_at :: "js_value \<Rightarrow> log_memory \<Rightarrow> log_memory flow" where
  "SetLogHandler_at jsFunction m = (case jsFunction of
       JNull \<Rightarrow> remove_callback m
     | JFunction f \<Rightarrow> replace_callback f m
     | _ \<Rightarrow> Throw (JsError ''Client log handler must be a function or null'') m)"

subsection \<open>Refinement\<close>

definition log_abs :: "log_memory \<Rightarrow> log_state" where
  "log_abs m = \<lparr>log_handler = (case logCallback m of None \<Rightarrow> None | Some a \<Rightarrow> structs m a),
     log_released = functions_released m\<rparr>"

definition log_memory_inv :: "log_memory \<Rightarrow> bool" where
  "log_memory_inv m \<longleftrightarrow> (\<forall>a. logCallback m = Some a \<longrightarrow> structs m a \<noteq> None) \<and> (\<forall>a \<in> dom (structs m). a < next_address m)"

lemmas log_memory_defs = SetLogHandler_at_def remove_callback_def replace_callback_def release_at_def

lemma log_memory_inv_start: "log_memory_inv log_start"
  by (simp add: log_memory_inv_def log_start_def)

lemma SetLogHandler_at_inv: "log_memory_inv m \<Longrightarrow> log_memory_inv (flow_state (SetLogHandler_at v m))"
  by (cases v; cases "logCallback m")
    (auto simp: log_memory_inv_def log_memory_defs less_Suc_eq split: option.splits if_splits)

lemma SetLogHandler_at_refines:
  "log_memory_inv m \<Longrightarrow> map_flow log_abs (SetLogHandler_at v m) = SetLogHandler v (log_abs m)"
  by (cases v; cases "logCallback m")
    (auto simp: log_memory_inv_def log_memory_defs log_abs_def SetLogHandler_def release_handler_def install_handler_def
      split: option.splits)

text \<open>Without \<open>null\<close> no structure is ever deleted.\<close>

lemma SetLogHandler_at_keeps:
  "v \<noteq> JNull \<Longrightarrow> dom (structs m) \<subseteq> dom (structs (flow_state (SetLogHandler_at v m)))"
  by (cases v; cases "logCallback m") (auto simp: log_memory_defs split: option.split)

subsection \<open>Logging threads\<close>

text \<open>
  \<open>LogMessage\<close> in two steps: the pointer is read and tested, then the function it leads to is
  acquired, called and released.
\<close>

definition use_callback :: "nat \<Rightarrow> log_memory \<Rightarrow> exn + nat" where
  "use_callback a m = (case structs m a of
       None \<Rightarrow> Inl (UndefinedBehaviour ''log callback used after it was deleted'')
     | Some f \<Rightarrow> Inr f)"

text \<open>
  The machine: the memory and the pointers threads have read and not used yet. \<open>nulls\<close> tells
  whether the handler may be set to \<open>null\<close>.
\<close>

inductive log_step :: "bool \<Rightarrow> log_memory \<times> nat list \<Rightarrow> exn + log_memory \<times> nat list \<Rightarrow> bool" for nulls where
  set_handler: "v \<noteq> JNull \<or> nulls \<Longrightarrow> log_step nulls (m, ps) (Inr (flow_state (SetLogHandler_at v m), ps))"
| read_pointer: "logCallback m = Some a \<Longrightarrow> log_step nulls (m, ps) (Inr (m, a # ps))"
| call_handler: "a \<in> set ps \<Longrightarrow> use_callback a m = Inr f \<Longrightarrow> log_step nulls (m, ps) (Inr (m, remove1 a ps))"
| call_fails: "a \<in> set ps \<Longrightarrow> use_callback a m = Inl e \<Longrightarrow> log_step nulls (m, ps) (Inl e)"

inductive log_reachable :: "bool \<Rightarrow> log_memory \<times> nat list \<Rightarrow> bool" for nulls where
  start: "log_reachable nulls (log_start, [])"
| step: "log_reachable nulls s \<Longrightarrow> log_step nulls s (Inr s') \<Longrightarrow> log_reachable nulls s'"

inductive_cases log_step_failE: "log_step nulls s (Inl e)"

definition log_inv :: "log_memory \<times> nat list \<Rightarrow> bool" where
  "log_inv s \<longleftrightarrow> log_memory_inv (fst s) \<and> set (snd s) \<subseteq> dom (structs (fst s))"

lemma log_step_inv:
  assumes "log_step False s (Inr s')" and "log_inv s"
  shows "log_inv s'"
  using assms(1)
proof (cases rule: log_step.cases)
  case (set_handler v m ps)
  then have "log_memory_inv (fst s')" "dom (structs m) \<subseteq> dom (structs (fst s'))" "snd s' = ps"
    using assms(2) SetLogHandler_at_inv [of m v] SetLogHandler_at_keeps [of v m] by (simp_all add: log_inv_def)
  with set_handler(1) assms(2) show ?thesis unfolding log_inv_def by (metis fst_conv order_trans snd_conv)
next
  case (read_pointer m a ps)
  with assms(2) show ?thesis by (auto simp: log_inv_def log_memory_inv_def)
next
  case (call_handler a ps m f)
  with assms(2) set_remove1_subset [of a ps] show ?thesis by (auto simp: log_inv_def)
qed

lemma log_reachable_inv: "log_reachable False s \<Longrightarrow> log_inv s"
proof (induction rule: log_reachable.induct)
  case start
  then show ?case by (simp add: log_inv_def log_memory_inv_start)
next
  case (step s s')
  then show ?case by (blast intro: log_step_inv)
qed

subsection \<open>Properties\<close>

text \<open>
  C34. As long as the log handler is only replaced and never set to \<open>null\<close>, a thread that logs
  never uses a deleted structure, whatever the interleaving. Once it may be set to \<open>null\<close> there
  is an interleaving in which it does: the thread reads the pointer, the handler is removed and its
  structure deleted, and the thread goes on with the pointer it has.
\<close>

theorem log_handler_dangles_only_if_removed:
  "(log_reachable False s \<longrightarrow> \<not> log_step False s (Inl e)) \<and>
   (\<exists>s' e'. log_reachable True s' \<and> log_step True s' (Inl e'))"
proof
  show "log_reachable False s \<longrightarrow> \<not> log_step False s (Inl e)"
    using log_reachable_inv [of s] by (auto simp: log_inv_def use_callback_def elim!: log_step_failE split: option.splits)
  let ?m = "flow_state (SetLogHandler_at (JFunction 1) log_start)"
  let ?n = "flow_state (SetLogHandler_at JNull ?m)"
  have "log_reachable True (?m, [])"
    by (rule log_reachable.step [OF log_reachable.start log_step.set_handler]) simp
  then have "log_reachable True (?m, [0])"
    by (rule log_reachable.step) (rule log_step.read_pointer, simp add: log_memory_defs log_start_def)
  then have "log_reachable True (?n, [0])"
    by (rule log_reachable.step) (rule log_step.set_handler, simp)
  moreover have "log_step True (?n, [0]) (Inl (UndefinedBehaviour ''log callback used after it was deleted''))"
    by (rule log_step.call_fails [of 0]) (simp_all add: use_callback_def log_memory_defs log_start_def)
  ultimately show "\<exists>s' e'. log_reachable True s' \<and> log_step True s' (Inl e')" by blast
qed

theorem log_handler_dangles_only_if_removed_witness:
  "log_reachable False (log_start, []) \<and>
   \<not> log_step False (log_start, []) (Inl (UndefinedBehaviour ''log callback used after it was deleted''))"
  using log_handler_dangles_only_if_removed log_reachable.start [of False] by blast

end
