(* ===== verification/Authentication.thy ===== *)
theory Authentication
  imports Callback
begin

section \<open>Authentication\<close>

text \<open>
  \<open>src/Authentication.h\<close>, \<open>src/Authentication.cc\<close>: the constructor chooses an
  authentication of the C client by the name of a method and its parameter; an invalid argument
  leaves an exception pending and returns with no authentication. The token supplier is in
  \<open>Callback\<close>. The lemmas give the exact table of accepted arguments and the ownership of
  what the object holds.
\<close>

datatype auth_call =
    Auth_tls string string
  | Auth_token string
  | Auth_token_supplier nat
  | Auth_basic string string
  | Auth_athenz string
  | Auth_oauth2 string

record authentication =
  cAuthentication :: "auth_call option"
  tokenSupplier :: "nat option"

definition arg :: "js_value list \<Rightarrow> nat \<Rightarrow> js_value" where
  "arg info i = (if i < length info then info ! i else JUndefined)"

definition no_authentication :: authentication where
  "no_authentication = \<lparr>cAuthentication = None, tokenSupplier = None\<rparr>"

definition auth_error :: "string \<Rightarrow> authentication flow" where
  "auth_error msg = Throw (JsError msg) no_authentication"

definition auth_tls :: "js_value \<Rightarrow> authentication flow" where
  "auth_tls obj = (case (get_string obj ''certificatePath'', get_string obj ''privateKeyPath'') of
       (Some cert, Some key) \<Rightarrow> Continue (no_authentication\<lparr>cAuthentication := Some (Auth_tls (c_str cert) (c_str key))\<rparr>)
     | _ \<Rightarrow> auth_error ''Missing required parameter'')"

definition auth_token :: "js_value \<Rightarrow> authentication flow" where
  "auth_token obj =
     (if Has obj ''token'' then
        (case Get obj ''token'' of
           JString t \<Rightarrow> Continue (no_authentication\<lparr>cAuthentication := Some (Auth_token (c_str t))\<rparr>)
         | JFunction f \<Rightarrow> Continue \<lparr>cAuthentication = Some (Auth_token_supplier f), tokenSupplier = Some f\<rparr>
         | _ \<Rightarrow> auth_error ''Missing required parameter'')
      else auth_error ''Missing required parameter'')"

definition auth_basic :: "js_value \<Rightarrow> authentication flow" where
  "auth_basic obj = (case (get_string obj ''username'', get_string obj ''password'') of
       (Some u, Some p) \<Rightarrow> Continue (no_authentication\<lparr>cAuthentication := Some (Auth_basic (c_str u) (c_str p))\<rparr>)
     | _ \<Rightarrow> auth_error ''Missing required parameter'')"

definition Authentication :: "js_value list \<Rightarrow> authentication flow" where
  "Authentication info =
     (case arg info 0 of
        JString authMethod \<Rightarrow>
          (if length info < 1 \<or> authMethod = [] then auth_error ''Authentication method is not specified''
           else if authMethod = ''tls'' \<or> authMethod = ''token'' \<or> authMethod = ''basic'' then
             (if length info < 2 \<or> \<not> IsObject (arg info 1)
              then auth_error ''Authentication parameter must be a object''
              else let obj = arg info 1 in
                if authMethod = ''tls'' then auth_tls obj
                else if authMethod = ''token'' then auth_token obj
                else auth_basic obj)
           else if authMethod = ''athenz'' then
             (case arg info 1 of
                JString p \<Rightarrow> Continue (no_authentication\<lparr>cAuthentication := Some (Auth_athenz (c_str p))\<rparr>)
              | _ \<Rightarrow> auth_error ''Authentication parameter must be a JSON string'')
           else if authMethod = ''oauth2'' then
             (case arg info 1 of
                JString p \<Rightarrow> Continue (no_authentication\<lparr>cAuthentication := Some (Auth_oauth2 (c_str p))\<rparr>)
              | _ \<Rightarrow> auth_error ''Authentication parameter must be a JSON string for oauth2'')
           else auth_error ''Unsupported authentication method'')
      | _ \<Rightarrow> auth_error ''Authentication method is not specified'')"

text \<open>
  The destructor: the supplier it releases and the authentication it frees.
\<close>

definition destroy_Authentication :: "authentication \<Rightarrow> nat option \<times> auth_call option" where
  "destroy_Authentication a = (tokenSupplier a, cAuthentication a)"

lemmas auth_defs = Authentication_def auth_tls_def auth_token_def auth_basic_def auth_error_def no_authentication_def

subsection \<open>Properties\<close>

text \<open>What an authentication must have been made from.\<close>

fun made_from :: "js_value list \<Rightarrow> auth_call \<Rightarrow> bool" where
  "made_from info (Auth_tls cert key) \<longleftrightarrow> arg info 0 = JString ''tls'' \<and>
     (\<exists>c k. get_string (arg info 1) ''certificatePath'' = Some c \<and> get_string (arg info 1) ''privateKeyPath'' = Some k \<and>
        cert = c_str c \<and> key = c_str k)"
| "made_from info (Auth_token t) \<longleftrightarrow> arg info 0 = JString ''token'' \<and>
     (\<exists>s. get_string (arg info 1) ''token'' = Some s \<and> t = c_str s)"
| "made_from info (Auth_token_supplier f) \<longleftrightarrow> arg info 0 = JString ''token'' \<and>
     get_function (arg info 1) ''token'' = Some f"
| "made_from info (Auth_basic u p) \<longleftrightarrow> arg info 0 = JString ''basic'' \<and>
     (\<exists>a b. get_string (arg info 1) ''username'' = Some a \<and> get_string (arg info 1) ''password'' = Some b \<and>
        u = c_str a \<and> p = c_str b)"
| "made_from info (Auth_athenz p) \<longleftrightarrow> arg info 0 = JString ''athenz'' \<and> (\<exists>s. arg info 1 = JString s \<and> p = c_str s)"
| "made_from info (Auth_oauth2 p) \<longleftrightarrow> arg info 0 = JString ''oauth2'' \<and> (\<exists>s. arg info 1 = JString s \<and> p = c_str s)"

lemma get_Some_IsObject:
  "get_string v k = Some s \<Longrightarrow> IsObject v" "get_function v k = Some f \<Longrightarrow> IsObject v"
  by (cases v; simp add: get_string_def get_function_def Has_def IsObject_def)+

lemma get_cases:
  "get_string v k = Some s \<longleftrightarrow> Has v k \<and> Get v k = JString s"
  "get_function v k = Some f \<longleftrightarrow> Has v k \<and> Get v k = JFunction f"
  by (auto simp: get_string_def get_function_def IsString_def IsFunction_def split: js_value.splits)

lemma arg_defined: "arg info i \<noteq> JUndefined \<Longrightarrow> i < length info"
  by (auto simp: arg_def split: if_splits)

lemma IsObject_arg: "IsObject (arg info i) \<Longrightarrow> i < length info"
  by (rule arg_defined) (auto simp: IsObject_def)

lemma auth_parts:
  "auth_tls obj = Continue a \<longleftrightarrow> (\<exists>c k. get_string obj ''certificatePath'' = Some c \<and>
     get_string obj ''privateKeyPath'' = Some k \<and> a = no_authentication\<lparr>cAuthentication := Some (Auth_tls (c_str c) (c_str k))\<rparr>)"
  "auth_basic obj = Continue a \<longleftrightarrow> (\<exists>u p. get_string obj ''username'' = Some u \<and>
     get_string obj ''password'' = Some p \<and> a = no_authentication\<lparr>cAuthentication := Some (Auth_basic (c_str u) (c_str p))\<rparr>)"
  "auth_token obj = Continue a \<longleftrightarrow>
     (\<exists>t. get_string obj ''token'' = Some t \<and> a = no_authentication\<lparr>cAuthentication := Some (Auth_token (c_str t))\<rparr>) \<or>
     (\<exists>f. get_function obj ''token'' = Some f \<and> a = \<lparr>cAuthentication = Some (Auth_token_supplier f), tokenSupplier = Some f\<rparr>)"
    apply (auto simp: auth_tls_def auth_error_def split: option.splits)[1]
   apply (auto simp: auth_basic_def auth_error_def split: option.splits)[1]
  by (auto simp: auth_token_def auth_error_def get_cases split: js_value.splits)

definition auth_ok :: "js_value list \<Rightarrow> authentication flow \<Rightarrow> bool" where
  "auth_ok info r = (case r of
      Continue a \<Rightarrow> \<exists>c. cAuthentication a = Some c \<and> made_from info c \<and>
        tokenSupplier a = (case c of Auth_token_supplier f \<Rightarrow> Some f | _ \<Rightarrow> None)
    | Return a \<Rightarrow> False
    | Throw e a \<Rightarrow> a = no_authentication \<and> (\<nexists>c. made_from info c))"

lemma not_made:
  assumes "\<And>m. m \<in> {''tls'', ''token'', ''basic'', ''athenz'', ''oauth2''} \<Longrightarrow> arg info 0 \<noteq> JString m"
  shows "\<not> made_from info c"
  using assms by (cases "(info, c)" rule: made_from.cases) auto

lemma made_from_string:
  "arg info 0 = JString ''athenz'' \<Longrightarrow> made_from info c \<longleftrightarrow> (\<exists>p. arg info 1 = JString p \<and> c = Auth_athenz (c_str p))"
  "arg info 0 = JString ''oauth2'' \<Longrightarrow> made_from info c \<longleftrightarrow> (\<exists>p. arg info 1 = JString p \<and> c = Auth_oauth2 (c_str p))"
  by (cases c; simp; blast)+

lemma auth_ok_object:
  assumes a0: "arg info 0 = JString m" and m: "m = ''tls'' \<or> m = ''token'' \<or> m = ''basic''"
  shows "auth_ok info (if m = ''tls'' then auth_tls (arg info 1) else if m = ''token'' then auth_token (arg info 1)
    else auth_basic (arg info 1))" (is "auth_ok info ?r")
proof (cases ?r)
  case (Continue a)
  with m a0 show ?thesis
    by (auto simp: auth_ok_def auth_parts no_authentication_def)
next
  case (Return a)
  with m show ?thesis
    by (auto simp: auth_tls_def auth_token_def auth_basic_def auth_error_def
        split: option.splits if_splits js_value.splits)
next
  case (Throw e a)
  have "\<not> made_from info c" for c
  proof
    assume mf: "made_from info c"
    with a0 have "\<exists>b. ?r = Continue b"
      using m by (cases "(info, c)" rule: made_from.cases) (auto simp: auth_parts)
    with Throw show False by simp
  qed
  moreover from Throw m have "a = no_authentication"
    by (auto simp: auth_tls_def auth_token_def auth_basic_def auth_error_def
        split: option.splits if_splits js_value.splits)
  ultimately show ?thesis using Throw by (simp add: auth_ok_def)
qed

lemma Authentication_ok: "auth_ok info (Authentication info)"
proof (cases "arg info 0")
  case (JString m)
  then have len: "0 < length info" using arg_defined [of info 0] by simp
  consider (obj) "m = ''tls'' \<or> m = ''token'' \<or> m = ''basic''" | (athenz) "m = ''athenz''" | (oauth2) "m = ''oauth2''"
    | (other) "m \<notin> {''tls'', ''token'', ''basic'', ''athenz'', ''oauth2''}" by blast
  then show ?thesis
  proof cases
    case obj
    show ?thesis
    proof (cases "length info < 2 \<or> \<not> IsObject (arg info 1)")
      case True
      have "\<not> IsObject (arg info 1)" using True IsObject_arg [of info 1] by auto
      then have "\<not> made_from info c" for c
        using JString obj by (cases "(info, c)" rule: made_from.cases) (auto dest: get_Some_IsObject)
      with True JString obj len show ?thesis
        by (auto simp: Authentication_def auth_error_def auth_ok_def)
    next
      case False
      with JString obj len auth_ok_object [OF JString obj] show ?thesis
        by (auto simp: Authentication_def Let_def)
    qed
  next
    case athenz
    from JString len athenz have "Authentication info = (case arg info 1 of
        JString p \<Rightarrow> Continue (no_authentication\<lparr>cAuthentication := Some (Auth_athenz (c_str p))\<rparr>)
      | _ \<Rightarrow> auth_error ''Authentication parameter must be a JSON string'')"
      by (simp add: Authentication_def)
    with JString athenz made_from_string(1) [of info] show ?thesis
      by (simp add: auth_ok_def auth_error_def no_authentication_def split: js_value.split)
  next
    case oauth2
    from JString len oauth2 have "Authentication info = (case arg info 1 of
        JString p \<Rightarrow> Continue (no_authentication\<lparr>cAuthentication := Some (Auth_oauth2 (c_str p))\<rparr>)
      | _ \<Rightarrow> auth_error ''Authentication parameter must be a JSON string for oauth2'')"
      by (simp add: Authentication_def)
    with JString oauth2 made_from_string(2) [of info] show ?thesis
      by (simp add: auth_ok_def auth_error_def no_authentication_def split: js_value.split)
  next
    case other
    with JString len have "Authentication info = auth_error ''Unsupported authentication method'' \<or>
        Authentication info = auth_error ''Authentication method is not specified''"
      by (simp add: Authentication_def)
    moreover from other JString have "\<not> made_from info c" for c by (intro not_made) auto
    ultimately show ?thesis by (auto simp: auth_error_def auth_ok_def)
  qed
qed (use not_made [of info] in \<open>auto simp: Authentication_def auth_error_def auth_ok_def\<close>)

text \<open>
  C40. The constructor accepts exactly the documented combinations of method and parameter, makes
  the corresponding authentication of the C client from them, and owns a token supplier
  exactly when one was given; otherwise it throws and holds nothing that would have to be freed.
\<close>

theorem Authentication_decides:
  "(case Authentication info of
      Continue a \<Rightarrow> \<exists>c. cAuthentication a = Some c \<and> made_from info c \<and>
        tokenSupplier a = (case c of Auth_token_supplier f \<Rightarrow> Some f | _ \<Rightarrow> None)
    | Return a \<Rightarrow> False
    | Throw e a \<Rightarrow> a = no_authentication \<and> (\<nexists>c. made_from info c))"
  using Authentication_ok [of info] by (simp only: auth_ok_def)

end
