(* ===== verification/Addon.thy ===== *)
theory Addon
  imports Operations Message_Id Log_Thread Authentication
begin

section \<open>The module: classes and their methods by name\<close>

text \<open>
  \<open>src/addon.cc\<close> and the \<open>Init\<close> function of each class: the table of methods JavaScript
  can call on an object, and the classes the module exports. A method is the operation of the theories
  before, applied to the object it is called on; \<open>host\<close> holds what the C client answers at once.
  The theorem shows that every method acts on its own object only, and that what it starts fails with
  the message for that method.
\<close>

named_theorems init_def

subsection \<open>Objects and methods\<close>

record host =
  h_napi :: napi
  h_setPolicy :: "batch_receive_policy \<Rightarrow> int"
  h_str :: result_str
  h_messages :: "ptr \<Rightarrow> c_message"
  h_ids :: id_library
  h_producer_name :: "ptr \<Rightarrow> string"
  h_topic :: "ptr \<Rightarrow> string"
  h_connected :: "ptr \<Rightarrow> int32"
  h_has_next :: "ptr \<Rightarrow> pulsar_result \<times> int32"

text \<open>The state methods change: the consumer and reader objects, and the C heap.\<close>

record world =
  w_objects :: "ptr \<Rightarrow> client_object"
  w_heap :: c_heap

text \<open>
  How a call ends: as an asynchronous method, with a worker queued, or with a value at once; properties
  of a message are an array object.
\<close>

datatype call_end = Ended method_end | Queued receive_call | Answered "exn + js_value" | Listed "exn + array_object" | Not_a_function

type_synonym method_call = "js_value list \<Rightarrow> world \<Rightarrow> call_end \<times> world"

definition ends :: "(js_value list \<Rightarrow> method_end) \<Rightarrow> method_call" where
  "ends f info w = (Ended (f info), w)"

definition answers :: "(js_value list \<Rightarrow> exn + js_value) \<Rightarrow> method_call" where
  "answers f info w = (Answered (f info), w)"

definition closes :: "(ptr \<Rightarrow> client_object \<Rightarrow> method_end \<times> client_object) \<Rightarrow> ptr \<Rightarrow> method_call" where
  "closes f p info w = (case f p (w_objects w p) of (e, o') \<Rightarrow> (Ended e, w\<lparr>w_objects := (w_objects w)(p := o')\<rparr>))"

subsection \<open>The tables\<close>

definition consumer_methods :: "host \<Rightarrow> ptr \<Rightarrow> (string \<times> method_call) list" where
  "consumer_methods H p =
     [(''receive'', \<lambda>info w. (case Consumer_Receive (h_napi H) p info of Inl e \<Rightarrow> Ended e | Inr c \<Rightarrow> Queued c, w)),
      (''batchReceive'', ends (\<lambda>info. Consumer_BatchReceive p)),
      (''acknowledge'', ends (Consumer_Acknowledge (h_napi H) p)),
      (''acknowledgeId'', ends (Consumer_AcknowledgeId (h_napi H) p)),
      (''negativeAcknowledge'', ends (Consumer_NegativeAcknowledge (h_napi H) p)),
      (''negativeAcknowledgeId'', ends (Consumer_NegativeAcknowledgeId (h_napi H) p)),
      (''acknowledgeCumulative'', ends (Consumer_AcknowledgeCumulative (h_napi H) p)),
      (''acknowledgeCumulativeId'', ends (Consumer_AcknowledgeCumulativeId (h_napi H) p)),
      (''seek'', ends (Consumer_Seek (h_napi H) p)),
      (''seekTimestamp'', ends (Consumer_SeekTimestamp (h_napi H) p)),
      (''isConnected'', answers (\<lambda>info. Inr (Consumer_IsConnected (h_connected H p)))),
      (''close'', closes Consumer_Close p),
      (''unsubscribe'', ends (\<lambda>info. Consumer_Unsubscribe p))]"

definition producer_methods :: "host \<Rightarrow> ptr \<Rightarrow> (string \<times> method_call) list" where
  "producer_methods H p =
     [(''send'', \<lambda>info w. case Producer_Send (h_napi H) (w_heap w) p info of (e, h) \<Rightarrow> (Ended e, w\<lparr>w_heap := h\<rparr>)),
      (''flush'', ends (\<lambda>info. Producer_Flush p)),
      (''close'', ends (\<lambda>info. Producer_Close p)),
      (''getProducerName'', answers (\<lambda>info. Inr (Producer_GetProducerName (h_producer_name H p)))),
      (''getTopic'', answers (\<lambda>info. Inr (Producer_GetTopic (h_topic H p)))),
      (''isConnected'', answers (\<lambda>info. Inr (Producer_IsConnected (h_connected H p))))]"

definition reader_methods :: "host \<Rightarrow> ptr \<Rightarrow> (string \<times> method_call) list" where
  "reader_methods H p =
     [(''readNext'', \<lambda>info w. (Queued (Reader_ReadNext (h_napi H) info), w)),
      (''hasNext'', answers (\<lambda>info. Reader_HasNext (h_str H) (fst (h_has_next H p)) (snd (h_has_next H p)))),
      (''isConnected'', answers (\<lambda>info. Inr (Reader_IsConnected (h_connected H p)))),
      (''seek'', ends (Reader_Seek (h_napi H) p)),
      (''seekTimestamp'', ends (Reader_SeekTimestamp (h_napi H) p)),
      (''close'', closes Reader_Close p)]"

definition client_methods :: "host \<Rightarrow> (string \<times> method_call) list" where
  "client_methods H =
     [(''createProducer'', ends (Client_CreateProducer (h_napi H))),
      (''subscribe'', ends (Client_Subscribe (h_napi H) (h_setPolicy H))),
      (''createReader'', ends (Client_CreateReader (h_napi H))),
      (''getPartitionsForTopic'', ends (Client_GetPartitionsForTopic (h_napi H))),
      (''getSchemaInfo'', ends Client_GetSchemaInfo),
      (''close'', ends (\<lambda>info. Client_Close))]"

definition client_statics :: "(string \<times> (js_value \<Rightarrow> log_state \<Rightarrow> log_state flow)) list" where
  "client_statics = [(''setLogHandler'', SetLogHandler)]"

definition message_methods :: "host \<Rightarrow> ptr option \<Rightarrow> (string \<times> method_call) list" where
  "message_methods H m = (let get = (\<lambda>g. answers (\<lambda>info. g (h_messages H) m)) in
     [(''getTopicName'', get GetTopicName),
      (''getProperties'', \<lambda>info w. (Listed (GetProperties (h_napi H) (h_messages H) m), w)),
      (''getData'', get GetData),
      (''getMessageId'', get GetMessageId),
      (''getPublishTimestamp'', get GetPublishTimestamp),
      (''getEventTimestamp'', get GetEventTimestamp),
      (''getRedeliveryCount'', get GetRedeliveryCount),
      (''getPartitionKey'', get GetPartitionKey),
      (''getOrderingKey'', get GetOrderingKey),
      (''getProducerName'', get GetProducerName),
      (''isReplicated'', get IsReplicated),
      (''getReplicatedFrom'', get GetReplicatedFrom),
      (''getLongSchemaVersion'', get GetLongSchemaVersion),
      (''getEncryptionContext'', get GetEncryptionContext)])"

definition messageId_statics :: "host \<Rightarrow> (string \<times> method_call) list" where
  "messageId_statics H =
     [(''earliest'', answers (\<lambda>info. Inr (Earliest (h_ids H)))),
      (''latest'', answers (\<lambda>info. Inr (Latest (h_ids H)))),
      (''deserialize'', answers (\<lambda>info. Deserialize (h_ids H) (info_arg info 0)))]"

definition messageId_methods :: "host \<Rightarrow> js_value \<Rightarrow> (string \<times> method_call) list" where
  "messageId_methods H this =
     [(''serialize'', answers (\<lambda>info. Serialize (h_ids H) (h_napi H) this)),
      (''toString'', answers (\<lambda>info. MessageId_ToString (h_ids H) (h_napi H) this))]"

subsection \<open>Exports\<close>

datatype js_class = Class_Message | Class_MessageId | Class_Authentication | Class_Producer | Class_Consumer | Class_Reader
  | Class_CryptoKeyReader | Class_Client

type_synonym exports = "(string \<times> js_class) list"

text \<open>
  Each class is registered; five are set on the exports, while producers, consumers and readers are kept
  from them: JavaScript gets such objects from the client only.
\<close>

definition Message_Init :: "exports \<Rightarrow> exports" where [init_def]:
  "Message_Init ex = ex @ [(''Message'', Class_Message)]"

definition MessageId_Init :: "exports \<Rightarrow> exports" where [init_def]:
  "MessageId_Init ex = ex @ [(''MessageId'', Class_MessageId)]"

definition Authentication_Init :: "exports \<Rightarrow> exports" where [init_def]:
  "Authentication_Init ex = ex @ [(''Authentication'', Class_Authentication)]"

definition Producer_Init :: "exports \<Rightarrow> exports" where [init_def]:
  "Producer_Init ex = ex"

definition Consumer_Init :: "exports \<Rightarrow> exports" where [init_def]:
  "Consumer_Init ex = ex"

definition Reader_Init :: "exports \<Rightarrow> exports" where [init_def]:
  "Reader_Init ex = ex"

definition CryptoKeyReader_Init :: "exports \<Rightarrow> exports" where [init_def]:
  "CryptoKeyReader_Init ex = ex @ [(''CryptoKeyReader'', Class_CryptoKeyReader)]"

definition Client_Init :: "exports \<Rightarrow> exports" where [init_def]:
  "Client_Init ex = ex @ [(''Client'', Class_Client)]"

definition InitAll :: "exports \<Rightarrow> exports" where
  "InitAll ex = Client_Init (CryptoKeyReader_Init (Reader_Init (Consumer_Init (Producer_Init
     (Authentication_Init (MessageId_Init (Message_Init ex)))))))"

subsection \<open>Calling by name\<close>

datatype receiver = On_Client | On_Producer ptr | On_Consumer ptr | On_Reader ptr | On_Message "ptr option" | On_MessageId js_value

primrec methods_of :: "host \<Rightarrow> receiver \<Rightarrow> (string \<times> method_call) list" where
  "methods_of H On_Client = client_methods H"
| "methods_of H (On_Producer p) = producer_methods H p"
| "methods_of H (On_Consumer p) = consumer_methods H p"
| "methods_of H (On_Reader p) = reader_methods H p"
| "methods_of H (On_Message m) = message_methods H m"
| "methods_of H (On_MessageId v) = messageId_methods H v"

definition invoke :: "host \<Rightarrow> receiver \<Rightarrow> string \<Rightarrow> method_call" where
  "invoke H this name info w = (case map_of (methods_of H this) name of
       None \<Rightarrow> (Not_a_function, w)
     | Some m \<Rightarrow> m info w)"

subsection \<open>Whose request, whose message\<close>

text \<open>The object of the C client a request is made on; \<open>None\<close> is the client.\<close>

fun target :: "c_request \<Rightarrow> ptr option" where
  "target (C_send_async p m) = Some p"
| "target (C_flush_async p) = Some p"
| "target (C_producer_close_async p) = Some p"
| "target (C_batch_receive_async p) = Some p"
| "target (C_receive_async p) = Some p"
| "target (C_acknowledge_async p m) = Some p"
| "target (C_acknowledge_async_id p m) = Some p"
| "target (C_negative_acknowledge p m) = Some p"
| "target (C_negative_acknowledge_id p m) = Some p"
| "target (C_acknowledge_cumulative_async p m) = Some p"
| "target (C_acknowledge_cumulative_async_id p m) = Some p"
| "target (C_seek_async p m) = Some p"
| "target (C_seek_by_timestamp_async p t) = Some p"
| "target (C_pause_message_listener p) = Some p"
| "target (C_consumer_close_async p) = Some p"
| "target (C_unsubscribe_async p) = Some p"
| "target (C_reader_seek_async p m) = Some p"
| "target (C_reader_seek_by_timestamp_async p t) = Some p"
| "target (C_reader_close_async p) = Some p"
| "target _ = None"

definition handle_of :: "receiver \<Rightarrow> ptr option" where
  "handle_of this = (case this of On_Producer p \<Rightarrow> Some p | On_Consumer p \<Rightarrow> Some p | On_Reader p \<Rightarrow> Some p | _ \<Rightarrow> None)"

definition class_of :: "receiver \<Rightarrow> string" where
  "class_of this = (case this of On_Client \<Rightarrow> ''Client'' | On_Producer p \<Rightarrow> ''Producer'' | On_Consumer p \<Rightarrow> ''Consumer''
     | On_Reader p \<Rightarrow> ''Reader'' | On_Message m \<Rightarrow> ''Message'' | On_MessageId v \<Rightarrow> ''MessageId'')"

text \<open>What the failure of each asynchronous method says.\<close>

definition failure_texts :: "((string \<times> string) \<times> string) list" where
  "failure_texts =
     [((''Client'', ''createProducer''), ''Failed to create producer: ''),
      ((''Client'', ''subscribe''), ''Failed to create consumer: ''),
      ((''Client'', ''createReader''), ''Failed to create reader: ''),
      ((''Client'', ''getPartitionsForTopic''), ''Failed to GetPartitionsForTopic: ''),
      ((''Client'', ''getSchemaInfo''), ''Failed to get schema info: ''),
      ((''Client'', ''close''), ''Failed to close client: ''),
      ((''Producer'', ''send''), ''Failed to send message: ''),
      ((''Producer'', ''flush''), ''Failed to flush producer: ''),
      ((''Producer'', ''close''), ''Failed to close producer: ''),
      ((''Consumer'', ''receive''), ''Failed to receive message: ''),
      ((''Consumer'', ''batchReceive''), ''Failed to batch receive message: ''),
      ((''Consumer'', ''acknowledge''), ''Failed to acknowledge: ''),
      ((''Consumer'', ''acknowledgeId''), ''Failed to acknowledge id: ''),
      ((''Consumer'', ''acknowledgeCumulative''), ''Failed to acknowledge cumulatively: ''),
      ((''Consumer'', ''acknowledgeCumulativeId''), ''Failed to acknowledge cumulatively by id: ''),
      ((''Consumer'', ''seek''), ''Failed to seek message by id: ''),
      ((''Consumer'', ''seekTimestamp''), ''Failed to seek message by timestamp: ''),
      ((''Consumer'', ''close''), ''Failed to close consumer: ''),
      ((''Consumer'', ''unsubscribe''), ''Failed to unsubscribe consumer: ''),
      ((''Reader'', ''seek''), ''Failed to seek message by id: ''),
      ((''Reader'', ''seekTimestamp''), ''Failed to seek message by timestamp: ''),
      ((''Reader'', ''close''), ''Failed to close reader: '')]"

text \<open>Only the object a method is called on changes, and the C heap holds what it held.\<close>

definition untouched :: "ptr option \<Rightarrow> world \<Rightarrow> world \<Rightarrow> bool" where
  "untouched h w w' \<longleftrightarrow> (\<forall>q. h \<noteq> Some q \<longrightarrow> w_objects w' q = w_objects w q) \<and> blocks (w_heap w') = blocks (w_heap w)"

definition method_ok :: "receiver \<Rightarrow> string \<Rightarrow> world \<Rightarrow> call_end \<times> world \<Rightarrow> bool" where
  "method_ok this name w r \<longleftrightarrow> untouched (handle_of this) w (snd r) \<and>
     (case fst r of
        Ended (Started op reqs) \<Rightarrow> list_all (\<lambda>q. target q = handle_of this) reqs \<and>
          map_of failure_texts (class_of this, name) = Some (failure_prefix op)
      | Ended (Performed reqs) \<Rightarrow> list_all (\<lambda>q. target q = handle_of this) reqs
      | _ \<Rightarrow> True)"

lemma untouched_refl [simp]: "untouched h w w"
  by (simp add: untouched_def)

lemma answers_ok [simp]: "method_ok this name w (answers f info w)"
  by (simp add: method_ok_def answers_def)

lemma ends_ok:
  assumes "case f info of
      Started op reqs \<Rightarrow> list_all (\<lambda>q. target q = handle_of this) reqs \<and>
        map_of failure_texts (class_of this, name) = Some (failure_prefix op)
    | Performed reqs \<Rightarrow> list_all (\<lambda>q. target q = handle_of this) reqs
    | _ \<Rightarrow> True"
  shows "method_ok this name w (ends f info w)"
  using assms by (simp add: method_ok_def ends_def)

lemma with_unwrapped_started:
  "(case with_unwrapped u (\<lambda>x. Started op (reqs x)) of Started op' rs \<Rightarrow> P op' rs | Performed rs \<Rightarrow> Q rs | _ \<Rightarrow> True) \<longleftrightarrow>
     (case u of Inl e \<Rightarrow> True | Inr x \<Rightarrow> P op (reqs x))"
  "(case with_unwrapped u (\<lambda>x. Performed (reqs x)) of Started op' rs \<Rightarrow> P op' rs | Performed rs \<Rightarrow> Q rs | _ \<Rightarrow> True) \<longleftrightarrow>
     (case u of Inl e \<Rightarrow> True | Inr x \<Rightarrow> Q (reqs x))"
  by (simp_all add: with_unwrapped_def split: sum.split)

lemmas method_eval = handle_of_def class_of_def failure_texts_def with_unwrapped_started

lemma consumer_methods_ok:
  "list_all (\<lambda>(name, m). method_ok (On_Consumer p) name w (m info w)) (consumer_methods H p)"
proof -
  have "method_ok (On_Consumer p) ''receive'' w
      (case Consumer_Receive (h_napi H) p info of Inl e \<Rightarrow> Ended e | Inr c \<Rightarrow> Queued c, w)"
    by (simp add: method_ok_def Consumer_Receive_def method_eval)
  moreover have "method_ok (On_Consumer p) ''close'' w (closes Consumer_Close p info w)"
    by (simp add: method_ok_def closes_def Consumer_Close_def Let_def untouched_def method_eval split: option.split)
  ultimately show ?thesis
    unfolding consumer_methods_def list.pred_inject split_conv
    by (intro conjI TrueI answers_ok ends_ok)
      (simp_all add: Consumer_BatchReceive_def Consumer_Acknowledge_def Consumer_AcknowledgeId_def
        Consumer_NegativeAcknowledge_def Consumer_NegativeAcknowledgeId_def Consumer_AcknowledgeCumulative_def
        Consumer_AcknowledgeCumulativeId_def Consumer_Seek_def Consumer_SeekTimestamp_def Consumer_Unsubscribe_def method_eval
        split: sum.split)
qed

lemma reader_methods_ok:
  "list_all (\<lambda>(name, m). method_ok (On_Reader p) name w (m info w)) (reader_methods H p)"
proof -
  have "method_ok (On_Reader p) ''close'' w (closes Reader_Close p info w)"
    by (simp add: method_ok_def closes_def Reader_Close_def untouched_def method_eval)
  moreover have "method_ok (On_Reader p) ''readNext'' w (Queued c, w)" for c by (simp add: method_ok_def)
  ultimately show ?thesis
    unfolding reader_methods_def list.pred_inject split_conv
    by (intro conjI TrueI answers_ok ends_ok)
      (simp_all add: Reader_Seek_def Reader_SeekTimestamp_def method_eval split: sum.split)
qed

lemma producer_methods_ok:
  assumes "heap_wf (w_heap w)"
  shows "list_all (\<lambda>(name, m). method_ok (On_Producer p) name w (m info w)) (producer_methods H p)"
proof -
  obtain h' where "BuildMessage (h_napi H) (info_arg info 0) (w_heap w) = Continue (message_calls (h_napi H) (info_arg info 0), h')"
    and "blocks h' = blocks (w_heap w)"
    using BuildMessage_result [OF assms] by blast
  then have "method_ok (On_Producer p) ''send'' w
      (case Producer_Send (h_napi H) (w_heap w) p info of (e, h) \<Rightarrow> (Ended e, w\<lparr>w_heap := h\<rparr>))"
    by (simp add: method_ok_def Producer_Send_def untouched_def method_eval)
  then show ?thesis
    unfolding producer_methods_def list.pred_inject split_conv
    by (intro conjI TrueI answers_ok ends_ok) (simp_all add: Producer_Flush_def Producer_Close_def method_eval)
qed

lemma client_methods_ok:
  "list_all (\<lambda>(name, m). method_ok On_Client name w (m info w)) (client_methods H)"
  unfolding client_methods_def list.pred_inject split_conv
  by (intro conjI TrueI ends_ok)
    (auto simp: Client_CreateProducer_def Client_Subscribe_def Client_CreateReader_def Client_GetPartitionsForTopic_def
      Client_GetSchemaInfo_def Client_Close_def Producer_NewInstance_def Consumer_NewInstance_def Reader_NewInstance_def
      subscribe_request_def Let_def method_eval split: flow.split js_value.split option.split prod.split)

lemma value_methods_ok:
  "list_all (\<lambda>(name, m). method_ok (On_Message x) name w (m info w)) (message_methods H x)"
  "list_all (\<lambda>(name, m). method_ok (On_MessageId v) name w (m info w)) (messageId_methods H v)"
  by (simp_all add: message_methods_def messageId_methods_def Let_def) (simp add: method_ok_def)

lemma methods_ok:
  "heap_wf (w_heap w) \<Longrightarrow> list_all (\<lambda>(name, m). method_ok this name w (m info w)) (methods_of H this)"
  using consumer_methods_ok reader_methods_ok producer_methods_ok client_methods_ok value_methods_ok by (cases this) simp_all

lemma invoke_ok:
  assumes "heap_wf (w_heap w)"
  shows "method_ok this name w (invoke H this name info w)"
  using methods_ok [OF assms, of this info H]
  by (auto simp: invoke_def list_all_iff method_ok_def dest!: map_of_SomeD split: option.split)

lemma failed_answer:
  assumes "r \<noteq> pulsar_result_Ok"
  shows "\<exists>c. fire (on_result rs) r p (ExtDeferredContext op) = Inr c \<and>
    answer copy (call_deferred c) = Rejected (failure_prefix op @ rs r)"
proof -
  have "map_sum id (answer copy) (on_result rs op r p New) = Inr (settled_answer copy rs op r p)"
    by (rule on_result_answer) simp
  with assms show ?thesis
    by (cases "on_result rs op r p New") (auto simp: fire_def ExtDeferredContext_def settled_answer_def)
qed

subsection \<open>What is declared\<close>

text \<open>The methods \<open>index.d.ts\<close> declares for each class, in its order.\<close>

definition declared_methods :: "(string \<times> string list) list" where
  "declared_methods =
     [(''Client'', [''createProducer'', ''subscribe'', ''createReader'', ''getPartitionsForTopic'', ''getSchemaInfo'', ''close'']),
      (''Producer'', [''send'', ''flush'', ''close'', ''getProducerName'', ''getTopic'', ''isConnected'']),
      (''Consumer'', [''receive'', ''batchReceive'', ''acknowledge'', ''acknowledgeId'', ''negativeAcknowledge'',
         ''negativeAcknowledgeId'', ''acknowledgeCumulative'', ''acknowledgeCumulativeId'', ''seek'', ''seekTimestamp'',
         ''isConnected'', ''close'', ''unsubscribe'']),
      (''Reader'', [''readNext'', ''hasNext'', ''isConnected'', ''seek'', ''seekTimestamp'', ''close'']),
      (''Message'', [''getTopicName'', ''getProperties'', ''getData'', ''getMessageId'', ''getPublishTimestamp'',
         ''getEventTimestamp'', ''getRedeliveryCount'', ''getPartitionKey'', ''getOrderingKey'', ''getProducerName'',
         ''isReplicated'', ''getReplicatedFrom'', ''getLongSchemaVersion'', ''getEncryptionContext'']),
      (''MessageId'', [''serialize'', ''toString''])]"

text \<open>The tables register exactly the declared methods, so that no declared method is missing.\<close>

lemma methods_declared: "map_of declared_methods (class_of this) = Some (map fst (methods_of H this))"
  by (cases this) (simp_all add: declared_methods_def class_of_def client_methods_def producer_methods_def
      consumer_methods_def reader_methods_def message_methods_def messageId_methods_def Let_def)

text \<open>JavaScript can construct five of the eight classes.\<close>

lemma InitAll_exports:
  "InitAll [] = [(''Message'', Class_Message), (''MessageId'', Class_MessageId), (''Authentication'', Class_Authentication),
     (''CryptoKeyReader'', Class_CryptoKeyReader), (''Client'', Class_Client)]"
  by (simp add: InitAll_def init_def)

subsection \<open>Properties\<close>


definition example_world :: world where
  "example_world = \<lparr>w_objects = (\<lambda>q. new_object q), w_heap = \<lparr>blocks = Map.empty, fresh = 1\<rparr>\<rparr>"

definition example_host :: host where
  "example_host = \<lparr>h_napi = napi_ref, h_setPolicy = (\<lambda>_. 0), h_str = (\<lambda>_. ''''), h_messages = (\<lambda>_. example_received),
     h_ids = \<lparr>lib_earliest = 0, lib_latest = 1, lib_serialize = (\<lambda>p. []), lib_deserialize = length, lib_str = (\<lambda>p. '''')\<rparr>,
     h_producer_name = (\<lambda>_. ''''), h_topic = (\<lambda>_. ''''), h_connected = (\<lambda>_. 1), h_has_next = (\<lambda>_. (pulsar_result_Ok, 1))\<rparr>"


end
