(* ===== verification/Js_Wrappers.thy ===== *)
theory Js_Wrappers
  imports Client_Config Authentication
begin

section \<open>The JavaScript wrappers\<close>

text \<open>
  \<open>src/Client.js\<close> and \<open>src/Authentication*.js\<close>: the classes an application uses. The
  wrapper of the client chooses the certificates the package was installed with when the application
  names none; the wrappers of the authentication methods hold the native object in a property
  \<open>binding\<close>, where \<open>Client.cc\<close> looks for it. The theorem composes them with the native
  constructors. Parameters are \<open>JSON.stringify\<close> and the pointer the C client returns for an
  authentication it creates; \<open>certsFilePath\<close> depends on where the package is installed.
\<close>

subsection \<open>JavaScript\<close>

fun truthy :: "js_value \<Rightarrow> bool" where
  "truthy JUndefined \<longleftrightarrow> False"
| "truthy JNull \<longleftrightarrow> False"
| "truthy (JBoolean b) \<longleftrightarrow> b"
| "truthy (JNumber n) \<longleftrightarrow> n \<noteq> NaN \<and> n \<noteq> Finite 0"
| "truthy (JString s) \<longleftrightarrow> s \<noteq> []"
| "truthy _ \<longleftrightarrow> True"

text \<open>\<open>typeof v === 'object'\<close>, which holds for \<open>null\<close> and not for functions.\<close>

definition typeof_object :: "js_value \<Rightarrow> bool" where
  "typeof_object v \<longleftrightarrow> v = JNull \<or> (IsObject v \<and> \<not> IsFunction v)"

text \<open>
  Assigning a property. The result is an object with the properties of the old one; which kind of
  object it is makes no difference to code that only reads named properties.
\<close>

definition assign_property :: "string \<Rightarrow> js_value \<Rightarrow> js_value \<Rightarrow> js_value" where
  "assign_property k v obj = (case obj of
       JNative n ps \<Rightarrow> JNative n (AList.update k v ps)
     | _ \<Rightarrow> JObject (AList.update k v (props obj)))"

subsection \<open>The classes\<close>

text \<open>
  The constructor of \<open>Client\<close>: reading a property of \<open>undefined\<close> or \<open>null\<close> throws,
  and so does assigning one to another primitive value, since class bodies are strict; in both cases the
  native constructor is not reached. \<open>Inr\<close> is how the native constructor ends.
\<close>

definition js_Client ::
  "string \<Rightarrow> napi \<Rightarrow> failover_defaults \<Rightarrow> (service \<Rightarrow> client_call list \<Rightarrow> string option) \<Rightarrow> js_value \<Rightarrow> log_state \<Rightarrow>
     exn + client flow" where
  "js_Client certsFilePath N D create params L =
     (if params = JUndefined \<or> params = JNull then Inl (JsTypeError ''Cannot read properties of undefined or null'')
      else if \<not> truthy (Get params ''tlsTrustCertsFilePath'') then
        (if \<not> IsObject params then Inl (JsTypeError ''Cannot create property on a primitive value'')
         else Inr (Client N D create (assign_property ''tlsTrustCertsFilePath'' (JString certsFilePath) params) L))
      else Inr (Client N D create params L))"

text \<open>A native authentication object; \<open>new_auth\<close> is the pointer to what the C client made.\<close>

definition native_Authentication :: "(auth_call \<Rightarrow> ptr) \<Rightarrow> js_value list \<Rightarrow> exn + js_value" where
  "native_Authentication new_auth info = (case Authentication info of
       Throw e a \<Rightarrow> Inl e
     | Return a \<Rightarrow> Inr (JNative (N_Authentication (map_option new_auth (cAuthentication a))) [])
     | Continue a \<Rightarrow> Inr (JNative (N_Authentication (map_option new_auth (cAuthentication a))) []))"

definition wrap_binding :: "exn + js_value \<Rightarrow> exn + js_value" where
  "wrap_binding r = map_sum id (\<lambda>b. JObject [(''binding'', b)]) r"

definition AuthenticationTls :: "(auth_call \<Rightarrow> ptr) \<Rightarrow> js_value \<Rightarrow> exn + js_value" where
  "AuthenticationTls new_auth params = wrap_binding (native_Authentication new_auth [JString ''tls'', params])"

definition AuthenticationToken :: "(auth_call \<Rightarrow> ptr) \<Rightarrow> js_value \<Rightarrow> exn + js_value" where
  "AuthenticationToken new_auth params = wrap_binding (native_Authentication new_auth [JString ''token'', params])"

definition AuthenticationBasic :: "(auth_call \<Rightarrow> ptr) \<Rightarrow> js_value \<Rightarrow> exn + js_value" where
  "AuthenticationBasic new_auth params = wrap_binding (native_Authentication new_auth [JString ''basic'', params])"

definition params_string :: "(js_value \<Rightarrow> string) \<Rightarrow> js_value \<Rightarrow> js_value" where
  "params_string stringify params = (if typeof_object params then JString (stringify params) else params)"

definition AuthenticationAthenz :: "(js_value \<Rightarrow> string) \<Rightarrow> (auth_call \<Rightarrow> ptr) \<Rightarrow> js_value \<Rightarrow> exn + js_value" where
  "AuthenticationAthenz stringify new_auth params =
     wrap_binding (native_Authentication new_auth [JString ''athenz'', params_string stringify params])"

definition AuthenticationOauth2 :: "(js_value \<Rightarrow> string) \<Rightarrow> (auth_call \<Rightarrow> ptr) \<Rightarrow> js_value \<Rightarrow> exn + js_value" where
  "AuthenticationOauth2 stringify new_auth params =
     wrap_binding (native_Authentication new_auth [JString ''oauth2'', params_string stringify params])"

lemmas wrapper_defs = AuthenticationTls_def AuthenticationToken_def AuthenticationBasic_def AuthenticationAthenz_def
  AuthenticationOauth2_def

subsection \<open>Lemmas\<close>

lemma map_of_assign: "map_of (props (assign_property k v obj)) = (map_of (props obj))(k \<mapsto> v)"
  by (cases obj) (simp_all add: assign_property_def update_conv')

lemma assign_access:
  "Get (assign_property k v obj) k = v" "Has (assign_property k v obj) k"
  "k' \<noteq> k \<Longrightarrow> Get (assign_property k v obj) k' = Get obj k'"
  "k' \<noteq> k \<Longrightarrow> Has (assign_property k v obj) k' = Has obj k'"
  by (simp_all add: Get_def Has_def map_of_assign)

text \<open>The configuration the native constructor sees, and the certificates it names.\<close>

definition seen_config :: "string \<Rightarrow> js_value \<Rightarrow> js_value" where
  "seen_config certs params = (if truthy (Get params ''tlsTrustCertsFilePath'') then params
     else assign_property ''tlsTrustCertsFilePath'' (JString certs) params)"

definition trusted :: "string \<Rightarrow> js_value \<Rightarrow> string option" where
  "trusted certs params = (if truthy (Get params ''tlsTrustCertsFilePath'') then get_string params ''tlsTrustCertsFilePath''
     else Some certs)"

lemma js_Client_native:
  "js_Client certs N D create params L = Inr r \<Longrightarrow> r = Client N D create (seen_config certs params) L"
  by (auto simp: js_Client_def seen_config_def split: if_splits)

lemma seen_config_trust: "get_string (seen_config certs params) ''tlsTrustCertsFilePath'' = trusted certs params"
  by (simp add: seen_config_def trusted_def get_string_def assign_access IsString_def)

lemma seen_config_other:
  assumes "k \<noteq> ''tlsTrustCertsFilePath''"
  shows "Get (seen_config certs params) k = Get params k" "Has (seen_config certs params) k = Has params k"
  using assms by (simp_all add: seen_config_def assign_access)

text \<open>A wrapped authentication is made from its parameters, and the client finds it.\<close>

lemma wrapped_auth:
  assumes "wrap_binding (native_Authentication new_auth info) = Inr a"
  shows "\<exists>q. made_from info q \<and> a = JObject [(''binding'', JNative (N_Authentication (Some (new_auth q))) [])]"
  using assms Authentication_ok [of info]
  by (auto simp: auth_ok_def wrap_binding_def native_Authentication_def split: flow.splits)

lemma auth_of_wrapped:
  assumes "Get cfg ''authentication'' = JObject [(''binding'', JNative (N_Authentication (Some q)) [])]"
  shows "auth_of N cfg = Inr (Some q)"
proof -
  have "Has cfg ''authentication''" using assms by (auto simp: Get_def Has_def split: option.splits)
  with assms show ?thesis
    by (simp add: auth_of_def get_object_def IsObject_def Has_def [of "JObject _"] Get_def [of "JObject _"]
        Authentication_Unwrap_def unwrap_as_def)
qed

text \<open>The objects the five classes construct, with the arguments of the native constructor.\<close>

definition constructed :: "(js_value \<Rightarrow> string) \<Rightarrow> (auth_call \<Rightarrow> ptr) \<Rightarrow> js_value list \<Rightarrow> js_value \<Rightarrow> bool" where
  "constructed stringify new_auth info a \<longleftrightarrow> (\<exists>ps.
     info = [JString ''tls'', ps] \<and> AuthenticationTls new_auth ps = Inr a \<or>
     info = [JString ''token'', ps] \<and> AuthenticationToken new_auth ps = Inr a \<or>
     info = [JString ''basic'', ps] \<and> AuthenticationBasic new_auth ps = Inr a \<or>
     info = [JString ''athenz'', params_string stringify ps] \<and> AuthenticationAthenz stringify new_auth ps = Inr a \<or>
     info = [JString ''oauth2'', params_string stringify ps] \<and> AuthenticationOauth2 stringify new_auth ps = Inr a)"

lemma constructed_auth:
  assumes "constructed stringify new_auth info a"
  shows "\<exists>q. made_from info q \<and> a = JObject [(''binding'', JNative (N_Authentication (Some (new_auth q))) [])]"
  using assms by (intro wrapped_auth) (auto simp: constructed_def wrapper_defs)

subsection \<open>Properties\<close>

text \<open>
  C18. A client made by the classes of the package has the credentials the application named: if its
  \<open>authentication\<close> was constructed by one of the five classes, the C client is given the
  authentication made from the parameters of that class; the trusted certificates are those named, or
  those of the package when none are named; and of a failover provider every service without
  credentials of its own has these.
\<close>

theorem wrapped_client_credentials:
  assumes "constructed stringify new_auth info (Get params ''authentication'')"
    and "js_Client certs N D create params L = Inr (Continue c)"
  shows "\<exists>q. made_from info q \<and> CSet_auth (new_auth q) \<in> set (cClientConfig c) \<and>
    (\<forall>t. trusted certs params = Some t \<longrightarrow> CSet_tls_trust_certs_file_path (c_str t) \<in> set (cClientConfig c)) \<and>
    (\<forall>f. cClient c = Some (Failover f) \<longrightarrow>
       (\<forall>(s, v) \<in> set (zip (primary f # secondary f)
           (Get (Get params ''serviceUrlProvider'') ''primary'' # elements (Get (Get params ''serviceUrlProvider'') ''secondary''))).
         (\<not> hasField v ''authentication'' \<longrightarrow> service_auth s = Some (new_auth q)) \<and>
         (\<not> hasField v ''tlsTrustCertsFilePath'' \<longrightarrow> service_tls s = trusted certs params)))"
proof -
  let ?cfg = "seen_config certs params"
  obtain q where q: "made_from info q" and a: "Get params ''authentication'' = JObject [(''binding'', JNative (N_Authentication (Some (new_auth q))) [])]"
    using constructed_auth [OF assms(1)] by blast
  have auth: "auth_of N ?cfg = Inr (Some (new_auth q))" using a by (intro auth_of_wrapped) (simp add: seen_config_other)
  have client: "Client N D create ?cfg L = Continue c" using js_Client_native [OF assms(2)] by simp
  with Client_spec [where N = N and D = D and create = create and cfg = ?cfg and L = L]
  have calls: "cClientConfig c = client_calls N ?cfg" by (auto split: sum.splits option.splits)
  have "(\<not> hasField v ''authentication'' \<longrightarrow> service_auth s = Some (new_auth q)) \<and>
      (\<not> hasField v ''tlsTrustCertsFilePath'' \<longrightarrow> service_tls s = trusted certs params)"
    if "cClient c = Some (Failover f)" "(s, v) \<in> set (zip (primary f # secondary f)
      (Get (Get params ''serviceUrlProvider'') ''primary'' # elements (Get (Get params ''serviceUrlProvider'') ''secondary'')))" for f s v
    using provider_inherits [OF client that(1)] that(2) by (auto simp: auth seen_config_trust seen_config_other)
  moreover have "CSet_auth (new_auth q) \<in> set (cClientConfig c)" unfolding calls by (simp add: client_calls_def auth)
  moreover have "trusted certs params = Some t \<Longrightarrow> CSet_tls_trust_certs_file_path (c_str t) \<in> set (cClientConfig c)" for t
    unfolding calls by (simp add: client_calls_def seen_config_trust cstring_calls_def)
  ultimately show ?thesis using q by blast
qed

definition example_params :: js_value where
  "example_params = JObject [(''authentication'', JObject [(''binding'', JNative (N_Authentication (Some 4)) [])]),
     (''serviceUrlProvider'', JObject [(''primary'', JString ''pulsar://a''), (''secondary'', JArray [JString ''pulsar://b''])])]"

theorem wrapped_client_credentials_witness:
  "\<exists>c. js_Client ''cert.pem'' napi_ref example_defaults (\<lambda>_ _. None) example_params \<lparr>log_handler = None, log_released = []\<rparr> =
     Inr (Continue c) \<and> CSet_auth 4 \<in> set (cClientConfig c) \<and> CSet_tls_trust_certs_file_path (c_str ''cert.pem'') \<in> set (cClientConfig c)"
proof -
  note g = example_params_def Has_def Get_def
  have t: "trusted ''cert.pem'' example_params = Some ''cert.pem''" by (simp add: trusted_def g)
  have "AuthenticationToken (\<lambda>_. 4) (JObject [(''token'', JString ''t'')]) = Inr (Get example_params ''authentication'')"
    by (simp add: g wrapper_defs wrap_binding_def native_Authentication_def auth_defs arg_def IsObject_def Let_def)
  then have w: "constructed (\<lambda>_. []) (\<lambda>_. 4) [JString ''token'', JObject [(''token'', JString ''t'')]] (Get example_params ''authentication'')"
    by (auto simp: constructed_def)
  obtain f where "target_of napi_ref example_defaults (seen_config ''cert.pem'' example_params) = Inr (Failover f)"
    by (simp add: target_of_def url_verdict_def auth_of_def provider_of_def BuildServiceInfoProvider_def BuildServiceInfo_def
        set_thresholds_def SetPositiveUint32_def seen_config_def assign_property_def g hasField_def IsPresent_def getter_defs is_defs
        Authentication_Unwrap_def unwrap_as_def)
  with Client_spec [where N = napi_ref and D = example_defaults and create = "\<lambda>_ _. None" and
      cfg = "seen_config ''cert.pem'' example_params" and L = "\<lparr>log_handler = None, log_released = []\<rparr>"]
  obtain c where "Client napi_ref example_defaults (\<lambda>_ _. None) (seen_config ''cert.pem'' example_params)
      \<lparr>log_handler = None, log_released = []\<rparr> = Continue c" by auto
  then have c: "js_Client ''cert.pem'' napi_ref example_defaults (\<lambda>_ _. None) example_params \<lparr>log_handler = None, log_released = []\<rparr> =
      Inr (Continue c)"
    by (simp add: js_Client_def seen_config_def g IsObject_def)
  with wrapped_client_credentials [OF w c] t show ?thesis by auto
qed

end
