(* ===== verification/Js_Package.thy ===== *)
theory Js_Package
  imports Addon Js_Wrappers
begin

section \<open>The rest of the JavaScript package\<close>

text \<open>
  The methods of \<open>src/Client.js\<close>, which forward to the native client, \<open>genCertFile\<close>, which
  writes the certificates the package trusts by default, and \<open>src/ProtobufNativeSchema.js\<close>, which
  makes the schema object that \<open>SchemaInfo\<close> reads. The library protobufjs, \<open>JSON.stringify\<close> and
  the encoding in base 64 are parameters. The theorems show that the wrapper's methods are the native
  ones, and what a schema made from a protobuf type is read as.
\<close>

subsection \<open>Forwarding\<close>

text \<open>A parameter that the caller leaves out is passed on as \<open>undefined\<close>; further arguments are dropped.\<close>

definition js_client_methods :: "host \<Rightarrow> (string \<times> method_call) list" where
  "js_client_methods H =
     [(''createProducer'', \<lambda>info. invoke H On_Client ''createProducer'' [info_arg info 0]),
      (''subscribe'', \<lambda>info. invoke H On_Client ''subscribe'' [info_arg info 0]),
      (''createReader'', \<lambda>info. invoke H On_Client ''createReader'' [info_arg info 0]),
      (''getPartitionsForTopic'', \<lambda>info. invoke H On_Client ''getPartitionsForTopic'' [info_arg info 0]),
      (''getSchemaInfo'', \<lambda>info. invoke H On_Client ''getSchemaInfo'' [info_arg info 0, info_arg info 1]),
      (''close'', \<lambda>info. invoke H On_Client ''close'' [])]"

definition js_invoke :: "host \<Rightarrow> string \<Rightarrow> method_call" where
  "js_invoke H name info w = (case map_of (js_client_methods H) name of
       None \<Rightarrow> (Not_a_function, w)
     | Some m \<Rightarrow> m info w)"

text \<open>Two lists of arguments that a native method cannot tell apart.\<close>

lemma info_arg_forward [simp]: "info_arg [a, b] 0 = a" "info_arg [a, b] (Suc 0) = b"
  by (simp_all add: info_arg_def)

lemma valid_version_forward: "valid_version [a, info_arg info 1] = valid_version info"
proof (cases "2 \<le> length info")
  case False
  then have "info_arg info 1 = JUndefined" by (simp add: info_arg_def)
  with False show ?thesis by (simp add: valid_version_def)
qed (simp add: valid_version_def)

lemma native_methods:
  "invoke H On_Client ''createProducer'' = ends (Client_CreateProducer (h_napi H))"
  "invoke H On_Client ''subscribe'' = ends (Client_Subscribe (h_napi H) (h_setPolicy H))"
  "invoke H On_Client ''createReader'' = ends (Client_CreateReader (h_napi H))"
  "invoke H On_Client ''getPartitionsForTopic'' = ends (Client_GetPartitionsForTopic (h_napi H))"
  "invoke H On_Client ''getSchemaInfo'' = ends Client_GetSchemaInfo"
  "invoke H On_Client ''close'' = ends (\<lambda>info. Client_Close)"
  by (simp_all add: fun_eq_iff invoke_def client_methods_def)

lemma forwarded:
  "Client_CreateProducer N [info_arg info 0] = Client_CreateProducer N info"
  "Client_Subscribe N setPolicy [info_arg info 0] = Client_Subscribe N setPolicy info"
  "Client_CreateReader N [info_arg info 0] = Client_CreateReader N info"
  "Client_GetPartitionsForTopic N [info_arg info 0] = Client_GetPartitionsForTopic N info"
  "Client_GetSchemaInfo [info_arg info 0, info_arg info 1] = Client_GetSchemaInfo info"
  by (simp_all only: Client_CreateProducer_def Client_Subscribe_def Client_CreateReader_def Client_GetPartitionsForTopic_def
      Client_GetSchemaInfo_def Producer_NewInstance_def Consumer_NewInstance_def Reader_NewInstance_def valid_version_forward
      info_arg_Cons)

lemma js_method_same:
  "list_all (\<lambda>(name, m). m info w = invoke H On_Client name info w) (js_client_methods H)"
  by (simp add: js_client_methods_def native_methods ends_def forwarded [unfolded One_nat_def])

lemma js_client_names: "map fst (js_client_methods H) = map fst (client_methods H)"
  by (simp add: js_client_methods_def client_methods_def)

subsection \<open>genCertFile\<close>

text \<open>
  An old file is removed; \<open>unlinks\<close> is whether that succeeds, an error is caught and printed. The
  file is then opened for appending and each certificate is written with the end of line.
\<close>

definition genCertFile :: "bool \<Rightarrow> string list \<Rightarrow> string \<Rightarrow> string option \<Rightarrow> string option" where
  "genCertFile unlinks rootCertificates EOL file =
     (let file1 = (case file of None \<Rightarrow> None | Some old \<Rightarrow> (if unlinks then None else Some old));
          opened = (case file1 of None \<Rightarrow> '''' | Some old \<Rightarrow> old) in
      Some (fold (\<lambda>cert content. content @ cert @ EOL) rootCertificates opened))"

lemma fold_certs: "fold (\<lambda>cert content. content @ cert @ e) cs s = s @ concat (map (\<lambda>c. c @ e) cs)"
  by (induction cs arbitrary: s) simp_all

text \<open>
  The file holds the certificates of Node.js and nothing else, however often it is generated, unless an old
  one cannot be removed: then they are appended to it.
\<close>

lemma genCertFile_content:
  "genCertFile unlinks certs e file =
     Some ((if unlinks then '''' else case file of None \<Rightarrow> '''' | Some old \<Rightarrow> old) @ concat (map (\<lambda>c. c @ e) certs))"
  by (simp add: genCertFile_def Let_def fold_certs split: option.split)

lemma genCertFile_again: "genCertFile True certs e (genCertFile True certs e file) = genCertFile True certs e file"
  by (simp add: genCertFile_content)

subsection \<open>Schemas from protobuf types\<close>

text \<open>
  Of a root: \<open>lookupType\<close>, with the full name of the type found, \<open>lookup\<close> of a namespace,
  the bytes of the descriptor set once the file name is set on that namespace, or what resolving or
  exporting the root throws.
\<close>

record protobufjs =
  pb_lookupType :: "js_value \<Rightarrow> string \<Rightarrow> exn + string"
  pb_lookup :: "js_value \<Rightarrow> string \<Rightarrow> bool"
  pb_encode :: "js_value \<Rightarrow> string \<Rightarrow> js_value \<Rightarrow> js_value \<Rightarrow> exn + bytes"
  pb_base64 :: "bytes \<Rightarrow> string"
  pb_stringify :: "js_value \<Rightarrow> string"

text \<open>\<open>typeName.replace(/^\./, '')\<close>\<close>

definition normalizeTypeName :: "string \<Rightarrow> string" where
  "normalizeTypeName typeName = (case typeName of
       [] \<Rightarrow> []
     | c # rest \<Rightarrow> (if c = CHR ''.'' then rest else typeName))"

text \<open>\<open>split('.')\<close> and \<open>join('.')\<close>\<close>

fun split_dots :: "string \<Rightarrow> string list" where
  "split_dots [] = [[]]"
| "split_dots (c # cs) = (case split_dots cs of
       [] \<Rightarrow> [[c]]
     | p # ps \<Rightarrow> (if c = CHR ''.'' then [] # p # ps else (c # p) # ps))"

fun join_dots :: "string list \<Rightarrow> string" where
  "join_dots [] = []"
| "join_dots [p] = p"
| "join_dots (p # q # ps) = p @ CHR ''.'' # join_dots (q # ps)"

definition packageName :: "string \<Rightarrow> string" where
  "packageName t = join_dots (butlast (split_dots t))"

definition with_default :: "js_value \<Rightarrow> js_value \<Rightarrow> js_value" where
  "with_default d v = (if v = JUndefined then d else v)"

text \<open>
  The function takes its parameters from an object; \<open>Inl\<close> is what it throws. \<open>replace\<close> is a
  method of strings only, and setting the file name on the result of a failed lookup throws.
\<close>

definition createSchemaInfoFromRoot :: "protobufjs \<Rightarrow> js_value \<Rightarrow> exn + js_value" where
  "createSchemaInfoFromRoot PB params =
     (let root = Get params ''root'';
          rootMessageTypeName = Get params ''rootMessageTypeName'';
          rootFileDescriptorName = Get params ''rootFileDescriptorName'';
          schemaType = with_default (JString ''ProtobufNative'') (Get params ''schemaType'');
          syntax = with_default (JString ''proto3'') (Get params ''syntax'');
          name = with_default rootMessageTypeName (Get params ''name'');
          properties = with_default (JObject []) (Get params ''properties'') in
      if params = JUndefined \<or> params = JNull then Inl (JsTypeError ''Cannot destructure the parameter'')
      else if \<not> truthy root then Inl (JsError ''root is required'')
      else if \<not> truthy rootMessageTypeName then Inl (JsError ''rootMessageTypeName is required'')
      else if \<not> truthy rootFileDescriptorName then Inl (JsError ''rootFileDescriptorName is required'')
      else (case rootMessageTypeName of
          JString typeName \<Rightarrow>
            (let normalizedTypeName = normalizeTypeName typeName in
             case pb_lookupType PB root normalizedTypeName of
               Inl e \<Rightarrow> Inl e
             | Inr fullName \<Rightarrow>
                 (if packageName normalizedTypeName \<noteq> [] \<and> \<not> pb_lookup PB root (packageName normalizedTypeName)
                  then Inl (JsTypeError ''Cannot set properties of null'')
                  else (case pb_encode PB root (packageName normalizedTypeName) rootFileDescriptorName syntax of
                      Inl e \<Rightarrow> Inl e
                    | Inr fileDescriptorSetBytes \<Rightarrow> Inr (JObject
                        [(''schemaType'', schemaType), (''name'', name),
                         (''schema'', JString (pb_stringify PB (JObject
                            [(''fileDescriptorSet'', JString (pb_base64 PB fileDescriptorSetBytes)),
                             (''rootMessageTypeName'', JString (normalizeTypeName fullName)),
                             (''rootFileDescriptorName'', rootFileDescriptorName)]))),
                         (''properties'', properties)]))))
        | _ \<Rightarrow> Inl (JsTypeError ''typeName.replace is not a function'')))"

lemma split_dots_ne: "split_dots t \<noteq> []"
  by (induction t) (auto split: list.splits)

lemma join_split: "join_dots (split_dots t) = t"
proof (induction t)
  case (Cons c t)
  obtain p ps where p: "split_dots t = p # ps" using split_dots_ne [of t] by (cases "split_dots t") auto
  with Cons show ?case by (cases ps) auto
qed simp

text \<open>The package of a type is what precedes its last dot.\<close>

lemma split_dots_append: "split_dots (p @ CHR ''.'' # n) = split_dots p @ split_dots n"
proof (induction p)
  case Nil
  show ?case using split_dots_ne [of n] by (cases "split_dots n") auto
next
  case (Cons c p)
  then show ?case using split_dots_ne [of p] by (cases "split_dots p") auto
qed

lemma split_dots_plain: "CHR ''.'' \<notin> set n \<Longrightarrow> split_dots n = [n]"
  by (induction n) auto

lemma packageName_dot: "CHR ''.'' \<notin> set n \<Longrightarrow> packageName (p @ CHR ''.'' # n) = p"
  by (simp add: packageName_def split_dots_append split_dots_plain join_split)

lemma packageName_plain: "CHR ''.'' \<notin> set n \<Longrightarrow> packageName n = []"
  by (simp add: packageName_def split_dots_plain)

lemma protobuf_required:
  "\<not> truthy (Get params ''root'') \<or> \<not> truthy (Get params ''rootMessageTypeName'') \<or> \<not> truthy (Get params ''rootFileDescriptorName'') \<Longrightarrow>
     \<exists>e. createSchemaInfoFromRoot PB params = Inl e"
  by (auto simp: createSchemaInfoFromRoot_def Let_def)

subsection \<open>Properties\<close>

text \<open>
  C19. The methods of the wrapper \<open>Client\<close> are the methods of the native client: called by the same
  name with the same arguments, be they too few or too many, they end in the same way with the same
  effect, and a name that one does not know the other does not know either.
\<close>

theorem wrapper_methods_equivalent: "js_invoke H name info w = invoke H On_Client name info w"
proof (cases "map_of (js_client_methods H) name")
  case None
  then have "map_of (client_methods H) name = None"
    unfolding map_of_eq_None_iff by (metis js_client_names list.set_map)
  with None show ?thesis by (simp add: js_invoke_def invoke_def)
next
  case (Some m)
  with js_method_same [of info w H] show ?thesis
    by (auto simp: js_invoke_def list_all_iff dest: map_of_SomeD)
qed


definition example_protobuf :: protobufjs where
  "example_protobuf = \<lparr>pb_lookupType = (\<lambda>root t. Inr (CHR ''.'' # t)), pb_lookup = (\<lambda>root p. True), pb_encode = (\<lambda>r p f s. Inr ''bytes''),
     pb_base64 = id, pb_stringify = (\<lambda>v. case Get v ''rootMessageTypeName'' of JString t \<Rightarrow> t | _ \<Rightarrow> [])\<rparr>"


end
