(* ===== verification/Logging.thy ===== *)
theory Logging
  imports Log_Thread Callback
begin

section \<open>The addon's own log messages\<close>

text \<open>
  \<open>src/LogUtils.h\<close>: the macros with which the addon logs are calls of \<open>Client::LogMessage\<close>,
  so that its messages reach the log handler JavaScript has installed like those of the C client, but
  without the test of the level that the C client's logger makes. The one use is
  \<open>logMessageListenerError\<close> in \<open>src/Consumer.cc\<close>. \<open>LogLevel\<close> of
  \<open>index.js\<close> names the levels for handlers.
\<close>

subsection \<open>Levels and macros\<close>

datatype pulsar_logger_level = pulsar_DEBUG | pulsar_INFO | pulsar_WARN | pulsar_ERROR

text \<open>The enumeration of the C client counts from zero.\<close>

primrec level_number :: "pulsar_logger_level \<Rightarrow> int32" where
  "level_number pulsar_DEBUG = 0"
| "level_number pulsar_INFO = 1"
| "level_number pulsar_WARN = 2"
| "level_number pulsar_ERROR = 3"

text \<open>
  The message is a C string. \<open>file\<close> and \<open>line\<close> are the place of the macro;
  \<open>acquired\<close> is whether the handler's function can be acquired.
\<close>

definition LOG :: "bool \<Rightarrow> log_state \<Rightarrow> pulsar_logger_level \<Rightarrow> string \<Rightarrow> int32 \<Rightarrow> string \<Rightarrow> (nat \<times> js_value list) option" where
  "LOG acquired L level file line message = LogMessage acquired L (level_number level) file line (c_str message)"

definition LOG_DEBUG :: "bool \<Rightarrow> log_state \<Rightarrow> string \<Rightarrow> int32 \<Rightarrow> string \<Rightarrow> (nat \<times> js_value list) option" where
  "LOG_DEBUG acquired L = LOG acquired L pulsar_DEBUG"

definition LOG_INFO :: "bool \<Rightarrow> log_state \<Rightarrow> string \<Rightarrow> int32 \<Rightarrow> string \<Rightarrow> (nat \<times> js_value list) option" where
  "LOG_INFO acquired L = LOG acquired L pulsar_INFO"

definition LOG_WARN :: "bool \<Rightarrow> log_state \<Rightarrow> string \<Rightarrow> int32 \<Rightarrow> string \<Rightarrow> (nat \<times> js_value list) option" where
  "LOG_WARN acquired L = LOG acquired L pulsar_WARN"

definition LOG_ERROR :: "bool \<Rightarrow> log_state \<Rightarrow> string \<Rightarrow> int32 \<Rightarrow> string \<Rightarrow> (nat \<times> js_value list) option" where
  "LOG_ERROR acquired L = LOG acquired L pulsar_ERROR"

text \<open>The calls of the log handler that a delivery to a consumer's listener makes.\<close>

definition listener_log :: "bool \<Rightarrow> log_state \<Rightarrow> string \<Rightarrow> string \<Rightarrow> string \<Rightarrow> call_result \<Rightarrow> (nat \<times> js_value list) list" where
  "listener_log acquired L file topic subscription ret =
     List.map_filter (LOG_ERROR acquired L file 73) (logged (MessageListenerProxy
       (Consumer_GetTopic topic) (Consumer_GetSubscriptionName subscription) ret))"

subsection \<open>LogLevel of index.js\<close>

text \<open>
  The strict equality of JavaScript on primitive values and functions, and the object \<open>LogLevel\<close>,
  whose method \<open>toString\<close> finds the name of a level; the method itself is one of the keys.
\<close>

definition strict_equal :: "js_value \<Rightarrow> js_value \<Rightarrow> bool" where
  "strict_equal v w \<longleftrightarrow> v = w \<and> v \<noteq> JNumber NaN"

definition LogLevel :: "nat \<Rightarrow> (string \<times> js_value) list" where
  "LogLevel f = [(''DEBUG'', JNumber (Finite 0)), (''INFO'', JNumber (Finite 1)), (''WARN'', JNumber (Finite 2)),
     (''ERROR'', JNumber (Finite 3)), (''toString'', JFunction f)]"

definition LogLevel_toString :: "nat \<Rightarrow> js_value \<Rightarrow> string option" where
  "LogLevel_toString f level = map_option fst (List.find (\<lambda>(k, v). strict_equal v level) (LogLevel f))"

definition level_name :: "pulsar_logger_level \<Rightarrow> string" where
  "level_name l = (case l of pulsar_DEBUG \<Rightarrow> ''DEBUG'' | pulsar_INFO \<Rightarrow> ''INFO'' | pulsar_WARN \<Rightarrow> ''WARN'' | pulsar_ERROR \<Rightarrow> ''ERROR'')"

lemma Number_New_level: "Number_New (sint (level_number l)) = JNumber (Finite (of_int (sint (level_number l))))"
  by (cases l) (simp_all add: Number_New_exact)

lemma LogLevel_names: "LogLevel_toString f (Number_New (sint (level_number l))) = Some (level_name l)"
  unfolding Number_New_level
  by (cases l) (simp_all add: LogLevel_toString_def LogLevel_def strict_equal_def level_name_def)

lemma LOG_calls:
  "LOG acquired L level file line message = (case log_handler L of
       None \<Rightarrow> None
     | Some f \<Rightarrow> if acquired then Some (f, [Number_New (sint (level_number level)), JString file, Number_New (sint line),
         JString (c_str message)]) else None)"
  by (simp add: LOG_def LogMessage_def LogMessageProxy_def split: option.split)

subsection \<open>Properties\<close>

text \<open>
  C36. An error in a consumer's listener is reported: if the listener throws or its promise is rejected
  while a log handler is installed and not closing, the handler is called once, with the level that
  \<open>LogLevel.toString\<close> names \<open>ERROR\<close> and a message that names topic, subscription and error
  (up to a NUL), and the thread that delivered the message goes on. A listener that ends well, or a removed
  handler, makes no call. This does not depend on the level configured for the client.
\<close>

theorem listener_error_reported:
  assumes "ret = Throws err \<or> ret = ReturnsPromise (Rejects err)" and "SetLogHandler (JFunction f) L = Continue L'"
  shows "\<exists>level. listener_log True L' file topic subscription ret =
      [(f, [level, JString file, JNumber (Finite 73),
         JString (''['' @ c_str topic @ '']['' @ c_str subscription @ ''] Message listener error in processing message: '' @ c_str err)])] \<and>
      LogLevel_toString g level = Some ''ERROR'' \<and>
      (\<exists>r. MessageListener True True topic subscription ret = Some (Resumed r)) \<and>
      listener_log True (release_handler L') file topic subscription ret = [] \<and>
      listener_log True L' file topic subscription (Returns v) = []"
proof -
  have f: "log_handler L' = Some f" using assms(2) by (auto simp: SetLogHandler_def install_handler_def)
  then have n: "log_handler (release_handler L') = None" by (simp add: release_handler_def)
  have l: "logged (MessageListenerProxy t u ret) = [logMessageListenerError t u err]"
    "callbacks (MessageListenerProxy t u ret) = 1" for t u
    using assms(1) by (auto simp: proxy_defs Let_def)
  have r: "logged (MessageListenerProxy t u (Returns v)) = []" for t u by (simp add: proxy_defs Let_def)
  have "c_str (logMessageListenerError (c_str topic) (c_str subscription) err) = ''['' @ c_str topic @ '']['' @ c_str subscription @
      ''] Message listener error in processing message: '' @ c_str err"
    unfolding logMessageListenerError_def append_assoc [symmetric] by (rule c_str_append) simp
  moreover have "LogLevel_toString g (Number_New (sint (level_number pulsar_ERROR))) = Some ''ERROR''"
    by (simp only: LogLevel_names level_name_def pulsar_logger_level.case)
  moreover have "Number_New 73 = JNumber (Finite 73)" using Number_New_exact [of 73] by simp
  ultimately show ?thesis using f n l r
    by (simp add: listener_log_def LOG_ERROR_def LOG_calls List.map_filter_def Consumer_GetTopic_def
        Consumer_GetSubscriptionName_def MessageListener_def wait_for_def del: append.simps append_assoc)
qed

theorem listener_error_reported_witness:
  "\<exists>L'. SetLogHandler (JFunction 4) \<lparr>log_handler = None, log_released = []\<rparr> = Continue L' \<and>
     length (listener_log True L' ''Consumer.cc'' ''t'' ''s'' (Throws ''x'')) = 1"
proof -
  obtain L' where "SetLogHandler (JFunction 4) \<lparr>log_handler = None, log_released = []\<rparr> = Continue L'"
    by (simp add: SetLogHandler_def)
  with listener_error_reported [OF _ this, of "Throws ''x''" "''x''" "''Consumer.cc''" "''t''" "''s''"] show ?thesis
    by fastforce
qed

end
