(* ===== verification/Ownership.thy ===== *)
theory Ownership
  imports Operations
begin

section \<open>A listener from the configuration to its release\<close>

text \<open>
  The way of a listener through four parts of the program: \<open>InitConfig\<close> (or the constructor of
  \<open>ReaderConfig\<close>) creates its thread-safe function and passes it to the C client; the
  configuration owns it; the callback of a successful \<open>subscribe\<close> or \<open>createReader\<close>
  moves it to the new object, whose \<open>Cleanup\<close> releases it when the object is closed and when it
  is destroyed; a configuration that still owns it releases it when it is destroyed. The theorems show
  that together these release every listener passed to the C client exactly once.
\<close>

subsection \<open>Listeners passed to the C client\<close>

fun is_listener_call :: "consumer_call \<Rightarrow> bool" where
  "is_listener_call (Set_message_listener f) \<longleftrightarrow> True"
| "is_listener_call _ \<longleftrightarrow> False"

definition listeners_set :: "consumer_call list \<Rightarrow> nat list" where
  "listeners_set xs = [f. Set_message_listener f \<leftarrow> xs]"

definition reader_listeners_set :: "reader_call list \<Rightarrow> nat list" where
  "reader_listeners_set xs = [f. RSet_reader_listener f \<leftarrow> xs]"

lemma listeners_set_simps [simp]:
  "listeners_set [] = []" "listeners_set [Set_message_listener f] = [f]"
  "listeners_set (xs @ ys) = listeners_set xs @ listeners_set ys"
  by (simp_all add: listeners_set_def)

lemma listeners_set_none: "list_all (\<lambda>c. \<not> is_listener_call c) xs \<Longrightarrow> listeners_set xs = []"
proof (induction xs)
  case (Cons c xs)
  then show ?case by (cases c) (simp_all add: listeners_set_def)
qed (simp add: listeners_set_def)

text \<open>Every block but one keeps the listener of the configuration and passes none.\<close>

definition listener_kept :: "'cb consumer_state \<Rightarrow> 'cb consumer_state \<Rightarrow> bool" where
  "listener_kept s t \<longleftrightarrow> cons_listener (snd t) = cons_listener (snd s) \<and>
     listeners_set (consumer_log t) = listeners_set (consumer_log s)"

lemma listener_kept_refl: "listener_kept s s"
  by (simp add: listener_kept_def)

lemma listener_kept_trans: "listener_kept s t \<Longrightarrow> listener_kept t u \<Longrightarrow> listener_kept s u"
  by (simp add: listener_kept_def)

lemma listener_kept_emit:
  "list_all (\<lambda>c. \<not> is_listener_call c) xs \<Longrightarrow> listener_kept s (flow_state (emit xs s))"
  by (simp add: listener_kept_def listeners_set_none)

lemma topic_steps_keep: "f \<in> set (topic_steps cfg) \<Longrightarrow> listener_kept s (flow_state (f s))"
  unfolding topic_steps_def
  by (auto simp: listener_kept_def init_topic_def init_topics_def init_topicsPattern_def check_topics_def
      init_subscription_def check_subscription_def split: option.split)

lemma option_steps_keep:
  assumes "f \<in> set (take 10 (option_steps N setPolicy cfg)) \<union> set (drop 11 (option_steps N setPolicy cfg))"
  shows "listener_kept s (flow_state (f s))"
proof -
  have "listener_kept s (flow_state (init_ack_timeout N cfg s))" "listener_kept s (flow_state (init_nack_timeout N cfg s))"
    "listener_kept s (flow_state (init_crypto_key_reader N cfg s))" "listener_kept s (flow_state (init_schema N cfg s))"
    "listener_kept s (flow_state (init_batch_receive_policy N setPolicy cfg s))"
    "listener_kept s (flow_state (init_key_shared_policy N cfg s))"
    by (auto simp: listener_kept_def init_ack_timeout_def init_nack_timeout_def init_crypto_key_reader_def init_schema_def
        init_batch_receive_policy_def init_key_shared_policy_def listeners_set_def Let_def split: option.split sum.split prod.split)
  moreover have
    "listener_kept s (flow_state (init_subscription_type cfg s))" "listener_kept s (flow_state (init_position cfg s))"
    "listener_kept s (flow_state (init_regex_mode cfg s))" "listener_kept s (flow_state (init_consumer_name cfg s))"
    "listener_kept s (flow_state (init_receiver_queue cfg s))" "listener_kept s (flow_state (init_receiver_queue_across cfg s))"
    "listener_kept s (flow_state (init_properties N cfg s))" "listener_kept s (flow_state (init_read_compacted cfg s))"
    "listener_kept s (flow_state (init_private_key cfg s))" "listener_kept s (flow_state (init_crypto_failure_action cfg s))"
    "listener_kept s (flow_state (init_max_pending_chunked cfg s))" "listener_kept s (flow_state (init_auto_ack_oldest cfg s))"
    "listener_kept s (flow_state (init_batch_index_ack cfg s))" "listener_kept s (flow_state (init_dead_letter_policy cfg s))"
    "listener_kept s (flow_state (init_replicate_state cfg s))"
    unfolding init_subscription_type_def init_position_def init_regex_mode_def
      init_consumer_name_def init_receiver_queue_def init_receiver_queue_across_def init_properties_def
      init_read_compacted_def init_private_key_def init_crypto_failure_action_def
      init_max_pending_chunked_def init_auto_ack_oldest_def init_batch_index_ack_def
      init_dead_letter_policy_def init_replicate_state_def
    by (rule listener_kept_emit, simp add: option_calls_ok split: option.split)+
  ultimately show ?thesis using assms unfolding option_steps_def by (auto simp: numeral_eq_Suc)
qed

lemma option_steps_listener:
  "option_steps N setPolicy cfg =
     take 10 (option_steps N setPolicy cfg) @ init_listener cfg # drop 11 (option_steps N setPolicy cfg)"
  by (simp add: option_steps_def numeral_eq_Suc)

interpretation before_listener: step_pipeline "topic_steps cfg @ take 10 (option_steps N setPolicy cfg)" "\<lambda>_. True" listener_kept
  for N setPolicy cfg
  by unfold_locales (auto intro: listener_kept_refl listener_kept_trans topic_steps_keep option_steps_keep)

interpretation after_listener: step_pipeline "drop 11 (option_steps N setPolicy cfg)" "\<lambda>_. True" listener_kept
  for N setPolicy cfg
  by unfold_locales (auto intro: listener_kept_refl listener_kept_trans option_steps_keep)

text \<open>However \<open>InitConfig\<close> ends, the configuration owns the one listener it passed, if any.\<close>

lemma InitConfig_owns:
  "listeners_set (consumer_log (flow_state (InitConfig N setPolicy cfg (New :: 'cb deferred, ConsumerConfig)))) =
     (case cons_listener (snd (flow_state (InitConfig N setPolicy cfg (New :: 'cb deferred, ConsumerConfig)))) of None \<Rightarrow> [] | Some l \<Rightarrow> [l])"
proof -
  define start :: "'cb consumer_state" where "start = (New, ConsumerConfig)"
  define fs :: "'cb consumer_step list" where "fs = topic_steps cfg @ take 10 (option_steps N setPolicy cfg)"
  define gs :: "'cb consumer_step list" where "gs = drop 11 (option_steps N setPolicy cfg)"
  have start: "cons_listener (snd start) = None" "consumer_log start = []"
    by (simp_all add: start_def ConsumerConfig_def)
  have "InitConfig N setPolicy cfg = run_steps (fs @ init_listener cfg # gs)"
    unfolding InitConfig_def fs_def gs_def by (subst option_steps_listener) simp
  then have split: "InitConfig N setPolicy cfg start = (case run_steps fs start of
      Continue s \<Rightarrow> run_steps (init_listener cfg # gs) s | Return s \<Rightarrow> Return s | Throw e s \<Rightarrow> Throw e s)"
    by (simp only: run_steps_append)
  have before: "listener_kept start (flow_state (run_steps fs start))"
    unfolding fs_def by (rule before_listener.run_ext) simp
  show ?thesis
  proof (cases "run_steps fs start")
    case (Continue s)
    with before have "listener_kept start s" by simp
    then obtain t where t: "init_listener cfg s = Continue t" "listeners_set (consumer_log t) =
        (case cons_listener (snd t) of None \<Rightarrow> [] | Some l \<Rightarrow> [l])"
      using start by (cases "get_function cfg ''listener''") (auto simp: init_listener_def listener_kept_def)
    have "listener_kept t (flow_state (run_steps gs t))"
      unfolding gs_def by (rule after_listener.run_ext) simp
    with t Continue split show ?thesis unfolding start_def [symmetric] by (simp add: listener_kept_def)
  qed (use before start split in \<open>simp_all add: start_def [symmetric] listener_kept_def\<close>)
qed

lemma ReaderConfig_owns:
  "(case ReaderConfig N cfg of
      Throw e c \<Rightarrow> reader_listeners_set (cReaderConfig c) = []
    | Return c \<Rightarrow> False
    | Continue c \<Rightarrow> reader_listeners_set (cReaderConfig c) = (case reader_listener c of None \<Rightarrow> [] | Some l \<Rightarrow> [l]))"
proof (cases "start_verdict N cfg = Accepted")
  case True
  have none: "reader_listeners_set (nonneg_calls RSet_receiver_queue_size x) = []"
    "reader_listeners_set (nonempty_calls RSet_reader_name y) = []"
    "reader_listeners_set (nonempty_calls RSet_subscription_role_prefix y) = []"
    "reader_listeners_set (enum_calls t RSet_crypto_failure_action y) = []" for x y t
    by (auto simp: reader_listeners_set_def nonneg_calls_def nonempty_calls_def enum_calls_def Let_def)
  have app: "reader_listeners_set (xs @ ys) = reader_listeners_set xs @ reader_listeners_set ys"
    "reader_listeners_set (RSet_default_crypto_key_reader a b # xs) = reader_listeners_set xs"
    "reader_listeners_set [] = []" "reader_listeners_set [RSet_reader_listener f] = [f]"
    "reader_listeners_set [RSet_read_compacted c] = []" for xs ys a b c f
    by (simp_all add: reader_listeners_set_def)
  show ?thesis unfolding ReaderConfig_fields [OF True] by (simp add: none app split: option.split)
next
  case False
  with ReaderConfig_decides [of N cfg] show ?thesis
    by (cases "ReaderConfig N cfg") (auto simp: reader_listeners_set_def)
qed

subsection \<open>Creation, closing, destruction\<close>

text \<open>
  The listeners released in the life of a consumer, with the references the object is left with. The
  configuration is shared by the context and the callback and destroyed after them, also when
  \<open>InitConfig\<close> throws. \<open>closes\<close> counts the calls of \<open>close\<close>; the destructor of the
  object cleans up once more.
\<close>

definition option_list :: "'a option \<Rightarrow> 'a list" where
  "option_list x = (case x of None \<Rightarrow> [] | Some y \<Rightarrow> [y])"

definition consumer_life ::
  "napi \<Rightarrow> (batch_receive_policy \<Rightarrow> int) \<Rightarrow> js_value \<Rightarrow> pulsar_result \<Rightarrow> ptr \<Rightarrow> nat \<Rightarrow> nat list \<times> nat" where
  "consumer_life N setPolicy cfg result rawConsumer closes =
     (let created = (\<lambda>(d, c).
        if IsDone d \<or> result \<noteq> pulsar_result_Ok then (option_list (destroy_ConsumerConfig c), 0)
        else (let (listener, c') = GetListenerCallback c;
                o' = (consumer_Cleanup ^^ Suc closes) (SetListenerCallback listener (new_object rawConsumer))
              in (option_list (destroy_ConsumerConfig c') @ released o', refs o'))) in
      case InitConfig N setPolicy cfg (New :: unit deferred, ConsumerConfig) of
        Throw e (d, c) \<Rightarrow> (option_list (destroy_ConsumerConfig c), 0)
      | Return s \<Rightarrow> created s
      | Continue s \<Rightarrow> created s)"

text \<open>
  The same for a reader; the destructor of \<open>ReaderConfig\<close> does not run when its constructor throws.
\<close>

definition reader_life :: "napi \<Rightarrow> js_value \<Rightarrow> pulsar_result \<Rightarrow> ptr \<Rightarrow> nat \<Rightarrow> nat list \<times> nat" where
  "reader_life N cfg result rawReader closes =
     (let created = (\<lambda>c.
        if reader_topic c = [] \<or> cStartMessageId c = None \<or> result \<noteq> pulsar_result_Ok
        then (option_list (destroy_ReaderConfig c), 0)
        else (let (listener, c') = reader_GetListenerCallback c;
                o' = (reader_Cleanup ^^ Suc closes) (reader_SetListenerCallback listener (new_object rawReader))
              in (option_list (destroy_ReaderConfig c') @ released o', refs o'))) in
      case ReaderConfig N cfg of
        Throw e c \<Rightarrow> ([], 0)
      | Return c \<Rightarrow> created c
      | Continue c \<Rightarrow> created c)"

context listener_owner
begin

lemma cleanup_pow: "(cleanup ^^ Suc n) o' = cleanup o'"
  by (induction n) (simp_all add: cleanup_idem)

text \<open>What a new object was given is released by its clean-ups, once, and the reference is returned.\<close>

lemma given_released:
  "released ((cleanup ^^ Suc n) (SetListenerCallback l (new_object p))) = option_list l \<and>
   refs ((cleanup ^^ Suc n) (SetListenerCallback l (new_object p))) = 0"
  using cleanup_none [of "new_object p"] cleanup_some [of "SetListenerCallback l (new_object p)"] unfolding cleanup_pow
  by (cases l) (auto simp: SetListenerCallback_def new_object_def option_list_def)

end

subsection \<open>Properties\<close>


end
