(* ===== verification/Send_Receive.thy ===== *)
theory Send_Receive
  imports Operations
begin

section \<open>From a sent object to a received message\<close>

text \<open>
  \<open>Producer::Send\<close> turns a JavaScript object into calls on a message of the C client; a
  consumer or reader gets a message of the C client and reads it with the accessors of
  \<open>Message\<close>. What connects the two is the C client: \<open>reports\<close> is what it promises about
  a message it delivers, in terms of the calls made on the message that was sent. The theorem composes
  the two ends.
\<close>

subsection \<open>The calls a message is made of\<close>

definition property_pairs :: "message_call list \<Rightarrow> (string \<times> string) list" where
  "property_pairs cs = concat (map (\<lambda>c. case c of M_set_property k v \<Rightarrow> [(k, v)] | _ \<Rightarrow> []) cs)"

definition reports :: "message_call list \<Rightarrow> c_message \<Rightarrow> bool" where
  "reports cs m \<longleftrightarrow>
     (\<forall>b. M_set_content b \<in> set cs \<longrightarrow> msg_data m = b) \<and>
     (\<forall>t. M_set_event_timestamp t \<in> set cs \<longrightarrow> event_timestamp m = t) \<and>
     (\<forall>k. M_set_partition_key k \<in> set cs \<longrightarrow> partitionKey m = k) \<and>
     (\<forall>k. M_set_ordering_key k \<in> set cs \<longrightarrow> orderingKey m = k) \<and>
     distinct (map fst (msg_properties m)) \<and> map_of (msg_properties m) = map_of (rev (property_pairs cs))"

lemma set_int64_calls: "set (int64_calls N f x) = {f (Int64Value N n) |n. x = Some n}"
  by (auto simp: int64_calls_def split: option.split)

lemma set_string_calls: "set (string_calls f x) = {f (c_str s) |s. x = Some s}"
  by (auto simp: string_calls_def split: option.split)

lemma property_pairs_append: "property_pairs (xs @ ys) = property_pairs xs @ property_pairs ys"
  by (simp add: property_pairs_def)

lemma property_pairs_none:
  "(\<And>k v. M_set_property k v \<notin> set xs) \<Longrightarrow> property_pairs xs = []"
  by (force simp: property_pairs_def split: message_call.split)

text \<open>The calls of the replication options; nothing a receiver can read.\<close>

definition cluster_calls :: "napi \<Rightarrow> js_value \<Rightarrow> message_call list" where
  "cluster_calls N conf = (case get_array conf ''replicationClusters'' of
       None \<Rightarrow> []
     | Some [] \<Rightarrow> [M_disable_replication]
     | Some xs \<Rightarrow> [M_set_replication_clusters (map (\<lambda>c. Some (c_str (ToString N c))) xs)])"

lemma set_cluster_calls: "set (cluster_calls N conf) \<subseteq> insert M_disable_replication (range M_set_replication_clusters)"
  by (cases "get_array conf ''replicationClusters''"; cases "the (get_array conf ''replicationClusters'')")
    (simp_all add: cluster_calls_def)

lemma message_calls_alt:
  "message_calls N conf =
     (case get_buffer conf ''data'' of None \<Rightarrow> [] | Some b \<Rightarrow> [M_set_content b]) @
     property_calls N M_set_property (get_object conf ''properties'') @
     (case get_number conf ''eventTimestamp'' of
        None \<Rightarrow> []
      | Some n \<Rightarrow> (if 0 \<le> sint (Int64Value N n) then [M_set_event_timestamp (Int64Value N n)] else [])) @
     int64_calls N M_set_sequence_id (get_number conf ''sequenceId'') @
     string_calls M_set_partition_key (get_string conf ''partitionKey'') @ cluster_calls N conf @
     int64_calls N M_set_deliver_after (get_number conf ''deliverAfter'') @
     int64_calls N M_set_deliver_at (get_number conf ''deliverAt'') @
     (if get_boolean conf ''disableReplication'' = Some True then [M_disable_replication] else []) @
     string_calls M_set_ordering_key (get_string conf ''orderingKey'')"
  by (simp add: message_calls_def cluster_calls_def)

lemma calls_made:
  "get_buffer conf ''data'' = Some b \<Longrightarrow> M_set_content b \<in> set (message_calls N conf)"
  "get_string conf ''partitionKey'' = Some s \<Longrightarrow> M_set_partition_key (c_str s) \<in> set (message_calls N conf)"
  "get_string conf ''orderingKey'' = Some s \<Longrightarrow> M_set_ordering_key (c_str s) \<in> set (message_calls N conf)"
  by (auto simp: message_calls_alt set_string_calls)

lemma property_pairs_message:
  "property_pairs (message_calls N conf) = (case get_object conf ''properties'' of
       None \<Rightarrow> []
     | Some o' \<Rightarrow> map (\<lambda>(k, v). (c_str k, c_str v)) (string_properties N o'))"
proof -
  have "property_pairs (property_calls N M_set_property x) = (case x of
       None \<Rightarrow> []
     | Some o' \<Rightarrow> map (\<lambda>(k, v). (c_str k, c_str v)) (string_properties N o'))" for x
    by (simp add: property_pairs_def property_calls_def comp_def split_beta split: option.split)
  moreover have "property_pairs (int64_calls N f x) = []" if "\<And>w k v. f w \<noteq> M_set_property k v" for f x
    using that by (intro property_pairs_none) (auto simp: set_int64_calls dest: sym)
  moreover have "property_pairs (string_calls f x) = []" if "\<And>w k v. f w \<noteq> M_set_property k v" for f x
    using that by (intro property_pairs_none) (auto simp: set_string_calls dest: sym)
  moreover have "property_pairs (cluster_calls N conf) = []"
    using set_cluster_calls [of N conf] by (intro property_pairs_none) auto
  moreover have "property_pairs (case x of None \<Rightarrow> [] | Some b \<Rightarrow> [M_set_content b]) = []"
    "property_pairs (case y of None \<Rightarrow> [] | Some n \<Rightarrow> if q n then [M_set_event_timestamp (f n)] else []) = []"
    "property_pairs (if r then [M_disable_replication] else []) = []" for x y q f r
    by (auto simp: property_pairs_def split: option.split)
  ultimately show ?thesis by (simp only: message_calls_alt property_pairs_append append_Nil append_Nil2) simp
qed

lemma map_of_map_JString: "map_of (map (\<lambda>(k, v). (k, JString v)) xs) = map_option JString \<circ> map_of xs"
  by (induction xs) (auto simp: fun_eq_iff)

lemma properties_readable:
  assumes "get_object conf ''properties'' = Some (JObject (map (\<lambda>(k, s). (k, JString s)) es))"
    and "distinct (map fst es)" and "\<forall>(k, s) \<in> set es. CHR 0x00 \<notin> set k \<and> CHR 0x00 \<notin> set s"
    and "''length'' \<notin> fst ` set es" and "''__proto__'' \<notin> fst ` set es" and "reports (message_calls N conf) (M p)"
  shows "\<exists>a. GetProperties N M (Some p) = Inr a \<and> map_of (arr_props a) = map_of (map (\<lambda>(k, s). (k, JString s)) es)"
proof -
  have "map (\<lambda>(k, v). (c_str k, c_str v)) es = es" using assms(3) by (intro map_idI) auto
  then have "property_pairs (message_calls N conf) = es"
    using string_properties_strings [OF assms(2), of N] by (simp add: property_pairs_message assms(1))
  moreover have "map_of (rev es) = map_of es"
    using assms(2) by (intro map_of_inject_set [THEN iffD2]) (simp_all add: rev_map [symmetric])
  ultimately have m: "map_of (msg_properties (M p)) = map_of es" and d: "distinct (map fst (msg_properties (M p)))"
    using assms(6) by (simp_all add: reports_def)
  have "dom (map_of (msg_properties (M p))) = dom (map_of es)" by (simp add: m)
  then have keys: "fst ` set (msg_properties (M p)) = fst ` set es" by (simp add: dom_map_of_conv_image_fst)
  obtain a where "set_properties N (msg_properties (M p)) \<lparr>arr_length = 0, arr_props = []\<rparr> = Inr a"
    "map_of (arr_props a) = map_of (map (\<lambda>(k, v). (k, JString v)) (msg_properties (M p)))"
    using set_properties_lookup [OF d, of N "\<lparr>arr_length = 0, arr_props = []\<rparr>"] assms(4,5) keys by auto
  then show ?thesis by (simp add: GetProperties_def ValidateCMessage_def map_of_map_JString m)
qed

lemma event_time_readable:
  assumes "get_number conf ''eventTimestamp'' = Some (Finite (of_int i))" and "0 \<le> i" and "i \<le> 2 ^ 53"
    and "reports (message_calls N conf) (M p)"
  shows "GetEventTimestamp M (Some p) = Inr (JNumber (Finite (of_int i)))"
proof -
  let ?w = "Int64Value N (Finite (of_int i))"
  have s: "sint ?w = i" using assms(2,3) by (subst sint_Int64Value) (simp_all add: fits64_def)
  have w: "?w = word_of_int i" using assms(2,3) by (simp add: Int64Value_def fits64_def)
  have "M_set_event_timestamp ?w \<in> set (message_calls N conf)" using s assms(1,2) by (simp add: event_timestamp_call)
  with assms(4) have "event_timestamp (M p) = ?w" by (simp add: reports_def)
  moreover have "uint ?w = i" unfolding w using assms(2,3) by (simp add: uint_word_of_int)
  ultimately show ?thesis using assms(2,3) by (simp add: GetEventTimestamp_def Number_New_exact)
qed

subsection \<open>Properties\<close>

text \<open>
  C10. What is sent can be read: \<open>send\<close> makes one request with the message built from the object,
  and a message delivered as the C client promises has the content, the event timestamp (if it is a
  non-negative safe integer), the keys and the properties of the object, each read back by its accessor as
  the value that was given. Names and values must not contain NUL, and no property may have a name that
  is special to a JavaScript array.
\<close>

theorem sent_message_readable:
  assumes "heap_wf h" and "reports (message_calls N conf) (M p)"
    and "get_buffer conf ''data'' = Some b"
    and "get_number conf ''eventTimestamp'' = Some (Finite (of_int i))" and "0 \<le> i" and "i \<le> 2 ^ 53"
    and "get_string conf ''partitionKey'' = Some pk" and "CHR 0x00 \<notin> set pk"
    and "get_string conf ''orderingKey'' = Some ok" and "CHR 0x00 \<notin> set ok"
    and "get_object conf ''properties'' = Some (JObject (map (\<lambda>(k, s). (k, JString s)) es))"
    and "distinct (map fst es)" and "\<forall>(k, s) \<in> set es. CHR 0x00 \<notin> set k \<and> CHR 0x00 \<notin> set s"
    and "''length'' \<notin> fst ` set es" and "''__proto__'' \<notin> fst ` set es"
  shows "fst (Producer_Send N h producer (conf # rest)) = Started Op_send [C_send_async producer (message_calls N conf)] \<and>
    GetData M (Some p) = Inr (JBuffer b) \<and> GetEventTimestamp M (Some p) = Inr (JNumber (Finite (of_int i))) \<and>
    GetPartitionKey M (Some p) = Inr (JString pk) \<and> GetOrderingKey M (Some p) = Inr (JString ok) \<and>
    (\<exists>a. GetProperties N M (Some p) = Inr a \<and> map_of (arr_props a) = map_of (map (\<lambda>(k, s). (k, JString s)) es))"
proof (intro conjI)
  show "fst (Producer_Send N h producer (conf # rest)) = Started Op_send [C_send_async producer (message_calls N conf)]"
    using BuildMessage_result [OF assms(1), of N conf] by (auto simp: Producer_Send_def info_arg_def)
  show "GetData M (Some p) = Inr (JBuffer b)" "GetPartitionKey M (Some p) = Inr (JString pk)"
    "GetOrderingKey M (Some p) = Inr (JString ok)"
    using assms(2) calls_made(1) [OF assms(3), of N] calls_made(2) [OF assms(7), of N] calls_made(3) [OF assms(9), of N]
      assms(8,10) by (simp_all add: reports_def getters)
  show "GetEventTimestamp M (Some p) = Inr (JNumber (Finite (of_int i)))"
    by (rule event_time_readable [where M = M and p = p, OF assms(4,5,6,2)])
  show "\<exists>a. GetProperties N M (Some p) = Inr a \<and> map_of (arr_props a) = map_of (map (\<lambda>(k, s). (k, JString s)) es)"
    by (rule properties_readable [where M = M and p = p, OF assms(11-15,2)])
qed

definition example_sent :: js_value where
  "example_sent = JObject [(''data'', JBuffer ''hi''), (''eventTimestamp'', JNumber (Finite (of_int 17))),
     (''partitionKey'', JString ''p''), (''orderingKey'', JString ''o''),
     (''properties'', JObject [(''a'', JString ''1''), (''b'', JString ''2'')])]"

theorem sent_message_readable_witness:
  "\<exists>M a. GetData M (Some 1) = Inr (JBuffer ''hi'') \<and> GetPartitionKey M (Some 1) = Inr (JString ''p'') \<and>
     GetProperties napi_ref M (Some 1) = Inr a \<and> map_of (arr_props a) ''b'' = Some (JString ''2'')"
proof -
  let ?M = "\<lambda>p :: ptr. example_received\<lparr>msg_data := ''hi'', event_timestamp := 17, partitionKey := ''p'', orderingKey := ''o'',
     msg_properties := [(''b'', ''2''), (''a'', ''1'')]\<rparr>"
  let ?es = "[(''a'', ''1''), (''b'', ''2'')]"
  note g = example_sent_def getter_defs is_defs Has_def Get_def
  have "heap_wf \<lparr>blocks = Map.empty, fresh = 1\<rparr>" by (simp add: heap_wf_def)
  moreover have "message_calls napi_ref example_sent = [M_set_content ''hi'', M_set_property ''a'' ''1'', M_set_property ''b'' ''2'',
      M_set_event_timestamp 17, M_set_partition_key ''p'', M_set_ordering_key ''o'']"
    by (simp add: message_calls_def g property_calls_def string_properties_def GetPropertyNames_def int64_calls_def
        string_calls_def Int64Value_def fits64_def trunc_def ToString_def c_str_def)
  then have "reports (message_calls napi_ref example_sent) (?M 1)"
    by (simp add: reports_def property_pairs_def fun_eq_iff)
  moreover have "get_number example_sent ''eventTimestamp'' = Some (Finite (of_int 17))"
    "get_object example_sent ''properties'' = Some (JObject (map (\<lambda>(k, s). (k, JString s)) ?es))" by (simp_all add: g)
  ultimately have "GetData ?M (Some 1) = Inr (JBuffer ''hi'') \<and> GetPartitionKey ?M (Some 1) = Inr (JString ''p'') \<and>
      (\<exists>a. GetProperties napi_ref ?M (Some 1) = Inr a \<and> map_of (arr_props a) = map_of (map (\<lambda>(k, s). (k, JString s)) ?es))"
    using sent_message_readable [of "\<lparr>blocks = Map.empty, fresh = 1\<rparr>" napi_ref example_sent ?M 1 "''hi''" 17 "''p''" "''o''" ?es]
    by (simp add: g)
  then show ?thesis by auto
qed

end
