(* ===== verification/Token_Lifetime.thy ===== *)
theory Token_Lifetime
  imports Authentication Client_Config Delivery
begin

section \<open>The token supplier and the objects that keep it\<close>

text \<open>
  An \<open>Authentication\<close> object made with a function owns a structure with a thread-safe function;
  \<open>TokenSupplier\<close> uses that structure on threads of the C client whenever a token is needed. The
  object is kept by the application and, in \<open>authRefs_\<close>, by the \<open>Client\<close> objects made with
  it. The C client however is kept by the \<open>Client\<close> object and by the contexts of the producers,
  consumers and readers that are being created. The theorem shows that the references of the client
  suffice as long as it is not collected while a creation or a request for a token is under way, and
  that they do not otherwise.
\<close>

subsection \<open>State\<close>

text \<open>
  \<open>tk_client\<close> is the list \<open>authRefs_\<close> of the \<open>Client\<close> object while that exists;
  \<open>tk_creating\<close> counts the contexts that hold the C client; \<open>tk_supplier\<close> is the
  \<open>Authentication\<close> object while that exists; \<open>tk_threads\<close> are the calls of
  \<open>TokenSupplier\<close> and \<open>tk_queue\<close> the calls of the JavaScript function waiting to run.
\<close>

record token_use =
  tk_binding :: js_value
  tk_app :: bool
  tk_client :: "js_value list option"
  tk_creating :: nat
  tk_supplier :: "authentication option"
  tk_present :: bool
  tk_users :: nat
  tk_threads :: "stage list"
  tk_queue :: nat

text \<open>A client has been made with an authentication object whose binding is given.\<close>

definition token_start :: "napi \<Rightarrow> js_value \<Rightarrow> js_value \<Rightarrow> authentication \<Rightarrow> token_use" where
  "token_start N authObject binding a =
     \<lparr>tk_binding = binding, tk_app = True, tk_client = Some (snd (BuildAuthenticationPtr N authObject [])), tk_creating = 0,
      tk_supplier = Some a, tk_present = True, tk_users = 1, tk_threads = [], tk_queue = 0\<rparr>"

definition supplier_deleted :: exn where
  "supplier_deleted = UndefinedBehaviour ''token supplier used after it was deleted''"

definition at_supplier :: "token_use \<Rightarrow> token_use \<Rightarrow> exn + token_use" where
  "at_supplier s s' = (if tk_present s then Inr s' else Inl supplier_deleted)"

subsection \<open>TokenSupplier\<close>

definition set_token_stage :: "nat \<Rightarrow> stage \<Rightarrow> token_use \<Rightarrow> token_use" where
  "set_token_stage i g s = s\<lparr>tk_threads := (tk_threads s)[i := g]\<rparr>"

definition token_requested :: "token_use \<Rightarrow> token_use" where
  "token_requested s = s\<lparr>tk_threads := tk_threads s @ [Entered]\<rparr>"

definition token_acquire :: "nat \<Rightarrow> token_use \<Rightarrow> exn + token_use" where
  "token_acquire i s = at_supplier s (set_token_stage i Acquired (s\<lparr>tk_users := Suc (tk_users s)\<rparr>))"

definition token_refused :: "nat \<Rightarrow> token_use \<Rightarrow> exn + token_use" where
  "token_refused i s = at_supplier s (set_token_stage i Finished s)"

definition token_call :: "nat \<Rightarrow> token_use \<Rightarrow> exn + token_use" where
  "token_call i s = at_supplier s (set_token_stage i Called (s\<lparr>tk_queue := Suc (tk_queue s)\<rparr>))"

definition token_release :: "nat \<Rightarrow> token_use \<Rightarrow> exn + token_use" where
  "token_release i s = at_supplier s (set_token_stage i Finished (s\<lparr>tk_users := tk_users s - 1\<rparr>))"

subsection \<open>The objects\<close>

text \<open>The destructor of \<open>Authentication\<close> gives back its use of the function, if it has one.\<close>

definition collect_Authentication :: "token_use \<Rightarrow> token_use" where
  "collect_Authentication s = (case tk_supplier s of
       None \<Rightarrow> s
     | Some a \<Rightarrow> s\<lparr>tk_supplier := None, tk_users := tk_users s - of_bool (fst (destroy_Authentication a) \<noteq> None)\<rparr>)"

definition FinalizeTokenSupplierCallback :: "token_use \<Rightarrow> token_use" where
  "FinalizeTokenSupplierCallback s = s\<lparr>tk_present := False\<rparr>"

definition auth_kept :: "token_use \<Rightarrow> bool" where
  "auth_kept s \<longleftrightarrow> tk_app s \<or> (case tk_client s of None \<Rightarrow> False | Some kept \<Rightarrow> tk_binding s \<in> set kept)"

definition c_client_kept :: "token_use \<Rightarrow> bool" where
  "c_client_kept s \<longleftrightarrow> tk_client s \<noteq> None \<or> 0 < tk_creating s"

definition token_idle :: "token_use \<Rightarrow> bool" where
  "token_idle s \<longleftrightarrow> tk_creating s = 0 \<and> (\<forall>g \<in> set (tk_threads s). g = Finished)"

text \<open>
  \<open>quiet\<close>: the client is collected only when no creation and no request is under way. The C
  client asks for tokens as long as it exists.
\<close>

inductive token_step :: "bool \<Rightarrow> token_use \<Rightarrow> exn + token_use \<Rightarrow> bool" for quiet where
  app_drops: "token_step quiet s (Inr (s\<lparr>tk_app := False\<rparr>))"
| creation: "tk_client s \<noteq> None \<Longrightarrow> token_step quiet s (Inr (s\<lparr>tk_creating := Suc (tk_creating s)\<rparr>))"
| created: "0 < tk_creating s \<Longrightarrow> token_step quiet s (Inr (s\<lparr>tk_creating := tk_creating s - 1\<rparr>))"
| collect_client: "quiet \<longrightarrow> token_idle s \<Longrightarrow> token_step quiet s (Inr (s\<lparr>tk_client := None\<rparr>))"
| collect_auth: "\<not> auth_kept s \<Longrightarrow> token_step quiet s (Inr (collect_Authentication s))"
| request: "c_client_kept s \<Longrightarrow> token_step quiet s (Inr (token_requested s))"
| acquire: "i < length (tk_threads s) \<Longrightarrow> tk_threads s ! i = Entered \<Longrightarrow> token_step quiet s (token_acquire i s)"
| refuse: "i < length (tk_threads s) \<Longrightarrow> tk_threads s ! i = Entered \<Longrightarrow> tk_users s = 0 \<Longrightarrow> token_step quiet s (token_refused i s)"
| call: "i < length (tk_threads s) \<Longrightarrow> tk_threads s ! i = Acquired \<Longrightarrow> tk_queue s = 0 \<Longrightarrow> token_step quiet s (token_call i s)"
| run: "0 < tk_queue s \<Longrightarrow> token_step quiet s (Inr (s\<lparr>tk_queue := tk_queue s - 1\<rparr>))"
| release: "i < length (tk_threads s) \<Longrightarrow> tk_threads s ! i = Called \<Longrightarrow> token_step quiet s (token_release i s)"
| finalize: "tk_users s = 0 \<Longrightarrow> tk_queue s = 0 \<Longrightarrow> token_step quiet s (Inr (FinalizeTokenSupplierCallback s))"

inductive token_reachable :: "bool \<Rightarrow> token_use \<Rightarrow> token_use \<Rightarrow> bool" for quiet s0 where
  start: "token_reachable quiet s0 s0"
| step: "token_reachable quiet s0 s \<Longrightarrow> token_step quiet s (Inr s') \<Longrightarrow> token_reachable quiet s0 s'"

subsection \<open>Invariant\<close>

definition in_call :: "stage \<Rightarrow> bool" where
  "in_call g \<longleftrightarrow> g = Acquired \<or> g = Called"

definition token_counts :: "token_use \<Rightarrow> bool" where
  "token_counts s \<longleftrightarrow> tk_users s = length (filter in_call (tk_threads s)) + of_bool (tk_supplier s \<noteq> None) \<and>
     (\<not> tk_present s \<longrightarrow> tk_users s = 0) \<and> (\<forall>a. tk_supplier s = Some a \<longrightarrow> tokenSupplier a \<noteq> None)"

definition token_owned :: "token_use \<Rightarrow> bool" where
  "token_owned s = (case tk_client s of
       None \<Rightarrow> token_idle s
     | Some kept \<Rightarrow> tk_binding s \<in> set kept \<and> tk_supplier s \<noteq> None)"

lemmas token_defs = at_supplier_def set_token_stage_def token_requested_def token_acquire_def token_refused_def token_call_def
  token_release_def collect_Authentication_def FinalizeTokenSupplierCallback_def

lemma in_call_counted: "i < length gs \<Longrightarrow> in_call (gs ! i) \<Longrightarrow> 0 < length (filter in_call gs)"
  by (auto simp: length_filter_conv_card card_gt_0_iff)

lemma at_supplier_Inr: "at_supplier s t = Inr s' \<longleftrightarrow> tk_present s \<and> s' = t" "Inr s' = at_supplier s t \<longleftrightarrow> tk_present s \<and> s' = t"
  by (auto simp: at_supplier_def)

lemma stage_counts:
  assumes "token_counts s" and "i < length (tk_threads s)" and "tk_present s"
    and "n + of_bool (in_call (tk_threads s ! i)) = tk_users s + of_bool (in_call g)"
  shows "token_counts (set_token_stage i g (s\<lparr>tk_users := n, tk_queue := q\<rparr>))"
  using assms filter_update_length [OF assms(2), of in_call g] by (simp add: token_counts_def set_token_stage_def)

lemma token_step_counts:
  assumes "token_step quiet s (Inr s')" and "token_counts s"
  shows "token_counts s'"
  using assms(1)
proof cases
  case (acquire i)
  then show ?thesis using stage_counts [OF assms(2), of i "Suc (tk_users s)" Acquired "tk_queue s"]
    by (simp add: token_acquire_def at_supplier_Inr in_call_def)
next
  case (refuse i)
  then show ?thesis using filter_update_length [of i "tk_threads s" in_call Finished] assms(2)
    by (simp add: token_refused_def at_supplier_Inr token_counts_def set_token_stage_def in_call_def)
next
  case (call i)
  then show ?thesis using stage_counts [OF assms(2), of i "tk_users s" Called "Suc (tk_queue s)"]
    by (simp add: token_call_def at_supplier_Inr in_call_def)
next
  case (release i)
  then have "in_call (tk_threads s ! i)" by (simp add: in_call_def)
  then have "0 < tk_users s" using in_call_counted [of i "tk_threads s"] release assms(2) by (simp add: token_counts_def)
  with release show ?thesis using stage_counts [OF assms(2), of i "tk_users s - 1" Finished "tk_queue s"]
    by (simp add: token_release_def at_supplier_Inr in_call_def)
qed (use assms(2) in \<open>auto simp: token_counts_def token_defs destroy_Authentication_def in_call_def split: option.split\<close>)

lemma thread_owned:
  assumes "token_owned s" and "i < length (tk_threads s)" and "tk_threads s ! i \<noteq> Finished"
    and "tk_client s' = tk_client s" "tk_binding s' = tk_binding s" "tk_supplier s' = tk_supplier s"
  shows "token_owned s'"
proof -
  have "\<not> token_idle s" using assms(2,3) by (auto simp: token_idle_def)
  with assms show ?thesis by (auto simp: token_owned_def split: option.splits)
qed

lemma token_step_owned:
  assumes "token_step True s (Inr s')" and "token_owned s"
  shows "token_owned s'"
  using assms(1)
proof cases
  case collect_auth
  then have "tk_client s = None" using assms(2) by (auto simp: token_owned_def auth_kept_def split: option.splits)
  with collect_auth assms(2) show ?thesis by (auto simp: token_owned_def token_idle_def token_defs split: option.splits)
next
  case request
  then show ?thesis using assms(2) by (auto simp: token_owned_def token_idle_def c_client_kept_def token_defs split: option.splits)
next
  case (acquire i)
  then show ?thesis by (intro thread_owned [OF assms(2), of i]) (auto simp: token_defs at_supplier_Inr split: if_splits)
next
  case (refuse i)
  then show ?thesis by (intro thread_owned [OF assms(2), of i]) (auto simp: token_defs at_supplier_Inr split: if_splits)
next
  case (call i)
  then show ?thesis by (intro thread_owned [OF assms(2), of i]) (auto simp: token_defs at_supplier_Inr split: if_splits)
next
  case (release i)
  then show ?thesis by (intro thread_owned [OF assms(2), of i]) (auto simp: token_defs at_supplier_Inr split: if_splits)
qed (use assms(2) in \<open>auto simp: token_owned_def token_idle_def token_defs split: option.splits if_splits\<close>)

text \<open>A thread that has entered finds the structure while its owner exists, one that has acquired it always.\<close>

lemma token_step_safe:
  assumes "token_step True s r" and "token_counts s" and "token_owned s"
  shows "\<exists>s'. r = Inr s'"
proof -
  have "tk_present s" if "i < length (tk_threads s)" "tk_threads s ! i \<noteq> Finished" for i
  proof (cases "in_call (tk_threads s ! i)")
    case True
    then show ?thesis using assms(2) in_call_counted [OF that(1)] by (auto simp: token_counts_def)
  next
    case False
    have "\<not> token_idle s" using that by (auto simp: token_idle_def)
    then have "tk_supplier s \<noteq> None" using assms(3) by (auto simp: token_owned_def split: option.splits)
    then show ?thesis using assms(2) by (auto simp: token_counts_def)
  qed
  with assms(1) show ?thesis
    by cases (auto simp: token_acquire_def token_refused_def token_call_def token_release_def at_supplier_def)
qed

lemma token_reachable_inv:
  assumes "token_reachable True (token_start N authObject binding a) s"
    and "get_object authObject ''binding'' = Some binding" and "tokenSupplier a \<noteq> None"
  shows "token_counts s \<and> token_owned s"
  using assms(1)
proof (induction rule: token_reachable.induct)
  case start
  have "binding \<in> set (snd (BuildAuthenticationPtr N authObject []))"
    using assms(2) by (simp add: BuildAuthenticationPtr_def split: sum.split option.split)
  with assms(3) show ?case by (simp add: token_counts_def token_owned_def token_start_def)
next
  case (step s s')
  then show ?case using token_step_counts token_step_owned by blast
qed


subsection \<open>Property\<close>

lemma token_dangling_run:
  assumes "tokenSupplier a \<noteq> None"
  shows "\<exists>s. token_reachable False (token_start N authObject binding a) s \<and> token_step False s (Inl supplier_deleted)"
proof -
  let ?s = "token_start N authObject binding a"
  let ?s2 = "?s\<lparr>tk_creating := 1, tk_app := False, tk_client := None\<rparr>"
  let ?s3 = "?s2\<lparr>tk_supplier := None, tk_users := 0\<rparr>"
  let ?s4 = "?s3\<lparr>tk_present := False, tk_threads := [Entered]\<rparr>"
  note step = token_reachable.step [where quiet = False]
  have "token_reachable False ?s ?s" by (rule token_reachable.start)
  then have "token_reachable False ?s (?s\<lparr>tk_creating := 1\<rparr>)"
    using token_step.creation [of ?s False] by (auto simp: token_start_def intro: step)
  then have "token_reachable False ?s (?s\<lparr>tk_creating := 1, tk_app := False\<rparr>)"
    by (rule step) (rule token_step.app_drops)
  then have "token_reachable False ?s ?s2" by (rule step) (rule token_step.collect_client, simp)
  then have "token_reachable False ?s (collect_Authentication ?s2)"
    by (rule step) (rule token_step.collect_auth, simp add: auth_kept_def)
  moreover have "collect_Authentication ?s2 = ?s3"
    using assms by (auto simp: collect_Authentication_def token_start_def destroy_Authentication_def)
  ultimately have "token_reachable False ?s ?s3" by simp
  then have "token_reachable False ?s (FinalizeTokenSupplierCallback ?s3)"
    by (rule step) (rule token_step.finalize, simp_all add: token_start_def)
  then have "token_reachable False ?s (token_requested (FinalizeTokenSupplierCallback ?s3))"
    by (rule step) (rule token_step.request, simp add: c_client_kept_def FinalizeTokenSupplierCallback_def)
  moreover have "token_requested (FinalizeTokenSupplierCallback ?s3) = ?s4"
    by (simp add: FinalizeTokenSupplierCallback_def token_requested_def token_start_def)
  ultimately have "token_reachable False ?s ?s4" by simp
  moreover have "token_step False ?s4 (Inl supplier_deleted)"
    using token_step.acquire [of 0 ?s4 False] by (simp add: token_acquire_def at_supplier_def)
  ultimately show ?thesis by blast
qed

text \<open>
  C16. The references that a client keeps protect the token supplier: if the client is collected only
  when no producer, consumer or reader is being created and no token is being asked for, no thread of the
  C client uses the structure of the supplier after it was deleted, and the count of its function is
  the number of threads in a call plus one for the \<open>Authentication\<close> object. Without that
  condition there is a run in which one does: the context of a creation keeps the C client but not the
  authentication.
\<close>

theorem token_supplier_kept:
  assumes "get_object authObject ''binding'' = Some binding" and "tokenSupplier a \<noteq> None"
  shows "(token_reachable True (token_start N authObject binding a) s \<longrightarrow>
      (\<forall>r. token_step True s r \<longrightarrow> (\<exists>s'. r = Inr s')) \<and>
      tk_users s = length (filter in_call (tk_threads s)) + of_bool (tk_supplier s \<noteq> None)) \<and>
    (\<exists>s'. token_reachable False (token_start N authObject binding a) s' \<and> token_step False s' (Inl supplier_deleted))"
proof (intro conjI impI)
  assume "token_reachable True (token_start N authObject binding a) s"
  from token_reachable_inv [OF this assms] have inv: "token_counts s" "token_owned s" by simp_all
  show "\<forall>r. token_step True s r \<longrightarrow> (\<exists>s'. r = Inr s')" using token_step_safe [OF _ inv] by blast
  show "tk_users s = length (filter in_call (tk_threads s)) + of_bool (tk_supplier s \<noteq> None)"
    using inv(1) by (simp add: token_counts_def)
qed (rule token_dangling_run [OF assms(2)])

definition example_supplier :: authentication where
  "example_supplier = no_authentication\<lparr>cAuthentication := Some (Auth_token_supplier 7), tokenSupplier := Some 7\<rparr>"

theorem token_supplier_kept_witness:
  "Authentication [JString ''token'', JObject [(''token'', JFunction 7)]] = Continue example_supplier \<and>
   (let s = token_start napi_ref (JObject [(''binding'', JObject [])]) (JObject []) example_supplier in
    token_reachable True s s \<and> (\<forall>r. token_step True s r \<longrightarrow> (\<exists>s'. r = Inr s')) \<and>
    (\<exists>s'. token_reachable False s s' \<and> token_step False s' (Inl supplier_deleted)))"
proof -
  let ?s = "token_start napi_ref (JObject [(''binding'', JObject [])]) (JObject []) example_supplier"
  have "get_object (JObject [(''binding'', JObject [])]) ''binding'' = Some (JObject [])" "tokenSupplier example_supplier \<noteq> None"
    by (simp_all add: get_object_def getter_defs is_defs Has_def Get_def example_supplier_def)
  from token_supplier_kept [OF this, of napi_ref ?s]
  have "token_reachable True ?s ?s \<and> (\<forall>r. token_step True ?s r \<longrightarrow> (\<exists>s'. r = Inr s')) \<and>
      (\<exists>s'. token_reachable False ?s s' \<and> token_step False s' (Inl supplier_deleted))"
    using token_reachable.start [of True ?s] by blast
  moreover have "Authentication [JString ''token'', JObject [(''token'', JFunction 7)]] = Continue example_supplier"
    by (simp add: auth_defs example_supplier_def arg_def getter_defs is_defs Has_def Get_def)
  ultimately show ?thesis by (simp add: Let_def)
qed

end
