(* ===== verification/Spec2Isabelle.thy ===== *)
theory Spec2Isabelle
  imports Crypto_Key_Reader Delivery Handles Js_Package Logging Ownership Send_Receive Token_Lifetime
begin

text \<open>
  This development verifies the native addon of the Pulsar client for Node.js, the C++ code under
  \<open>src/\<close> of the repository. The addon wraps the C and C++ client of Apache Pulsar in classes that
  JavaScript uses through N-API (node-addon-api).

  \<^bold>\<open>The program.\<close> \<open>Client\<close> is constructed from a configuration object and creates producers,
  consumers and readers; each of these reads its own configuration object
  (\<open>ProducerConfig\<close>, \<open>ConsumerConfig\<close>, \<open>ReaderConfig\<close>, with \<open>SchemaInfo\<close>,
  \<open>Authentication\<close> and \<open>CryptoKeyReader\<close>) and then passes requests to the C client. A
  request is asynchronous: a \<open>ThreadSafeDeferred\<close> and a heap-allocated context are made on the
  JavaScript thread, the C client runs a callback on a thread of its own, which decides the deferred,
  and a finalizer on the JavaScript thread settles the promise. Messages travel as \<open>Message\<close> and
  \<open>MessageId\<close> objects. Listeners, message routers, token suppliers, key readers and the log
  handler are JavaScript functions that threads of the C client call and wait for.

  \<^bold>\<open>Theories and sources.\<close>
  \<^item> \<open>Prelude\<close>: machine integers, how a block of a function ends (\<open>flow\<close>), sequences of
    blocks and the locale \<open>step_pipeline\<close> with its instance \<open>logged_pipeline\<close>, C strings,
    \<open>std::to_string\<close>, \<open>std::map\<close>. \<open>Js_Value\<close>: JavaScript values, the type tests,
    property accesses and conversions of N-API the addon uses, and unwrapping of native objects.
    \<open>Pulsar_C\<close>: the enumerations of the C client.
  \<^item> \<open>Deferred\<close> (\<open>ThreadSafeDeferred.h/.cc\<close>): the object as a state machine; it refines
    a write-once cell. \<open>Async\<close>: any number of calls in flight, interleaved with callbacks and
    finalizers; the locale \<open>async_handlers\<close> states what a callback promises.
  \<^item> \<open>Config_Common\<close>, \<open>Schema\<close> (\<open>SchemaInfo.h/.cc\<close>), \<open>Consumer_Config\<close>
    (\<open>ConsumerConfig.h/.cc\<close>), \<open>Producer_Config\<close> (\<open>ProducerConfig.h/.cc\<close>),
    \<open>Reader_Config\<close> (\<open>ReaderConfig.h/.cc\<close>), \<open>Client_Config\<close> (the constructor of
    \<open>Client.cc\<close>, the failover provider, the log handler): one definition per block of the source,
    composed in its order. The locale \<open>judged_pipeline\<close> connects a sequence of blocks with the
    verdict a specification gives on the object. \<open>Log_Thread\<close> refines the log handler to the
    structure in memory and the threads of the C client that use it (\<open>LogMessage\<close>).
  \<^item> \<open>C_Heap\<close> and \<open>Message\<close> (\<open>Message.h/.cc\<close>): the string array on an explicit heap,
    building a message, the accessors. \<open>Message_Id\<close> (\<open>MessageId.cc\<close>).
  \<^item> \<open>Callback\<close>: the proxies that call JavaScript for a waiting thread (\<open>Consumer.cc\<close>,
    \<open>Reader.cc\<close>, \<open>Authentication.cc\<close>), with the locale \<open>blocking_proxy\<close>;
    \<open>Listener\<close>: the part of a consumer or reader that owns a listener (locale
    \<open>listener_owner\<close>); \<open>Delivery\<close>: the threads that deliver to it, interleaved with closing and
    destruction, one step per access to shared memory (locale \<open>pausing_owner\<close>);
    \<open>Authentication\<close> (\<open>Authentication.h/.cc\<close>); \<open>Crypto_Key_Reader\<close>
    (\<open>CryptoKeyReader.cc\<close>); \<open>Logging\<close> (\<open>LogUtils.h\<close>, \<open>LogLevel\<close> of
    \<open>index.js\<close>).
  \<^item> \<open>Operations\<close> (\<open>Consumer.cc\<close>, \<open>Producer.cc\<close>, \<open>Reader.cc\<close>, the methods of
    \<open>Client.cc\<close>): every method as the requests it makes and every callback as what it does with
    the deferred; \<open>on_result\<close> is the one handler with which \<open>Async\<close> is interpreted.
    \<open>Addon\<close> (\<open>addon.cc\<close>, the \<open>Init\<close> functions): the table of methods of each class,
    the exports, and calling a method by name. \<open>Js_Wrappers\<close> (\<open>Client.js\<close>,
    \<open>Authentication*.js\<close>): the constructors of the classes of the package around the native ones;
    \<open>Js_Package\<close> (\<open>Client.js\<close>, \<open>ProtobufNativeSchema.js\<close>): the methods that
    forward, the file of certificates, schemas made from protobuf types.
  \<^item> Compositions: \<open>Ownership\<close> follows a listener from the configuration through creation to its
    release; \<open>Send_Receive\<close> goes from an object sent to the message received;
    \<open>Handles\<close> follows the shared pointers to messages and ids through \<open>MessageId.cc\<close>,
    \<open>Producer.cc\<close>, \<open>Consumer.cc\<close> and the message router of \<open>ProducerConfig.cc\<close>;
    \<open>Token_Lifetime\<close> follows the token supplier of \<open>Authentication.cc\<close> and the
    references of \<open>Client.h\<close> that keep it.
  \<^item> This theory: properties that span components.

  \<^bold>\<open>How the code is represented.\<close>
  \<^item> An object of the C client's library is the list of the calls made on it; a handle is a number,
    and \<open>None\<close> is the null pointer. What reaches the library through \<open>c_str()\<close> is cut at
    the first NUL (\<open>c_str\<close>). Strings are their UTF-8 bytes.
  \<^item> An exception, a pending JavaScript exception followed by \<open>return\<close>, a C++ throw and
    undefined behaviour are values of \<open>exn\<close>; the state reached is kept with it.
  \<^item> Code outside the repository is a parameter: \<open>napi\<close> holds the conversions of JavaScript whose
    result the addon does not determine (objects to strings and numbers, numbers outside 64 bits, the
    texts of N-API errors), \<open>rs\<close> describes results, \<open>setPolicy\<close> validates a batch receive
    policy, \<open>create\<close> creates a client, \<open>M\<close> answers for received messages,
    \<open>id_library\<close> holds the functions on message ids, \<open>failover_defaults\<close> the library's
    defaults, \<open>protobufjs\<close> what a schema is made with. Hypotheses on them are premises of the theorems that need them.
  \<^item> JavaScript objects have data properties only: no getters, proxies or inherited keys.
    Conversions keep their width: \<open>Int32Value\<close> wraps, \<open>Int64Value\<close> saturates as N-API
    prescribes, \<open>Number_New\<close> rounds to a double. \<open>int\<close> has 32 bits and \<open>long\<close> 64.
  \<^item> \<open>getSchemaInfo\<close> captures its deferred in a closure of the library instead of a context;
    the machine treats the closure as the context.

  \<^bold>\<open>What is shown.\<close> A promise is settled once, with what was decided first, and the operations in
  flight never fail, always come to an end and leak nothing (\<open>Deferred\<close>, \<open>Async\<close>,
  \<open>Operations\<close>); each operation answers with its own message or value. The configurations
  accept, refuse or throw exactly as stateless specifications say, and every call they make on the
  library has a valid argument. Building a message makes exactly the calls asked for and is memory
  safe. Every method acts on its own object and fails with its own message. Every listener passed to
  the C client is released exactly once; a consumer's listener thread never uses anything deleted if the
  consumer is closed while no delivery is under way; the structure of a token supplier is kept as long as
  its client is. The C client's messages and ids are freed exactly when nobody holds them any more. An error of a consumer's listener reaches the log
  handler. Credentials reach exactly the services they are meant for, through the wrappers as well,
  whose methods are those of the native client. Ids,
  schemas and the parts of a message survive round trips. Where the code does not do so, the failure is a
  theorem as well: closing races with deliveries under way, a reader's listener can dangle, misses
  messages that arrive early and blocks its thread on an error, the log handler can dangle once it is set
  to \<open>null\<close>, a token supplier when its client is collected during a creation, and a routed message
  that the application keeps; the reader's worker owns an uninitialised pointer, the wrapper of a key reader may be
  destroyed on the wrong thread, a creation that raises leaks its deferred, a property named
  \<open>length\<close> is lost, a closing token supplier returns no C string, byte limits beyond 32 bits are cut.

  \<^bold>\<open>Termination.\<close> No definition uses fuel: loops are structural recursions over the arrays and
  property lists they visit, and the interleaved machine has a measure (\<open>work\<close>) that every step
  other than a new call decreases.

  \<^bold>\<open>Not modelled.\<close> The loading of the binding (\<open>pulsar-binding.js\<close>), type declarations
  beyond the names of the methods, tests and build files; handle scopes, and garbage collection except
  that objects nobody refers to may be destroyed at any time; exceptions thrown by setters of the library; the
  internals of the C client and of protobufjs. Of the C++ files what has no definition is declarations,
  accessors of one member, and the structures that reach into the library's types: there is nothing
  left in them that computes.
\<close>

section \<open>Properties that span components\<close>

text \<open>What \<open>send\<close> answers on success.\<close>

lemma sent_value:
  assumes "fire (on_result rs) r p (ExtDeferredContext Op_send) = Inr call" and "answer copy (call_deferred call) = Fulfilled v"
  shows "v = MessageId_NewInstance (pl_messageId p)"
proof -
  have "map_sum id (answer copy) (on_result rs Op_send r p New) = Inr (settled_answer copy rs Op_send r p)"
    by (rule on_result_answer) simp
  with assms have "settled_answer copy rs Op_send r p = Fulfilled v"
    by (cases "on_result rs Op_send r p New") (auto simp: fire_def ExtDeferredContext_def)
  then show ?thesis
    by (auto simp: settled_answer_def success_value_def MessageId_NewInstance_def split: if_splits)
qed

text \<open>A reader created with a given start id.\<close>

lemma createReader_at:
  assumes "t \<noteq> []"
  shows "\<exists>c. Client_CreateReader N [JObject [(''topic'', JString t), (''startMessageId'', MessageId_NewInstance q)]] =
    Started (Op_createReader c) [C_create_reader_async (c_str t) q (cReaderConfig c)]"
proof -
  let ?cfg = "JObject [(''topic'', JString t), (''startMessageId'', MessageId_NewInstance q)]"
  have "start_verdict N ?cfg = Accepted"
    by (simp add: start_verdict_def getter_defs is_defs Has_def Get_def MessageId_NewInstance_def MessageId_Unwrap_def unwrap_as_def)
  from ReaderConfig_fields [OF this] assms show ?thesis
    by (simp add: Client_CreateReader_def Reader_NewInstance_def Let_def text_of_def getter_defs is_defs Has_def Get_def
        MessageId_NewInstance_def MessageId_Unwrap_def unwrap_as_def)
qed

text \<open>
  C21. Resuming from a saved position: the id a \<open>send\<close> was answered with can be serialized, and
  what is deserialized from these bytes makes a reader start, and a consumer seek, at the position of
  the message sent. The hypothesis on the C client's library is that serializing and deserializing an
  id keeps the position it denotes.
\<close>

theorem resume_from_saved_id:
  assumes "\<And>p. position (lib_deserialize lib (lib_serialize lib p)) = position p"
    and "fire (on_result rs) r p (ExtDeferredContext Op_send) = Inr call" and "answer copy (call_deferred call) = Fulfilled v"
    and "t \<noteq> []"
  shows "\<exists>b w q c. Serialize lib N v = Inr (JBuffer b) \<and> Deserialize lib (JBuffer b) = Inr w \<and>
    Client_CreateReader N [JObject [(''topic'', JString t), (''startMessageId'', w)]] =
      Started (Op_createReader c) [C_create_reader_async (c_str t) q (cReaderConfig c)] \<and>
    Consumer_Seek N consumer [w] = Started Op_seek [C_seek_async consumer (Some q)] \<and>
    position q = position (pl_messageId p)"
proof -
  let ?b = "lib_serialize lib (pl_messageId p)"
  let ?q = "lib_deserialize lib ?b"
  have "Serialize lib N v = Inr (JBuffer ?b)" by (simp add: sent_value [OF assms(2,3)] Serialize_def)
  moreover have "Deserialize lib (JBuffer ?b) = Inr (MessageId_NewInstance ?q)" by (simp add: Deserialize_def)
  moreover have "Consumer_Seek N consumer [MessageId_NewInstance ?q] = Started Op_seek [C_seek_async consumer (Some ?q)]"
    by (simp add: Consumer_Seek_def with_unwrapped_def MessageId_NewInstance_def MessageId_Unwrap_def unwrap_as_def)
  moreover have "position ?q = position (pl_messageId p)" by (rule assms(1))
  moreover note createReader_at [OF assms(4), of N ?q]
  ultimately show ?thesis by blast
qed

definition example_ids :: id_library where
  "example_ids = \<lparr>lib_earliest = 0, lib_latest = 1000, lib_serialize = (\<lambda>p. replicate p CHR ''x''), lib_deserialize = length,
     lib_str = (\<lambda>p. ''(1,2,3)'')\<rparr>"

theorem resume_from_saved_id_witness:
  "\<exists>b w q. Serialize example_ids napi_ref (MessageId_NewInstance 7) = Inr (JBuffer b) \<and> Deserialize example_ids (JBuffer b) = Inr w \<and>
     Consumer_Seek napi_ref 3 [w] = Started Op_seek [C_seek_async 3 (Some q)] \<and> q = 7"
proof -
  let ?p = "\<lparr>pl_object = 0, pl_messageId = 7, pl_message = 0, pl_messages = [], pl_topics = None, pl_schema = default_schema\<rparr>"
  obtain call where "fire (on_result (\<lambda>r. '''')) pulsar_result_Ok ?p (ExtDeferredContext Op_send) = Inr call"
    "answer id (call_deferred call) = Fulfilled (MessageId_NewInstance 7)"
    by (simp add: fire_def ExtDeferredContext_def send_callback_def complete_with_def deferred_defs answer_def
        MessageId_NewInstance_def Let_def)
  from resume_from_saved_id [OF _ this, of "\<lambda>p. p" example_ids "''t''" napi_ref 3] show ?thesis
    by (auto simp: example_ids_def)
qed

end
